(* ===== verification/Prelude.thy ===== *)
theory Prelude
  imports Main "HOL-Library.Sublist"
begin

text \<open>
  Shared vocabulary of the development: Go strings are byte sequences, so they are HOL
  \<^typ>\<open>string\<close>s (lists of 8-bit characters); a Go function that returns a value and an error is a
  function into a sum, whose left summand is the error. The theory holds the functions of the
  \<^verbatim>\<open>strings\<close>, \<^verbatim>\<open>strconv\<close> and \<^verbatim>\<open>fmt\<close> packages the program uses, the HTTP status codes it
  names, and the list, string and map lemmas that the component theories share.
\<close>

section \<open>Collections of facts\<close>

named_theorems go_string \<open>rewriting of Go string functions\<close>
named_theorems handler_defs \<open>unfolding of the HTTP handlers' straight-line code\<close>

section \<open>Results\<close>

type_synonym 'a result = "string + 'a"

definition is_ok :: "'e + 'a \<Rightarrow> bool" where
  "is_ok r = (case r of Inl _ \<Rightarrow> False | Inr _ \<Rightarrow> True)"

lemma is_ok_simps [simp]: "is_ok (Inr x)" "\<not> is_ok (Inl e)"
  by (simp_all add: is_ok_def)

section \<open>Strings\<close>

text \<open>\<^verbatim>\<open>strings.Join\<close>.\<close>

fun str_join :: "string \<Rightarrow> string list \<Rightarrow> string" where
  "str_join sep [] = []"
| "str_join sep [x] = x"
| "str_join sep (x # y # ys) = x @ sep @ str_join sep (y # ys)"

text \<open>\<^verbatim>\<open>strings.Split\<close> at a separator of one byte.\<close>

fun split_on :: "char \<Rightarrow> string \<Rightarrow> string list" where
  "split_on c [] = [[]]"
| "split_on c (x # xs) =
     (if x = c then [] # split_on c xs
      else (case split_on c xs of [] \<Rightarrow> [[x]] | y # ys \<Rightarrow> (x # y) # ys))"

text \<open>\<^verbatim>\<open>strings.Split\<close> at a longer separator: leftmost, non-overlapping occurrences.\<close>

fun split_str_fuel :: "nat \<Rightarrow> string \<Rightarrow> string \<Rightarrow> string \<Rightarrow> string list" where
  "split_str_fuel 0 sep acc s = [rev acc @ s]"
| "split_str_fuel (Suc n) sep acc [] = [rev acc]"
| "split_str_fuel (Suc n) sep acc (x # xs) =
     (if prefix sep (x # xs) then rev acc # split_str_fuel n sep [] (drop (length sep) (x # xs))
      else split_str_fuel n sep (x # acc) xs)"

definition split_str :: "string \<Rightarrow> string \<Rightarrow> string list" where
  "split_str sep s = split_str_fuel (Suc (length s)) sep [] s"

text \<open>\<^verbatim>\<open>strings.TrimLeft\<close> with a cutset of one byte, \<^verbatim>\<open>strings.TrimSuffix\<close>,
  \<^verbatim>\<open>strings.HasPrefix\<close>, \<^verbatim>\<open>strings.HasSuffix\<close>, and \<^verbatim>\<open>strings.Replace\<close> of every
  occurrence of one byte.\<close>

definition trim_left :: "char \<Rightarrow> string \<Rightarrow> string" where
  "trim_left c s = dropWhile (\<lambda>x. x = c) s"

definition has_prefix :: "string \<Rightarrow> string \<Rightarrow> bool" where
  "has_prefix s p = (take (length p) s = p)"

definition has_suffix :: "string \<Rightarrow> string \<Rightarrow> bool" where
  "has_suffix s p = (length p \<le> length s \<and> drop (length s - length p) s = p)"

definition trim_suffix :: "string \<Rightarrow> string \<Rightarrow> string" where
  "trim_suffix s p = (if has_suffix s p then take (length s - length p) s else s)"

definition replace_char :: "char \<Rightarrow> string \<Rightarrow> string \<Rightarrow> string" where
  "replace_char c r s = concat (map (\<lambda>x. if x = c then r else [x]) s)"

text \<open>A formatted message (\<^verbatim>\<open>fmt.Sprintf\<close>, \<^verbatim>\<open>fmt.Errorf\<close>): the pieces of the format and its arguments.\<close>

definition msg :: "string list \<Rightarrow> string" where
  "msg ps = concat ps"

text \<open>The decimal text of an integer (\<^verbatim>\<open>strconv.Itoa\<close> and \<^verbatim>\<open>%d\<close>).\<close>

fun nat_text :: "nat \<Rightarrow> string" where
  "nat_text n =
     (if n < 10 then [''0123456789'' ! n] else nat_text (n div 10) @ [''0123456789'' ! (n mod 10)])"

declare nat_text.simps [simp del]

definition itoa :: "int \<Rightarrow> string" where
  "itoa i = (if i < 0 then CHR ''-'' # nat_text (nat (- i)) else nat_text (nat i))"

lemma str_join_Cons: "str_join sep (x # xs) = (if xs = [] then x else x @ sep @ str_join sep xs)"
  by (cases xs) simp_all

lemma str_join_snoc: "xs \<noteq> [] \<Longrightarrow> str_join sep (xs @ [x]) = str_join sep xs @ sep @ x"
  by (induction xs) (auto simp: str_join_Cons)

lemma split_on_not_Nil [simp]: "split_on c s \<noteq> []"
  by (induction s) (auto split: list.splits)

lemma str_join_split_on [go_string]: "str_join [c] (split_on c s) = s"
proof (induction s)
  case (Cons x xs)
  then show ?case
    by (cases "split_on c xs") (auto simp: str_join_Cons split: if_splits)
qed simp

lemma split_on_id: "c \<notin> set s \<Longrightarrow> split_on c s = [s]"
  by (induction s) auto

lemma split_on_append: "split_on c (a @ c # b) = split_on c a @ split_on c b"
  by (induction a) (auto split: list.splits)

lemma split_on_pieces: "p \<in> set (split_on c s) \<Longrightarrow> c \<notin> set p"
proof (induction s arbitrary: p)
  case (Cons x xs)
  then show ?case
    by (cases "split_on c xs") (auto split: if_splits)
qed simp

lemma split_on_str_join:
  assumes "xs \<noteq> []" and "\<forall>x\<in>set xs. c \<notin> set x"
  shows "split_on c (str_join [c] xs) = xs"
  using assms
proof (induction xs)
  case (Cons x xs)
  then show ?case
    by (cases xs) (auto simp: split_on_id split_on_append)
qed simp

lemma has_prefix_iff [go_string]: "has_prefix s p \<longleftrightarrow> prefix p s"
proof
  assume "has_prefix s p"
  then show "prefix p s"
    unfolding has_prefix_def by (metis take_is_prefix)
next
  assume "prefix p s"
  then show "has_prefix s p"
    by (auto simp: has_prefix_def prefix_def)
qed

lemma has_suffix_append [simp]: "has_suffix (a @ p) p"
  by (simp add: has_suffix_def)

lemma trim_suffix_append [simp]: "trim_suffix (a @ p) p = a"
  by (simp add: trim_suffix_def)

lemma trim_left_not_hd: "trim_left c s = x # xs \<Longrightarrow> x \<noteq> c"
  unfolding trim_left_def by (induction s) (auto split: if_splits)

lemma replace_char_removes: "c \<notin> set r \<Longrightarrow> c \<notin> set (replace_char c r s)"
  by (auto simp: replace_char_def)

lemma nat_text_digits: "set (nat_text n) \<subseteq> set ''0123456789''"
proof (induction n rule: nat_text.induct)
  case (1 n)
  have d: "''0123456789'' ! k \<in> set ''0123456789''" if "k < 10" for k :: nat
    using that by (intro nth_mem) simp
  show ?case
  proof (cases "n < 10")
    case True
    then show ?thesis using d by (subst nat_text.simps) simp
  next
    case False
    with 1 have "set (nat_text (n div 10)) \<subseteq> set ''0123456789''" by simp
    with False d [of "n mod 10"] show ?thesis by (subst nat_text.simps) auto
  qed
qed

section \<open>HTTP status codes\<close>

abbreviation StatusOK :: int where "StatusOK \<equiv> 200"
abbreviation StatusBadRequest :: int where "StatusBadRequest \<equiv> 400"
abbreviation StatusNotFound :: int where "StatusNotFound \<equiv> 404"
abbreviation StatusConflict :: int where "StatusConflict \<equiv> 409"
abbreviation StatusGone :: int where "StatusGone \<equiv> 410"
abbreviation StatusInternalServerError :: int where "StatusInternalServerError \<equiv> 500"
abbreviation StatusServiceUnavailable :: int where "StatusServiceUnavailable \<equiv> 503"
abbreviation StatusInsufficientStorage :: int where "StatusInsufficientStorage \<equiv> 507"

end
