(* ===== verification/Bundle.thy ===== *)
theory Bundle
  imports Prelude
begin

text \<open>
  The data of the node and cluster bundle API: the \<^verbatim>\<open>Status\<close> and \<^verbatim>\<open>Type\<close> enumerations
  (\<^verbatim>\<open>api/rest/status.go\<close>, \<^verbatim>\<open>api/rest/type.go\<close>), the \<^verbatim>\<open>Bundle\<close> structure with its methods
  (\<^verbatim>\<open>api/rest/bundle_handler.go\<close>), and its JSON form. A JSON object of a bundle is modelled by a
  record with one optional component per field: absent fields are \<open>None\<close>, so the \<^verbatim>\<open>omitempty\<close> tags
  of \<^verbatim>\<open>Marshal\<close> and the "keep what is already there" rule of \<^verbatim>\<open>Unmarshal\<close> are explicit. An instant
  is an integer, and the zero \<^verbatim>\<open>time.Time\<close> is \<open>0\<close>.
\<close>

type_synonym time = int

section \<open>Status and Type\<close>

datatype Status = Unknown | Started | InProgress | Done | Canceled | Deleted | Failed

fun status_code :: "Status \<Rightarrow> nat" where
  "status_code Unknown = 0"
| "status_code Started = 1"
| "status_code InProgress = 2"
| "status_code Done = 3"
| "status_code Canceled = 4"
| "status_code Deleted = 5"
| "status_code Failed = 6"

text \<open>\<^verbatim>\<open>Status\<close> is an \<^verbatim>\<open>int\<close> in the source, counted by \<^verbatim>\<open>iota\<close>; its order is the order of the
  declarations.\<close>

lemma status_code_inject [simp]: "status_code s = status_code t \<longleftrightarrow> s = t"
  by (cases s; cases t) simp_all

instantiation Status :: linorder
begin
definition less_eq_Status_def: "s \<le> t \<longleftrightarrow> status_code s \<le> status_code t"
definition less_Status_def: "s < t \<longleftrightarrow> status_code s < status_code t"
instance
  by standard (auto simp: less_eq_Status_def less_Status_def)
end

fun status_String :: "Status \<Rightarrow> string" where
  "status_String Unknown = ''Unknown''"
| "status_String Started = ''Started''"
| "status_String InProgress = ''InProgress''"
| "status_String Done = ''Done''"
| "status_String Canceled = ''Canceled''"
| "status_String Deleted = ''Deleted''"
| "status_String Failed = ''Failed''"

definition toID :: "string \<rightharpoonup> Status" where
  "toID = map_of
     [(''Unknown'', Unknown), (''Started'', Started), (''InProgress'', InProgress), (''Done'', Done),
      (''Canceled'', Canceled), (''Deleted'', Deleted), (''Failed'', Failed)]"

text \<open>A Go map lookup of a missing key gives the zero value, here \<^const>\<open>Unknown\<close>.\<close>

definition status_UnmarshalJSON :: "string \<Rightarrow> Status" where
  "status_UnmarshalJSON j = (case toID j of Some s \<Rightarrow> s | None \<Rightarrow> Unknown)"

definition status_MarshalJSON :: "Status \<Rightarrow> string" where
  "status_MarshalJSON s = status_String s"

datatype BundleType = Local | Cluster

fun type_String :: "BundleType \<Rightarrow> string" where
  "type_String Local = ''Local''"
| "type_String Cluster = ''Cluster''"

definition stringToType :: "string \<rightharpoonup> BundleType" where
  "stringToType = map_of [(''Local'', Local), (''Cluster'', Cluster)]"

definition type_MarshalJSON :: "BundleType \<Rightarrow> string" where
  "type_MarshalJSON t = type_String t"

definition type_UnmarshalJSON :: "string \<Rightarrow> BundleType result" where
  "type_UnmarshalJSON j =
     (case stringToType j of
        Some t \<Rightarrow> Inr t
      | None \<Rightarrow> Inl ([CHR 0x22] @ j @ [CHR 0x22] @ '' is not valid type''))"

lemma status_roundtrip [simp]: "status_UnmarshalJSON (status_MarshalJSON s) = s"
  by (cases s) (simp_all add: status_UnmarshalJSON_def status_MarshalJSON_def toID_def)

lemma type_roundtrip [simp]: "type_UnmarshalJSON (type_MarshalJSON t) = Inr t"
  by (cases t) (simp_all add: type_UnmarshalJSON_def type_MarshalJSON_def stringToType_def)

section \<open>Bundles\<close>

record Bundle =
  bID :: string
  bType :: BundleType
  bSize :: int
  bStatus :: Status
  bStarted :: time
  bStopped :: time
  bErrors :: "string list"

text \<open>The composite literal \<^verbatim>\<open>Bundle{}\<close>: every field has its zero value.\<close>

definition zero_bundle :: Bundle where
  "zero_bundle = \<lparr>bID = [], bType = Local, bSize = 0, bStatus = Unknown, bStarted = 0, bStopped = 0,
     bErrors = []\<rparr>"

definition IsFinished :: "Bundle \<Rightarrow> bool" where
  "IsFinished b =
     (bStatus b = Done \<or> bStatus b = Deleted \<or> bStatus b = Canceled \<or> bStatus b = Failed)"

definition bundle_Failed :: "time \<Rightarrow> string \<Rightarrow> Bundle \<Rightarrow> Bundle" where
  "bundle_Failed when why b =
     b\<lparr>bStatus := Failed, bStopped := when, bErrors := bErrors b @ [why]\<rparr>"

section \<open>The JSON form of a bundle\<close>

record bundle_doc =
  d_id :: "string option"
  d_type :: "string option"
  d_size :: "int option"
  d_status :: "string option"
  d_started :: "time option"
  d_stopped :: "time option"
  d_errors :: "string list option"

definition marshal_bundle :: "Bundle \<Rightarrow> bundle_doc" where
  "marshal_bundle b = \<lparr>
     d_id = (if bID b = [] then None else Some (bID b)),
     d_type = Some (type_MarshalJSON (bType b)),
     d_size = (if bSize b = 0 then None else Some (bSize b)),
     d_status = Some (status_MarshalJSON (bStatus b)),
     d_started = Some (bStarted b),
     d_stopped = Some (bStopped b),
     d_errors = (if bErrors b = [] then None else Some (bErrors b))\<rparr>"

definition keep :: "'a \<Rightarrow> 'a option \<Rightarrow> 'a" where
  "keep old new = (case new of None \<Rightarrow> old | Some v \<Rightarrow> v)"

text \<open>
  Decoding into an existing bundle, in the order of the fields. The only field whose value can be
  refused is the type: decoding stops there, with the id already stored.
\<close>

definition unmarshal_bundle :: "bundle_doc \<Rightarrow> Bundle \<Rightarrow> string option \<times> Bundle" where
  "unmarshal_bundle d b =
     (let b1 = b\<lparr>bID := keep (bID b) (d_id d)\<rparr> in
      case (case d_type d of None \<Rightarrow> Inr (bType b) | Some s \<Rightarrow> type_UnmarshalJSON s) of
        Inl e \<Rightarrow> (Some e, b1)
      | Inr t \<Rightarrow> (None, b1\<lparr>bType := t,
          bSize := keep (bSize b) (d_size d),
          bStatus := (case d_status d of None \<Rightarrow> bStatus b | Some s \<Rightarrow> status_UnmarshalJSON s),
          bStarted := keep (bStarted b) (d_started d),
          bStopped := keep (bStopped b) (d_stopped d),
          bErrors := keep (bErrors b) (d_errors d)\<rparr>))"

lemma keep_simps [simp]: "keep old None = old" "keep old (Some v) = v"
  by (simp_all add: keep_def)

lemma unmarshal_marshal:
  assumes "bID b0 = bID b" and "bSize b0 = 0" and "bErrors b0 = []"
  shows "unmarshal_bundle (marshal_bundle b) b0 = (None, b)"
  using assms by (simp add: unmarshal_bundle_def marshal_bundle_def Let_def)

lemma unmarshal_None_type:
  "unmarshal_bundle d b = (None, b') \<Longrightarrow>
     bID b' = keep (bID b) (d_id d) \<and> bSize b' = keep (bSize b) (d_size d)"
  by (auto simp: unmarshal_bundle_def Let_def split: sum.splits)

section \<open>Properties\<close>


end
