(* ===== verification/Filepath.thy ===== *)
theory Filepath
  imports Prelude
begin

text \<open>
  The part of Go's \<^verbatim>\<open>path/filepath\<close> (Unix flavour) that the program computes with: \<^verbatim>\<open>Clean\<close>,
  \<^verbatim>\<open>Join\<close> and \<^verbatim>\<open>Base\<close>. A cleaned path is rendered from its components, so facts about paths are
  facts about component lists; \<open>join_real\<close> and \<open>render_inject\<close> are what the file-system clients
  use to tell the files of a work directory apart.
\<close>

section \<open>Clean, Join, Base\<close>

abbreviation slash :: char where "slash \<equiv> CHR ''/''"

definition rooted :: "string \<Rightarrow> bool" where
  "rooted p = (case p of [] \<Rightarrow> False | c # _ \<Rightarrow> c = slash)"

text \<open>The loop of \<^verbatim>\<open>Clean\<close>: \<open>out\<close> holds the components written so far, the last one first.\<close>

fun clean_loop :: "bool \<Rightarrow> string list \<Rightarrow> string list \<Rightarrow> string list" where
  "clean_loop r out [] = rev out"
| "clean_loop r out (c # cs) =
     (if c = [] \<or> c = ''.'' then clean_loop r out cs
      else if c = ''..'' then
        (case out of
           [] \<Rightarrow> if r then clean_loop r [] cs else clean_loop r [''..''] cs
         | d # ds \<Rightarrow> if d = ''..'' then clean_loop r (''..'' # out) cs else clean_loop r ds cs)
      else clean_loop r (c # out) cs)"

definition path_comps :: "string \<Rightarrow> string list" where
  "path_comps p = clean_loop (rooted p) [] (split_on slash p)"

definition render :: "bool \<Rightarrow> string list \<Rightarrow> string" where
  "render r cs =
     (if r then slash # str_join [slash] cs else if cs = [] then ''.'' else str_join [slash] cs)"

definition clean :: "string \<Rightarrow> string" where
  "clean p = render (rooted p) (path_comps p)"

fun join :: "string list \<Rightarrow> string" where
  "join [] = []"
| "join (e # es) = (if e = [] then join es else clean (str_join [slash] (e # es)))"

definition base_name :: "string \<Rightarrow> string" where
  "base_name p =
     (if p = [] then ''.''
      else (let q = rev (dropWhile (\<lambda>c. c = slash) (rev p)) in
            if q = [] then [slash] else last (split_on slash q)))"

section \<open>Components\<close>

definition real_comp :: "string \<Rightarrow> bool" where
  "real_comp c = (c \<noteq> [] \<and> c \<noteq> ''.'' \<and> c \<noteq> ''..'' \<and> slash \<notin> set c)"

text \<open>What \<^verbatim>\<open>Clean\<close> may write: leading parent steps, only in a relative path, then real names.\<close>

definition cleaned :: "bool \<Rightarrow> string list \<Rightarrow> bool" where
  "cleaned r cs = (\<exists>k ds. cs = replicate k ''..'' @ ds \<and> (r \<longrightarrow> k = 0) \<and> (\<forall>d\<in>set ds. real_comp d))"

lemma cleaned_snoc_real: "cleaned r cs \<Longrightarrow> real_comp c \<Longrightarrow> cleaned r (cs @ [c])"
  unfolding cleaned_def by force

lemma cleaned_snoc_up:
  assumes "cleaned False cs" and "cs = [] \<or> last cs = ''..''"
  shows "cleaned False (cs @ [''..''])"
proof -
  from assms(1) obtain k ds where cs: "cs = replicate k ''..'' @ ds" "\<forall>d\<in>set ds. real_comp d"
    by (auto simp: cleaned_def)
  have "ds = []"
  proof (rule ccontr)
    assume ne: "ds \<noteq> []"
    then have "last ds \<in> set ds" by simp
    with cs ne assms(2) show False by (auto simp: real_comp_def)
  qed
  with cs have "cs @ [''..''] = replicate (Suc k) ''..'' @ []"
    by (simp add: replicate_append_same)
  then show ?thesis unfolding cleaned_def by (metis empty_iff empty_set)
qed

lemma cleaned_butlast:
  assumes "cleaned r (cs @ [c])" and "c \<noteq> ''..''"
  shows "cleaned r cs"
proof -
  from assms(1) obtain k ds where eq: "cs @ [c] = replicate k ''..'' @ ds" "r \<longrightarrow> k = 0"
    "\<forall>d\<in>set ds. real_comp d"
    by (auto simp: cleaned_def)
  have "ds \<noteq> []"
    using eq(1) assms(2) by (cases k) (auto simp flip: replicate_append_same)
  then obtain es e where "ds = es @ [e]" by (metis rev_exhaust)
  with eq show ?thesis unfolding cleaned_def by auto
qed

lemma cleaned_no_root_up: "cleaned True cs \<Longrightarrow> \<forall>c\<in>set cs. real_comp c"
  by (auto simp: cleaned_def)

lemma clean_loop_cleaned:
  assumes "cleaned r (rev out)" and "\<forall>c\<in>set cs. slash \<notin> set c"
  shows "cleaned r (clean_loop r out cs)"
  using assms
proof (induction r out cs rule: clean_loop.induct)
  case (2 r out c cs)
  consider (skip) "c = [] \<or> c = ''.''" | (up) "c = ''..''" | (name) "real_comp c"
    using "2.prems"(2) by (auto simp: real_comp_def)
  then show ?case
  proof cases
    case skip
    then show ?thesis using 2 by simp
  next
    case name
    then have "cleaned r (rev (c # out))" using "2.prems"(1) by (simp add: cleaned_snoc_real)
    then show ?thesis using 2 name by (simp add: real_comp_def)
  next
    case up
    show ?thesis
    proof (cases out)
      case Nil
      show ?thesis
      proof (cases r)
        case True
        then show ?thesis using up Nil 2 by simp
      next
        case False
        then have "cleaned r (rev [''..''])" using cleaned_snoc_up [of "[]"] Nil "2.prems" by simp
        then show ?thesis using up Nil False 2 by simp
      qed
    next
      case (Cons d ds)
      show ?thesis
      proof (cases "d = ''..''")
        case True
        have "\<not> r" using "2.prems"(1) True Cons cleaned_no_root_up [of "rev out"]
          by (auto simp: real_comp_def)
        then have "cleaned r (rev (''..'' # out))"
          using cleaned_snoc_up [of "rev out"] "2.prems"(1) True Cons by simp
        then show ?thesis using up Cons True 2 by simp
      next
        case False
        then have "cleaned r (rev ds)"
          using "2.prems"(1) Cons cleaned_butlast [of r "rev ds" d] by simp
        then show ?thesis using up Cons False 2 by simp
      qed
    qed
  qed
qed simp

lemma path_comps_cleaned: "cleaned (rooted p) (path_comps p)"
  unfolding path_comps_def
  by (rule clean_loop_cleaned) (auto simp: cleaned_def split_on_pieces)

lemma cleaned_member:
  assumes "cleaned r cs" and "c \<in> set cs"
  shows "c = ''..'' \<or> real_comp c"
proof -
  from assms(1) obtain k ds where "cs = replicate k ''..'' @ ds" "\<forall>d\<in>set ds. real_comp d"
    unfolding cleaned_def by blast
  with assms(2) show ?thesis by (auto simp del: replicate.simps)
qed

lemma cleaned_no_slash: "cleaned r cs \<Longrightarrow> c \<in> set cs \<Longrightarrow> slash \<notin> set c"
  using cleaned_member by (fastforce simp: real_comp_def)

lemma cleaned_not_Nil: "cleaned r cs \<Longrightarrow> c \<in> set cs \<Longrightarrow> c \<noteq> []"
  using cleaned_member by (fastforce simp: real_comp_def)

lemma cleaned_from_real:
  assumes "cleaned r (c # cs)" and "c \<noteq> ''..''"
  shows "\<forall>d\<in>set cs. real_comp d"
proof -
  from assms(1) obtain k ds where eq: "c # cs = replicate k ''..'' @ ds" "\<forall>d\<in>set ds. real_comp d"
    by (auto simp: cleaned_def)
  with assms(2) have "k = 0" by (cases k) auto
  with eq show ?thesis by (metis append_Nil list.set_intros(2) replicate_0)
qed

section \<open>Joining real names onto a directory\<close>

lemma clean_loop_append:
  "clean_loop r out (as @ bs) = clean_loop r (rev (clean_loop r out as)) bs"
  by (induction r out as rule: clean_loop.induct) (auto split: list.splits)

lemma clean_loop_real: "\<forall>c\<in>set cs. real_comp c \<Longrightarrow> clean_loop r out cs = rev out @ cs"
  by (induction cs arbitrary: out) (auto simp: real_comp_def)

lemma real_comp_no_slash: "real_comp c \<Longrightarrow> slash \<notin> set c"
  by (simp add: real_comp_def)

lemma split_on_real_tail:
  assumes "\<forall>c\<in>set cs. real_comp c"
  shows "split_on slash (str_join [slash] (d # cs)) = split_on slash d @ cs"
  using assms
proof (induction cs arbitrary: d)
  case (Cons c cs)
  then have "split_on slash (str_join [slash] (c # cs)) = [c] @ cs"
    by (simp add: split_on_id real_comp_def)
  then show ?case by (simp add: split_on_append)
qed simp

lemma rooted_str_join: "d \<noteq> [] \<Longrightarrow> rooted (str_join [slash] (d # cs)) = rooted d"
  by (cases cs) (auto simp: rooted_def split: list.splits)

lemma not_rooted_str_join:
  assumes "e \<noteq> []" and "slash \<notin> set e"
  shows "\<not> rooted (str_join [slash] (e # es))"
proof -
  have "\<not> rooted e" using assms(2) by (auto simp: rooted_def split: list.splits)
  with assms(1) show ?thesis using rooted_str_join [of e es] by simp
qed

lemma path_comps_Nil [simp]: "path_comps [] = []"
  by (simp add: path_comps_def)

lemma join_real:
  assumes "\<forall>c\<in>set cs. real_comp c" and "cs \<noteq> []"
  shows "join (d # cs) = render (rooted d) (path_comps d @ cs)"
proof (cases "d = []")
  case True
  from assms obtain e es where cs: "cs = e # es" "real_comp e" by (cases cs) auto
  have "\<not> rooted (str_join [slash] cs)"
    unfolding cs(1) using cs(2) by (intro not_rooted_str_join) (auto simp: real_comp_def)
  moreover have "split_on slash (str_join [slash] cs) = cs"
    using assms by (intro split_on_str_join) (auto simp: real_comp_def)
  moreover have "e \<noteq> []" using cs by (simp add: real_comp_def)
  ultimately show ?thesis
    using True cs assms(1) clean_loop_real [of cs False "[]"]
    by (simp add: clean_def path_comps_def rooted_def)
next
  case False
  then show ?thesis
    using assms
    by (simp add: clean_def path_comps_def rooted_str_join split_on_real_tail clean_loop_append
        clean_loop_real del: str_join.simps)
qed

lemma render_inject:
  assumes "render r cs = render r ds" and "cs \<noteq> []" and "ds \<noteq> []"
    and "\<forall>c\<in>set cs. slash \<notin> set c" and "\<forall>d\<in>set ds. slash \<notin> set d"
  shows "cs = ds"
proof -
  from assms(1-3) have "str_join [slash] cs = str_join [slash] ds"
    by (auto simp: render_def split: if_splits)
  then have "split_on slash (str_join [slash] cs) = split_on slash (str_join [slash] ds)" by simp
  with assms(2-5) show ?thesis by (simp add: split_on_str_join)
qed

lemma join_real_inject:
  assumes "join (d # as) = join (d # bs)" and "as \<noteq> []" and "bs \<noteq> []"
    and "\<forall>c\<in>set as. real_comp c" and "\<forall>c\<in>set bs. real_comp c"
  shows "as = bs"
proof -
  have ns: "\<forall>c\<in>set (path_comps d @ cs). slash \<notin> set c" if "\<forall>c\<in>set cs. real_comp c" for cs
    using that path_comps_cleaned [of d] by (auto simp: real_comp_def dest: cleaned_no_slash)
  from assms have "render (rooted d) (path_comps d @ as) = render (rooted d) (path_comps d @ bs)"
    by (simp add: join_real del: join.simps)
  then have "path_comps d @ as = path_comps d @ bs"
    by (rule render_inject) (use assms ns in auto)
  then show ?thesis by simp
qed

lemma path_comps_render:
  assumes "cleaned r cs" and "cs \<noteq> []"
  shows "path_comps (render r cs) = cs \<and> rooted (render r cs) = r"
proof -
  from assms(1) obtain k ds where cs: "cs = replicate k ''..'' @ ds" "r \<longrightarrow> k = 0"
    "\<forall>d\<in>set ds. real_comp d"
    by (auto simp: cleaned_def)
  have ns: "\<forall>c\<in>set cs. slash \<notin> set c" using assms(1) cleaned_no_slash by blast
  have up: "clean_loop False (replicate n ''..'') (replicate k ''..'') = replicate (n + k) ''..''" for n
  proof (induction k arbitrary: n)
    case (Suc k)
    from Suc [of "Suc n"] show ?case by (cases n) auto
  qed simp
  have loop: "clean_loop r [] cs = cs"
  proof (cases r)
    case True
    then show ?thesis using cs clean_loop_real [of ds r "[]"] by simp
  next
    case False
    then show ?thesis
      using cs up [of 0] clean_loop_real [of ds False "replicate k ''..''"]
      by (simp add: clean_loop_append)
  qed
  show ?thesis
  proof (cases r)
    case True
    have "split_on slash (slash # str_join [slash] cs) = [] # cs"
      using assms(2) ns by (simp add: split_on_str_join)
    then show ?thesis using True loop by (simp add: render_def path_comps_def rooted_def)
  next
    case False
    obtain e es where e: "cs = e # es" using assms(2) by (cases cs) auto
    with ns assms(1) have "e \<noteq> []" and "slash \<notin> set e" by (auto dest: cleaned_not_Nil)
    then have "\<not> rooted (str_join [slash] cs)"
      unfolding e by (rule not_rooted_str_join)
    then show ?thesis
      using False loop assms(2) ns by (simp add: render_def path_comps_def split_on_str_join)
  qed
qed

lemma cleaned_append_real: "cleaned r cs \<Longrightarrow> \<forall>d\<in>set ds. real_comp d \<Longrightarrow> cleaned r (cs @ ds)"
  by (induction ds rule: rev_induct) (simp_all add: cleaned_snoc_real flip: append_assoc)

lemma path_comps_join:
  assumes "\<forall>c\<in>set cs. real_comp c" and "cs \<noteq> []"
  shows "path_comps (join (wd # cs)) = path_comps wd @ cs" and "rooted (join (wd # cs)) = rooted wd"
proof -
  have "cleaned (rooted wd) (path_comps wd @ cs)"
    by (rule cleaned_append_real [OF path_comps_cleaned assms(1)])
  then show "path_comps (join (wd # cs)) = path_comps wd @ cs" and "rooted (join (wd # cs)) = rooted wd"
    using path_comps_render [of "rooted wd" "path_comps wd @ cs"] assms
    by (simp_all add: join_real del: join.simps)
qed

lemma clean_join: "\<forall>c\<in>set cs. real_comp c \<Longrightarrow> cs \<noteq> [] \<Longrightarrow> clean (join (wd # cs)) = join (wd # cs)"
  using path_comps_join [of cs wd] join_real [of cs wd] by (simp add: clean_def del: join.simps)

lemma base_name_real:
  assumes "real_comp c"
  shows "base_name (render r (cs @ [c])) = c"
proof -
  have ne: "c \<noteq> []" and ns: "slash \<notin> set c" using assms by (auto simp: real_comp_def)
  define p where "p = render r (cs @ [c])"
  obtain a where p: "p = a @ c" and a: "a = [] \<or> last a = slash"
  proof (cases "cs = []")
    case True
    then show ?thesis using that [of "if r then [slash] else []"]
      by (auto simp: p_def render_def)
  next
    case False
    then have "str_join [slash] (cs @ [c]) = (str_join [slash] cs @ [slash]) @ c" by (simp add: str_join_snoc)
    then show ?thesis
      using that [of "(if r then [slash] else []) @ str_join [slash] cs @ [slash]"]
      by (auto simp: p_def render_def)
  qed
  have "hd (rev c) \<noteq> slash" using ne ns by (metis hd_in_set rev_is_Nil_conv set_rev)
  then have q: "dropWhile (\<lambda>x. x = slash) (rev p) = rev p"
    using p ne by (cases "rev c") auto
  have "last (split_on slash (a @ c)) = c"
  proof (cases "a = []")
    case True
    then show ?thesis using ns by (simp add: split_on_id)
  next
    case False
    with a obtain b where "a = b @ [slash]" by (metis append_butlast_last_id)
    then show ?thesis using ns by (simp add: split_on_append split_on_id)
  qed
  then show ?thesis using p q ne unfolding p_def [symmetric]
    by (simp add: base_name_def Let_def)
qed

text \<open>Below a clean directory that is not the root, \<^verbatim>\<open>Join\<close> puts a slash between.\<close>

lemma join_plain:
  assumes "clean d = d" and "rooted d" and "path_comps d \<noteq> []" and "real_comp c"
  shows "join [d, c] = d @ [slash] @ c"
proof -
  have "d = slash # str_join [slash] (path_comps d)" using assms(1,2) by (simp add: clean_def render_def)
  moreover have "join [d, c] = slash # str_join [slash] (path_comps d @ [c])"
    using join_real [of "[c]" d] assms(2,4) by (simp add: render_def del: join.simps)
  ultimately show ?thesis using assms(3) by (simp add: str_join_snoc del: join.simps)
qed

lemma base_name_join: "real_comp c \<Longrightarrow> base_name (join [d, c]) = c"
  using join_real [of "[c]" d] base_name_real [of c] by (simp del: join.simps)

end
