(* ===== verification/Filesystem.thy ===== *)
theory Filesystem
  imports Bundle Filepath "HOL-Library.AList" "HOL-Library.List_Lexorder" "HOL-Library.Char_ord"
begin

text \<open>
  The operating-system calls of the bundle handlers, as functions on an explicit world. A world
  holds the files, a counter of the calls made so far, and the things the program does not
  control: which call fails and with which message (\<open>fault\<close>), what the clock shows at a call
  (\<open>clock\<close>) and how large things are (\<open>enc\<close> gives the bytes a document is encoded to, \<open>dirSize\<close> what
  the file system reports for a directory). Every theorem quantifies over worlds,
  hence over every pattern of I/O failures. Files are an association list, so that the directory
  listing is executable; the contents are documents, and a write that fails half way leaves a
  \<^verbatim>\<open>Torn\<close> document that no reader can parse.
\<close>

section \<open>Documents and files\<close>

record node_report =
  nr_status :: Status
  nr_err :: string

record report_doc =
  rep_id :: string
  rep_nodes :: "(string \<times> node_report) list"

datatype blob =
    Bytes string
  | StateDoc bundle_doc
  | ReportDoc report_doc
  | Zip "(string \<times> blob) list"
  | Torn blob

datatype inode = Dir | File blob

record world =
  files :: "(string \<times> inode) list"
  calls :: nat
  fault :: "nat \<Rightarrow> string option"
  clock :: "nat \<Rightarrow> time"
  enc :: "blob \<Rightarrow> string"
  dirSize :: int

fun encode :: "world \<Rightarrow> blob \<Rightarrow> string" where
  "encode w (Bytes s) = s"
| "encode w b = enc w b"

fun inode_size :: "world \<Rightarrow> inode \<Rightarrow> int" where
  "inode_size w Dir = dirSize w"
| "inode_size w (File b) = int (length (encode w b))"

definition fs_get :: "world \<Rightarrow> string \<Rightarrow> inode option" where
  "fs_get w p = map_of (files w) p"

definition fs_put :: "string \<Rightarrow> inode \<Rightarrow> world \<Rightarrow> world" where
  "fs_put p n w = w\<lparr>files := AList.update p n (files w)\<rparr>"

definition fs_del :: "string \<Rightarrow> world \<Rightarrow> world" where
  "fs_del p w = w\<lparr>files := AList.delete p (files w)\<rparr>"

definition tick :: "world \<Rightarrow> world" where
  "tick w = w\<lparr>calls := Suc (calls w)\<rparr>"

definition failing :: "world \<Rightarrow> string option" where
  "failing w = fault w (calls w)"

definition parent :: "string \<Rightarrow> string" where
  "parent p = render (rooted p) (butlast (path_comps p))"

definition is_dir :: "world \<Rightarrow> string \<Rightarrow> bool" where
  "is_dir w p = (path_comps p = [] \<or> fs_get w p = Some Dir)"

section \<open>System calls\<close>

text \<open>\<^verbatim>\<open>time.Now\<close>.\<close>

definition sys_now :: "world \<Rightarrow> time \<times> world" where
  "sys_now w = (clock w (calls w), tick w)"

text \<open>\<^verbatim>\<open>os.Stat\<close>: callers tell a missing file from every other failure.\<close>

datatype stat_result = StatOk inode | StatNotExist | StatErr string

definition no_such_file :: "string \<Rightarrow> string \<Rightarrow> string" where
  "no_such_file op p = msg [op, '' '', p, '': no such file or directory'']"

definition sys_stat :: "string \<Rightarrow> world \<Rightarrow> stat_result \<times> world" where
  "sys_stat p w =
     ((case failing w of
         Some e \<Rightarrow> StatErr e
       | None \<Rightarrow> (case fs_get w p of None \<Rightarrow> StatNotExist | Some n \<Rightarrow> StatOk n)), tick w)"

text \<open>\<^verbatim>\<open>os.MkdirAll\<close>: every missing directory on the way is created.\<close>

definition ancestors :: "string \<Rightarrow> string list" where
  "ancestors p = map (\<lambda>n. render (rooted p) (take (Suc n) (path_comps p))) [0..<length (path_comps p)]"

fun make_dirs :: "string list \<Rightarrow> world \<Rightarrow> world" where
  "make_dirs [] w = w"
| "make_dirs (d # ds) w = make_dirs ds (case fs_get w d of None \<Rightarrow> fs_put d Dir w | Some _ \<Rightarrow> w)"

definition is_file :: "world \<Rightarrow> string \<Rightarrow> bool" where
  "is_file w p = (case fs_get w p of Some (File _) \<Rightarrow> True | _ \<Rightarrow> False)"

definition sys_mkdir_all :: "string \<Rightarrow> world \<Rightarrow> string option \<times> world" where
  "sys_mkdir_all p w =
     (case failing w of
        Some e \<Rightarrow> (Some e, tick w)
      | None \<Rightarrow>
          (case filter (is_file w) (ancestors p) of
             a # _ \<Rightarrow> (Some (msg [''mkdir '', a, '': not a directory'']), tick w)
           | [] \<Rightarrow> (None, make_dirs (ancestors p) (tick w))))"

text \<open>Opening a file for writing (\<^verbatim>\<open>os.Create\<close>): the file is created or truncated.\<close>

definition sys_create :: "string \<Rightarrow> world \<Rightarrow> string option \<times> world" where
  "sys_create p w =
     (case failing w of
        Some e \<Rightarrow> (Some e, tick w)
      | None \<Rightarrow>
          if fs_get w p = Some Dir then (Some (msg [''open '', p, '': is a directory'']), tick w)
          else if \<not> is_dir w (parent p) then (Some (no_such_file ''open'' p), tick w)
          else (None, fs_put p (File (Bytes [])) (tick w)))"

text \<open>Writing a document to an open file: a failure leaves an incomplete document.\<close>

definition sys_write :: "string \<Rightarrow> blob \<Rightarrow> world \<Rightarrow> string option \<times> world" where
  "sys_write p b w =
     (case failing w of
        Some e \<Rightarrow> (Some e, fs_put p (File (Torn b)) (tick w))
      | None \<Rightarrow> (None, fs_put p (File b) (tick w)))"

text \<open>\<^verbatim>\<open>ioutil.WriteFile\<close>: open with truncation, then write.\<close>

definition sys_write_file :: "string \<Rightarrow> blob \<Rightarrow> world \<Rightarrow> string option \<times> world" where
  "sys_write_file p b w =
     (case sys_create p w of
        (Some e, w1) \<Rightarrow> (Some e, w1)
      | (None, w1) \<Rightarrow> sys_write p b w1)"

text \<open>\<^verbatim>\<open>ioutil.ReadFile\<close>.\<close>

definition sys_read_file :: "string \<Rightarrow> world \<Rightarrow> blob result \<times> world" where
  "sys_read_file p w =
     ((case failing w of
         Some e \<Rightarrow> Inl e
       | None \<Rightarrow>
           (case fs_get w p of
              None \<Rightarrow> Inl (no_such_file ''open'' p)
            | Some Dir \<Rightarrow> Inl (msg [''read '', p, '': is a directory''])
            | Some (File b) \<Rightarrow> Inr b)), tick w)"

text \<open>\<^verbatim>\<open>ioutil.ReadDir\<close>: the entries of a directory, sorted by name.\<close>

definition dir_entries :: "string \<Rightarrow> world \<Rightarrow> (string \<times> inode) list" where
  "dir_entries d w =
     sort_key fst (map (\<lambda>(p, n). (base_name p, n))
       (filter (\<lambda>(p, n). path_comps p \<noteq> [] \<and> parent p = clean d) (files w)))"

definition sys_read_dir :: "string \<Rightarrow> world \<Rightarrow> (string \<times> inode) list result \<times> world" where
  "sys_read_dir d w =
     ((case failing w of
         Some e \<Rightarrow> Inl e
       | None \<Rightarrow> if is_dir w (clean d) then Inr (dir_entries d w) else Inl (no_such_file ''open'' d)),
      tick w)"

text \<open>\<^verbatim>\<open>os.Remove\<close>: a directory goes only when it is empty.\<close>

definition sys_remove :: "string \<Rightarrow> world \<Rightarrow> string option \<times> world" where
  "sys_remove p w =
     (case failing w of
        Some e \<Rightarrow> (Some e, tick w)
      | None \<Rightarrow>
          (case fs_get w p of
             None \<Rightarrow> (Some (no_such_file ''remove'' p), tick w)
           | Some n \<Rightarrow>
               if n = Dir \<and> dir_entries p w \<noteq> []
               then (Some (msg [''remove '', p, '': directory not empty'']), tick w)
               else (None, fs_del p (tick w))))"

section \<open>What the calls do to the files\<close>

lemma fs_get_put [simp]: "fs_get (fs_put p n w) q = (if q = p then Some n else fs_get w q)"
  by (simp add: fs_get_def fs_put_def update_conv')

lemma fs_get_del [simp]: "fs_get (fs_del p w) q = (if q = p then None else fs_get w q)"
  by (simp add: fs_get_def fs_del_def delete_conv')

lemma fs_get_tick [simp]: "fs_get (tick w) = fs_get w"
  by (simp add: fs_get_def tick_def fun_eq_iff)

lemma is_dir_tick [simp]: "is_dir (tick w) = is_dir w"
  by (simp add: is_dir_def fun_eq_iff)

text \<open>The world's oracles are constants: no call changes them.\<close>

lemma oracle_simps [simp]:
  "fault (tick w) = fault w" "fault (fs_put p n w) = fault w" "fault (fs_del p w) = fault w"
  "clock (tick w) = clock w" "clock (fs_put p n w) = clock w" "clock (fs_del p w) = clock w"
  "enc (tick w) = enc w" "enc (fs_put p n w) = enc w" "enc (fs_del p w) = enc w"
  "dirSize (tick w) = dirSize w" "dirSize (fs_put p n w) = dirSize w" "dirSize (fs_del p w) = dirSize w"
  "calls (tick w) = Suc (calls w)" "calls (fs_put p n w) = calls w" "calls (fs_del p w) = calls w"
  by (simp_all add: tick_def fs_put_def fs_del_def)

lemma encode_oracle: "enc w' = enc w \<Longrightarrow> encode w' b = encode w b"
  by (cases b) simp_all

lemma inode_size_tick [simp]: "inode_size (tick w) n = inode_size w n"
  by (cases n) (simp_all add: encode_oracle [of "tick w" w])

lemma make_dirs_get:
  "fs_get (make_dirs ds w) q = (if q \<in> set ds \<and> fs_get w q = None then Some Dir else fs_get w q)"
  by (induction ds arbitrary: w) (auto split: option.splits)

lemma make_dirs_oracle [simp]:
  "fault (make_dirs ds w) = fault w" "clock (make_dirs ds w) = clock w"
  "enc (make_dirs ds w) = enc w" "dirSize (make_dirs ds w) = dirSize w"
  "calls (make_dirs ds w) = calls w"
  by (induction ds arbitrary: w) (auto split: option.splits)

lemma last_ancestor: "path_comps p \<noteq> [] \<Longrightarrow> clean p \<in> set (ancestors p)"
  by (auto simp: ancestors_def clean_def image_iff intro!: bexI [where x = "length (path_comps p) - 1"])

text \<open>A successful call of \<^verbatim>\<open>MkdirAll\<close> only adds directories, and the path is one of them.\<close>

lemma mkdir_all_ok:
  assumes "sys_mkdir_all p w = (None, w')" and "path_comps p \<noteq> []"
  shows "fs_get w' (clean p) = Some Dir"
    and "\<And>q n. fs_get w q = Some n \<Longrightarrow> fs_get w' q = Some n"
    and "\<And>b. fs_get w' q = Some (File b) \<Longrightarrow> fs_get w q = Some (File b)"
proof -
  from assms(1) have w': "w' = make_dirs (ancestors p) (tick w)"
    and nf: "\<forall>a\<in>set (ancestors p). \<not> is_file w a"
    by (auto simp: sys_mkdir_all_def filter_empty_conv split: option.splits list.splits)
  have "\<not> is_file w (clean p)" using nf last_ancestor [OF assms(2)] by blast
  then show "fs_get w' (clean p) = Some Dir"
    using last_ancestor [OF assms(2)]
    by (auto simp: w' make_dirs_get is_file_def split: option.splits inode.splits)
  show "\<And>q n. fs_get w q = Some n \<Longrightarrow> fs_get w' q = Some n"
    by (simp add: w' make_dirs_get)
  show "\<And>b. fs_get w' q = Some (File b) \<Longrightarrow> fs_get w q = Some (File b)"
    by (auto simp: w' make_dirs_get split: if_splits)
qed

lemma parent_join:
  "\<forall>c\<in>set cs. real_comp c \<Longrightarrow> cs \<noteq> [] \<Longrightarrow> real_comp c \<Longrightarrow> parent (join (wd # cs @ [c])) = join (wd # cs)"
  using path_comps_join [of "cs @ [c]" wd]
  by (simp add: parent_def join_real butlast_append del: join.simps)

section \<open>Frames\<close>

text \<open>
  A call touches one path only. \<open>same_except ps w w'\<close> says that the two worlds agree on the oracles
  and on every path outside \<open>ps\<close>; it composes, so the frame of a handler is the union of the frames
  of its calls.
\<close>

definition same_except :: "string set \<Rightarrow> world \<Rightarrow> world \<Rightarrow> bool" where
  "same_except ps w w' =
     ((\<forall>q. q \<notin> ps \<longrightarrow> fs_get w' q = fs_get w q) \<and>
      fault w' = fault w \<and> clock w' = clock w \<and> enc w' = enc w \<and> dirSize w' = dirSize w \<and>
      calls w \<le> calls w')"

lemma same_except_refl [simp, intro]: "same_except ps w w"
  by (simp add: same_except_def)

lemma same_except_trans: "same_except ps w w1 \<Longrightarrow> same_except qs w1 w2 \<Longrightarrow> same_except (ps \<union> qs) w w2"
  by (auto simp: same_except_def)

lemma same_except_mono: "same_except ps w w' \<Longrightarrow> ps \<subseteq> qs \<Longrightarrow> same_except qs w w'"
  by (auto simp: same_except_def)

lemma same_except_tick [simp]: "same_except ps w (tick w)"
  by (simp add: same_except_def)

lemma same_except_tick_right [simp]: "same_except ps w w' \<Longrightarrow> same_except ps w (tick w')"
  by (simp add: same_except_def)

lemma same_except_tick_left: "same_except ps (tick w) w' \<Longrightarrow> same_except ps w w'"
  by (auto simp: same_except_def)

lemma same_except_chain: "same_except ps w w1 \<Longrightarrow> same_except ps w1 w2 \<Longrightarrow> same_except ps w w2"
  using same_except_trans [of ps w w1 ps w2] by simp

lemma same_except_get: "same_except ps w w' \<Longrightarrow> q \<notin> ps \<Longrightarrow> fs_get w' q = fs_get w q"
  by (simp add: same_except_def)

lemma frame_calls:
  "sys_now w = (t, w') \<Longrightarrow> same_except {} w w'"
  "sys_stat p w = (s, w') \<Longrightarrow> same_except {} w w'"
  "sys_read_file p w = (b, w') \<Longrightarrow> same_except {} w w'"
  "sys_read_dir p w = (es, w') \<Longrightarrow> same_except {} w w'"
  "sys_create p w = (r, w') \<Longrightarrow> same_except {p} w w'"
  "sys_write p c w = (r, w') \<Longrightarrow> same_except {p} w w'"
  "sys_remove p w = (r, w') \<Longrightarrow> same_except {p} w w'"
  by (auto simp: sys_now_def sys_stat_def sys_read_file_def sys_read_dir_def sys_create_def
      sys_write_def sys_remove_def same_except_def split: option.splits if_splits)

lemma frame_write_file: "sys_write_file p c w = (r, w') \<Longrightarrow> same_except {p} w w'"
  unfolding sys_write_file_def
  using same_except_trans [of "{p}" w _ "{p}" w']
  by (auto split: prod.splits option.splits dest: frame_calls(5,6))

lemma read_only_calls:
  "sys_stat p w = (s, w') \<Longrightarrow> w' = tick w"
  "sys_read_file p w = (b, w') \<Longrightarrow> w' = tick w"
  "sys_read_dir p w = (es, w') \<Longrightarrow> w' = tick w"
  "sys_now w = (t, w') \<Longrightarrow> w' = tick w"
  by (auto simp: sys_stat_def sys_read_file_def sys_read_dir_def sys_now_def)

lemma write_file_ok: "sys_write_file p b w = (None, w') \<Longrightarrow> fs_get w' p = Some (File b)"
  by (auto simp: sys_write_file_def sys_write_def split: prod.splits option.splits)

lemma create_ok: "sys_create p w = (None, w') \<Longrightarrow> fs_get w' p = Some (File (Bytes []))"
  by (auto simp: sys_create_def split: option.splits if_splits)

lemma remove_error: "sys_remove p w = (Some e, w') \<Longrightarrow> w' = tick w"
  by (auto simp: sys_remove_def split: option.splits if_splits)

lemma remove_ok: "sys_remove p w = (None, w') \<Longrightarrow> fs_get w' p = None"
  by (auto simp: sys_remove_def split: option.splits if_splits)

end
