(* ===== verification/Http.thy ===== *)
theory Http
  imports Filesystem
begin

text \<open>
  HTTP as the handlers and clients see it: what a handler writes to its \<^verbatim>\<open>ResponseWriter\<close>, what a
  client call of \<^verbatim>\<open>net/http\<close> returns, and the stream of a response body or an opened file. A handler
  that dereferences a nil pointer panics; the server of \<^verbatim>\<open>net/http\<close> recovers and drops the connection,
  so a panic is an outcome of its own.
\<close>

section \<open>Streams\<close>

text \<open>An \<^verbatim>\<open>io.ReadCloser\<close> read to its end: the bytes it yields and the read error, if any.\<close>

type_synonym stream = "string \<times> string option"

definition stream_of :: "string \<Rightarrow> stream" where
  "stream_of s = (s, None)"

section \<open>Responses of the bundle API\<close>

datatype body =
    NoBody
  | JsonBundle bundle_doc
  | JsonBundles "bundle_doc list"
  | JsonError int string
  | PlainBody string
  | FileBody blob

record response =
  rcode :: int
  rheaders :: "(string \<times> string) list"
  rbody :: body

datatype outcome = Respond response | Panic string

definition respond :: "int \<Rightarrow> body \<Rightarrow> outcome" where
  "respond c b = Respond \<lparr>rcode = c, rheaders = [], rbody = b\<rparr>"

definition http_NotFound :: outcome where
  "http_NotFound = respond StatusNotFound (PlainBody (''404 page not found'' @ [CHR 0x0A]))"

definition nil_deref :: string where
  "nil_deref = ''invalid memory address or nil pointer dereference''"

text \<open>\<^verbatim>\<open>http.ServeFile\<close> on a path that is not a directory: the handler's headers are kept.\<close>

definition serve_file :: "(string \<times> string) list \<Rightarrow> string \<Rightarrow> world \<Rightarrow> outcome \<times> world" where
  "serve_file hs p w =
     ((case failing w of
         Some e \<Rightarrow> Respond \<lparr>rcode = StatusInternalServerError, rheaders = hs,
                    rbody = PlainBody (''500 Internal Server Error'' @ [CHR 0x0A])\<rparr>
       | None \<Rightarrow>
           (case fs_get w p of
              Some (File b) \<Rightarrow> Respond \<lparr>rcode = StatusOK, rheaders = hs, rbody = FileBody b\<rparr>
            | _ \<Rightarrow> Respond \<lparr>rcode = StatusNotFound, rheaders = hs, rbody = PlainBody (''404 page not found'' @ [CHR 0x0A])\<rparr>)),
      tick w)"

section \<open>Client calls\<close>

record http_resp =
  h_status :: int
  h_headers :: "(string \<times> string) list"
  h_body :: stream

fun outcome_code :: "outcome \<Rightarrow> int option" where
  "outcome_code (Respond r) = Some (rcode r)"
| "outcome_code (Panic e) = None"

lemma outcome_code_respond [simp]: "outcome_code (respond c b) = Some c"
  by (simp add: respond_def)

lemma outcome_code_NotFound [simp]: "outcome_code http_NotFound = Some 404"
  by (simp add: http_NotFound_def)

lemma respond_inject [simp]: "respond c b = respond c' b' \<longleftrightarrow> c = c' \<and> b = b'"
  by (simp add: respond_def)

lemma respond_not_Panic [simp]: "respond c b \<noteq> Panic e" "http_NotFound \<noteq> Panic e"
  by (simp_all add: respond_def http_NotFound_def)

lemma serve_file_frame: "serve_file hs p w = (r, w') \<Longrightarrow> w' = tick w"
  by (simp add: serve_file_def)

lemma serve_file_no_panic: "serve_file hs p w \<noteq> (Panic e, w')"
  by (auto simp: serve_file_def split: option.splits inode.splits)

end
