(* ===== verification/Collector.thy ===== *)
theory Collector
  imports Http
begin

text \<open>
  The data sources of a node bundle: the four implementations of \<^verbatim>\<open>collector.Collector\<close>
  (\<^verbatim>\<open>collector/collector.go\<close>), the context-aware reader of \<^verbatim>\<open>io/readcloser.go\<close> and the journal
  configuration of \<^verbatim>\<open>units/helpers_linux.go\<close>. What a command prints, what a URL answers, what a file or the
  journal holds is the environment's choice, a record of functions. A command collector without a
  command indexes an empty slice, which panics.
\<close>

section \<open>Readers bound to a context\<close>

text \<open>
  One \<^verbatim>\<open>Read\<close> of \<^verbatim>\<open>readerWithContext\<close>: \<open>before\<close> and \<open>after\<close> are what \<^verbatim>\<open>ctx.Err()\<close> gives around the
  inner read, whose result is the bytes read and an error.
\<close>

definition ctx_Read :: "string option \<Rightarrow> stream \<Rightarrow> string option \<Rightarrow> stream" where
  "ctx_Read before inner after =
     (case before of
        Some e \<Rightarrow> ([], Some e)
      | None \<Rightarrow>
          (case inner of
             (n, Some e) \<Rightarrow> (n, Some e)
           | (n, None) \<Rightarrow> (n, after)))"

text \<open>
  Reading to the end: the inner reader is the list of its reads (its end is the end of the list), and
  the context's state around each of them comes with it. A reader stops at its first error.
\<close>

fun ctx_read_all :: "(string option \<times> stream \<times> string option) list \<Rightarrow> stream" where
  "ctx_read_all [] = ([], None)"
| "ctx_read_all ((before, inner, after) # rs) =
     (case ctx_Read before inner after of
        (n, Some e) \<Rightarrow> (n, Some e)
      | (n, None) \<Rightarrow> (case ctx_read_all rs of (m, e) \<Rightarrow> (n @ m, e)))"

fun plain_read_all :: "stream list \<Rightarrow> stream" where
  "plain_read_all [] = ([], None)"
| "plain_read_all ((n, Some e) # rs) = (n, Some e)"
| "plain_read_all ((n, None) # rs) = (case plain_read_all rs of (m, e) \<Rightarrow> (n @ m, e))"

section \<open>Journal configuration\<close>

record JournalReaderConfig =
  Since :: int
  NumFromTail :: nat
  Matches :: "(string \<times> string) list"

definition readJournalOutput :: "string \<Rightarrow> int \<Rightarrow> nat \<Rightarrow> JournalReaderConfig" where
  "readJournalOutput u d n =
     \<lparr>Since = (if d > 0 then - d else d), NumFromTail = n, Matches = [(''_SYSTEMD_UNIT'', u)]\<rparr>"

definition ReadJournalOutputSince :: "string \<Rightarrow> int \<Rightarrow> JournalReaderConfig" where
  "ReadJournalOutputSince u duration = readJournalOutput u duration 0"

definition ReadJournalTail :: "string \<Rightarrow> nat \<Rightarrow> JournalReaderConfig" where
  "ReadJournalTail u numFromTail = readJournalOutput u 0 numFromTail"

section \<open>Collectors\<close>

text \<open>
  \<open>ce_command\<close> is \<^verbatim>\<open>CombinedOutput\<close> of a command, \<open>ce_journal\<close> opens a journal reader, \<open>ce_request\<close>
  is the error of \<^verbatim>\<open>http.NewRequest\<close> for a URL, \<open>ce_do\<close> is \<^verbatim>\<open>client.Do\<close> and \<open>ce_open\<close> opens a file,
  all under the context the collector runs in.
\<close>

record collect_env =
  ce_command :: "string \<Rightarrow> string list \<Rightarrow> string \<times> string option"
  ce_journal :: "JournalReaderConfig \<Rightarrow> stream result"
  ce_request :: "string \<Rightarrow> string option"
  ce_do :: "string \<Rightarrow> http_resp result"
  ce_open :: "string \<Rightarrow> (string option \<times> stream \<times> string option) list result"

datatype Collector =
    Cmd string bool "string list"
  | Systemd string bool string int
  | Endpoint string bool string
  | FileCollector string bool string

fun Name :: "Collector \<Rightarrow> string" where
  "Name (Cmd n opt c) = n"
| "Name (Systemd n opt u d) = n"
| "Name (Endpoint n opt url) = n"
| "Name (FileCollector n opt p) = n"

fun Optional :: "Collector \<Rightarrow> bool" where
  "Optional (Cmd n opt c) = opt"
| "Optional (Systemd n opt u d) = opt"
| "Optional (Endpoint n opt url) = opt"
| "Optional (FileCollector n opt p) = opt"

text \<open>The result of \<^verbatim>\<open>Collect\<close>: a reader and an error, both of which may be present (a failed command
  still has output), or a panic.\<close>

datatype collected = Collected "stream option" "string option" | CollectPanic string

definition cmd_Collect :: "collect_env \<Rightarrow> string list \<Rightarrow> collected" where
  "cmd_Collect env c =
     (case c of
        [] \<Rightarrow> CollectPanic ''index out of range''
      | prog # args \<Rightarrow> (case ce_command env prog args of (out, e) \<Rightarrow> Collected (Some (stream_of out)) e))"

definition systemd_Collect :: "collect_env \<Rightarrow> string \<Rightarrow> int \<Rightarrow> collected" where
  "systemd_Collect env u d =
     (case ce_journal env (ReadJournalOutputSince u d) of
        Inl e \<Rightarrow> Collected None (Some (msg [''could not read '', u, '' logs from journal: '', e]))
      | Inr rc \<Rightarrow> Collected (Some rc) None)"

definition endpoint_Collect :: "collect_env \<Rightarrow> string \<Rightarrow> collected" where
  "endpoint_Collect env url =
     (case ce_request env url of
        Some e \<Rightarrow> Collected None (Some (msg [''could not create a new HTTP request: '', e]))
      | None \<Rightarrow>
          (case ce_do env url of
             Inl e \<Rightarrow> Collected None (Some (msg [''could not fetch url '', url, '': '', e]))
           | Inr resp \<Rightarrow>
               if h_status resp \<noteq> StatusOK then
                 (let errMsg = msg [''unable to fetch '', url, ''. Return code '', itoa (h_status resp), ''.'']
                  in case h_body resp of
                       (b, Some e) \<Rightarrow> Collected None (Some (msg [errMsg, '' Could not read body: '', e]))
                     | (b, None) \<Rightarrow> Collected None (Some (msg [errMsg, '' Body: '', b])))
               else Collected (Some (h_body resp)) None))"

definition file_Collect :: "collect_env \<Rightarrow> string \<Rightarrow> string \<Rightarrow> collected" where
  "file_Collect env n path =
     (case ce_open env path of
        Inl e \<Rightarrow> Collected None (Some (msg [''could not open '', n, '': '', e]))
      | Inr reads \<Rightarrow> Collected (Some (ctx_read_all reads)) None)"

fun Collect :: "collect_env \<Rightarrow> Collector \<Rightarrow> collected" where
  "Collect env (Cmd n opt c) = cmd_Collect env c"
| "Collect env (Systemd n opt u d) = systemd_Collect env u d"
| "Collect env (Endpoint n opt url) = endpoint_Collect env url"
| "Collect env (FileCollector n opt p) = file_Collect env n p"

section \<open>Facts about the sources\<close>

lemma ctx_read_all_live:
  assumes "\<forall>(before, inner, after)\<in>set rs. before = None \<and> after = None"
  shows "ctx_read_all rs = plain_read_all (map (\<lambda>(before, inner, after). inner) rs)"
  using assms
proof (induction rs)
  case (Cons r rs)
  obtain b n e a where r: "r = (b, (n, e), a)" by (metis prod.exhaust)
  with Cons show ?case by (cases e) (auto simp: ctx_Read_def)
qed simp

lemma ctx_read_all_prefix:
  "prefix (fst (ctx_read_all rs)) (fst (plain_read_all (map (\<lambda>(before, inner, after). inner) rs)))"
proof (induction rs)
  case (Cons r rs)
  obtain b n e a where r: "r = (b, (n, e), a)" by (metis prod.exhaust)
  show ?case
  proof (cases "ctx_Read b (n, e) a")
    case (Pair m f)
    with r Cons show ?thesis
      by (cases e) (auto simp: ctx_Read_def split: option.splits prod.splits)
  qed
qed simp

text \<open>Only a command without words makes a collector panic.\<close>

lemma Collect_panic_iff: "(\<exists>e. Collect env c = CollectPanic e) \<longleftrightarrow> (\<exists>n opt. c = Cmd n opt [])"
  by (cases c)
    (auto simp: cmd_Collect_def systemd_Collect_def endpoint_Collect_def file_Collect_def Let_def
      split: list.splits prod.splits sum.splits option.splits)

text \<open>A collector that reports no error has a reader.\<close>

lemma Collect_no_error_reader: "Collect env c = Collected rc None \<Longrightarrow> rc \<noteq> None"
  by (cases c)
    (auto simp: cmd_Collect_def systemd_Collect_def endpoint_Collect_def file_Collect_def Let_def
      split: list.splits prod.splits sum.splits option.splits if_splits)

end
