(* ===== verification/Bundle_Handler.thy ===== *)
theory Bundle_Handler
  imports Collector
begin

text \<open>
  The node-level bundle API, \<^verbatim>\<open>api/rest/bundle_handler.go\<close>. A bundle is a directory of the work
  directory, named by its id, that holds \<^verbatim>\<open>state.json\<close> and \<^verbatim>\<open>file.zip\<close>. Each handler is a function of
  the handler's configuration, the request's id and the world; it returns what it answers and the new
  world, and \<^verbatim>\<open>Create\<close> also returns the bundle its two goroutines work on. \<^verbatim>\<open>collectAll\<close> is the first
  of them; the second is \<open>finish_job\<close>.
\<close>

section \<open>Names and paths\<close>

definition stateFileName :: string where "stateFileName = ''state.json''"
definition dataFileName :: string where "dataFileName = ''file.zip''"
definition summaryErrorsReportFileName :: string where
  "summaryErrorsReportFileName = ''summaryErrorsReport.txt''"

record BundleHandler =
  bh_workDir :: string
  bh_collectors :: "Collector list"

definition bundle_dir :: "string \<Rightarrow> string \<Rightarrow> string" where
  "bundle_dir wd i = join [wd, i]"

definition state_path :: "string \<Rightarrow> string \<Rightarrow> string" where
  "state_path wd i = join [wd, i, stateFileName]"

definition data_path :: "string \<Rightarrow> string \<Rightarrow> string" where
  "data_path wd i = join [wd, i, dataFileName]"

section \<open>State files\<close>

definition writeStateFile :: "BundleHandler \<Rightarrow> Bundle \<Rightarrow> world \<Rightarrow> bundle_doc \<times> string option \<times> world" where
  "writeStateFile h b w =
     (let newRawState = marshal_bundle b in
      case sys_write_file (state_path (bh_workDir h) (bID b)) (StateDoc newRawState) w of
        (e, w1) \<Rightarrow> (newRawState, e, w1))"

definition readStateFile :: "BundleHandler \<Rightarrow> Bundle \<Rightarrow> world \<Rightarrow> blob result \<times> world" where
  "readStateFile h b w = sys_read_file (state_path (bh_workDir h) (bID b)) w"

text \<open>What \<^verbatim>\<open>json.Unmarshal\<close> says about a file that holds no JSON object of a bundle.\<close>

fun json_error :: "blob \<Rightarrow> string" where
  "json_error (Bytes []) = ''unexpected end of JSON input''"
| "json_error (Torn b) = ''unexpected end of JSON input''"
| "json_error b = ''invalid character''"

fun unmarshal_state :: "blob \<Rightarrow> Bundle \<Rightarrow> string option \<times> Bundle" where
  "unmarshal_state (StateDoc d) b = unmarshal_bundle d b"
| "unmarshal_state c b = (Some (json_error c), b)"

definition getBundleState :: "BundleHandler \<Rightarrow> string \<Rightarrow> world \<Rightarrow> Bundle \<times> string option \<times> world" where
  "getBundleState h i w =
     (let bundle = zero_bundle\<lparr>bID := i, bStatus := Unknown\<rparr> in
      case readStateFile h bundle w of
        (Inl e, w1) \<Rightarrow> (bundle, Some (msg [''could not read state file for bundle '', i, '': '', e]), w1)
      | (Inr rawState, w1) \<Rightarrow>
          (case unmarshal_state rawState bundle of
             (Some e, b) \<Rightarrow> (b, Some (msg [''could not unmarshal state file '', i, '': '', e]), w1)
           | (None, b) \<Rightarrow>
               if bStatus b = Deleted \<or> bStatus b = Canceled \<or> bStatus b = Unknown \<or> bStatus b = Failed
               then (b, None, w1)
               else
                 (case sys_stat (data_path (bh_workDir h) i) w1 of
                    (StatNotExist, w2) \<Rightarrow>
                      (b\<lparr>bStatus := Unknown\<rparr>,
                       Some (msg [''could not stat data file '', i, '': '', no_such_file ''stat'' (data_path (bh_workDir h) i)]), w2)
                  | (StatErr e, w2) \<Rightarrow>
                      (b\<lparr>bStatus := Unknown\<rparr>, Some (msg [''could not stat data file '', i, '': '', e]), w2)
                  | (StatOk n, w2) \<Rightarrow> (b\<lparr>bSize := inode_size w2 n\<rparr>, None, w2))))"

text \<open>\<^verbatim>\<open>bundleExists\<close>: an error other than "does not exist" leaves the file info nil, and the
  call of \<^verbatim>\<open>IsDir\<close> panics (\<open>None\<close>).\<close>

definition bundleExists :: "string \<Rightarrow> string \<Rightarrow> world \<Rightarrow> bool option \<times> world" where
  "bundleExists wd i w =
     (case sys_stat (bundle_dir wd i) w of
        (StatNotExist, w1) \<Rightarrow> (Some False, w1)
      | (StatErr e, w1) \<Rightarrow> (None, w1)
      | (StatOk Dir, w1) \<Rightarrow> (Some True, w1)
      | (StatOk (File c), w1) \<Rightarrow> (Some False, w1))"

definition writeJSONError :: "int \<Rightarrow> string \<Rightarrow> outcome" where
  "writeJSONError c e = respond c (JsonError c e)"

definition initializeWorkDir :: "string \<Rightarrow> world \<Rightarrow> string option \<times> world" where
  "initializeWorkDir wd w =
     (case sys_mkdir_all wd w of
        (Some e, w1) \<Rightarrow> (Some (msg [''could not create workdir: '', e]), w1)
      | (None, w1) \<Rightarrow> (None, w1))"

definition NewBundleHandler :: "string \<Rightarrow> Collector list \<Rightarrow> world \<Rightarrow> BundleHandler result \<times> world" where
  "NewBundleHandler wd cs w =
     (case initializeWorkDir wd w of
        (Some e, w1) \<Rightarrow> (Inl e, w1)
      | (None, w1) \<Rightarrow> (Inr \<lparr>bh_workDir = wd, bh_collectors = cs\<rparr>, w1))"

section \<open>Collecting\<close>

type_synonym zip = "(string \<times> blob) list"

text \<open>The zip writer: \<^verbatim>\<open>Create\<close> opens an entry, \<^verbatim>\<open>io.Copy\<close> fills the last one.\<close>

definition zip_Create :: "string \<Rightarrow> zip \<Rightarrow> world \<Rightarrow> string option \<times> zip \<times> world" where
  "zip_Create n z w =
     (case failing w of
        Some e \<Rightarrow> (Some e, z, tick w)
      | None \<Rightarrow> (None, z @ [(n, Bytes [])], tick w))"

definition zip_Copy :: "stream \<Rightarrow> zip \<Rightarrow> world \<Rightarrow> string option \<times> zip \<times> world" where
  "zip_Copy s z w =
     (case failing w of
        Some e \<Rightarrow> (Some e, butlast z @ [(fst (last z), Torn (Bytes (fst s)))], tick w)
      | None \<Rightarrow> (snd s, butlast z @ [(fst (last z), Bytes (fst s))], tick w))"

definition collect :: "collect_env \<Rightarrow> Collector \<Rightarrow> zip \<Rightarrow> world \<Rightarrow> string + string option \<times> zip \<times> world" where
  "collect env c z w =
     (case Collect env c of
        CollectPanic p \<Rightarrow> Inl p
      | Collected rc err \<Rightarrow>
          if err \<noteq> None \<and> \<not> Optional c then
            Inr (Some (msg [''could not collect '', Name c, '': '', the err]), z, w)
          else
            (let rc1 = (case err of Some e \<Rightarrow> stream_of e | None \<Rightarrow> the rc) in
             case zip_Create (Name c) z w of
               (Some e, z1, w1) \<Rightarrow>
                 Inr (Some (msg [''could not create a '', Name c, '' in the zip: '', e]), z1, w1)
             | (None, z1, w1) \<Rightarrow>
                 (case zip_Copy rc1 z1 w1 of
                    (Some e, z2, w2) \<Rightarrow>
                      Inr (Some (msg [''could not copy '', Name c, '' data to zip: '', e]), z2, w2)
                  | (None, z2, w2) \<Rightarrow> Inr (None, z2, w2))))"

text \<open>The loop of \<^verbatim>\<open>collectAll\<close>: \<open>ctx i\<close> is \<^verbatim>\<open>ctx.Err()\<close> before the \<open>i\<close>-th collector.\<close>

fun collect_loop ::
  "collect_env \<Rightarrow> (nat \<Rightarrow> string option) \<Rightarrow> nat \<Rightarrow> Collector list \<Rightarrow> string list \<Rightarrow> zip \<Rightarrow> world \<Rightarrow>
     string + string list \<times> zip \<times> world" where
  "collect_loop env ctx i [] errs z w = Inr (errs, z, w)"
| "collect_loop env ctx i (c # cs) errs z w =
     (case ctx i of
        Some e \<Rightarrow> Inr (errs @ [e], z, w)
      | None \<Rightarrow>
          (case collect env c z w of
             Inl p \<Rightarrow> Inl p
           | Inr (err, z1, w1) \<Rightarrow>
               collect_loop env ctx (Suc i) cs
                 (case err of Some e \<Rightarrow> if Optional c then errs else errs @ [e] | None \<Rightarrow> errs) z1 w1))"

text \<open>The report of the collection errors, appended when there are any.\<close>

definition add_summary :: "string list \<Rightarrow> zip \<Rightarrow> world \<Rightarrow> string list \<times> zip \<times> world" where
  "add_summary errs z w =
     (if errs = [] then (errs, z, w)
      else
        (case zip_Create summaryErrorsReportFileName z w of
           (Some e, z1, w1) \<Rightarrow> (errs @ [e], z1, w1)
         | (None, z1, w1) \<Rightarrow>
             (case zip_Copy (stream_of (str_join [CHR 0x0A] errs)) z1 w1 of
                (Some e, z2, w2) \<Rightarrow> (errs @ [e], z2, w2)
              | (None, z2, w2) \<Rightarrow> (errs, z2, w2))))"

text \<open>Closing the zip writer and then the data file. The archive is complete only when the zip
  writer closes; a file that was removed meanwhile is not created again.\<close>

definition flush_zip :: "string \<Rightarrow> blob \<Rightarrow> world \<Rightarrow> world" where
  "flush_zip p b w = (if is_file w p then fs_put p (File b) w else w)"

definition close_all :: "string \<Rightarrow> string list \<Rightarrow> zip \<Rightarrow> world \<Rightarrow> string list \<times> world" where
  "close_all p errs z w =
     (let (errs1, w1) = (case failing w of
            Some e \<Rightarrow> (errs @ [e], flush_zip p (Torn (Zip z)) (tick w))
          | None \<Rightarrow> (errs, flush_zip p (Zip z) (tick w)))
      in case failing w1 of
           Some e \<Rightarrow> (errs1 @ [e], tick w1)
         | None \<Rightarrow> (errs1, tick w1))"

definition collectAll ::
  "collect_env \<Rightarrow> (nat \<Rightarrow> string option) \<Rightarrow> string \<Rightarrow> Collector list \<Rightarrow> world \<Rightarrow> string + string list \<times> world" where
  "collectAll env ctx p cs w =
     (case collect_loop env ctx 0 cs [] [] w of
        Inl e \<Rightarrow> Inl e
      | Inr (errs, z, w1) \<Rightarrow>
          (case add_summary errs z w1 of (errs1, z1, w2) \<Rightarrow> Inr (close_all p errs1 z1 w2)))"

section \<open>Handlers\<close>

text \<open>\<^verbatim>\<open>Create\<close> after the check that the id is new.\<close>

definition create_new :: "BundleHandler \<Rightarrow> string \<Rightarrow> world \<Rightarrow> outcome \<times> world \<times> Bundle option" where
  "create_new h i w1 =
     (case sys_mkdir_all (bundle_dir (bh_workDir h) i) w1 of
        (Some e, w2) \<Rightarrow>
          (writeJSONError StatusInsufficientStorage
             (msg [''could not create bundle '', i, '' workdir: '', e]), w2, None)
      | (None, w2) \<Rightarrow>
          (case sys_now w2 of (started, w3) \<Rightarrow>
           let bundle = zero_bundle\<lparr>bID := i, bStarted := started, bStatus := Started\<rparr> in
           case writeStateFile h bundle w3 of
             (doc, Some e, w4) \<Rightarrow>
               (writeJSONError StatusInsufficientStorage
                  (msg [''could not update state file '', i, '': '', e]), w4, None)
           | (doc, None, w4) \<Rightarrow>
               (case sys_create (data_path (bh_workDir h) i) w4 of
                  (Some e, w5) \<Rightarrow>
                    (case sys_now w5 of (stopped, w6) \<Rightarrow>
                     case writeStateFile h
                         (bundle\<lparr>bStatus := Failed, bStopped := stopped, bErrors := bErrors bundle @ [e]\<rparr>) w6 of
                       (doc2, Some e2, w7) \<Rightarrow>
                         (writeJSONError StatusInsufficientStorage
                            (msg [''could not update state file '', i, '': '', e2]), w7, None)
                     | (doc2, None, w7) \<Rightarrow>
                         (writeJSONError StatusInsufficientStorage
                            (msg [''could not create data file '', i, '': '', ''%!s(<nil>)'']), w7, None))
                | (None, w5) \<Rightarrow> (respond StatusOK (JsonBundle doc), w5, Some bundle))))"

definition bh_Create :: "BundleHandler \<Rightarrow> string \<Rightarrow> world \<Rightarrow> outcome \<times> world \<times> Bundle option" where
  "bh_Create h i w =
     (case bundleExists (bh_workDir h) i w of
        (None, w1) \<Rightarrow> (Panic nil_deref, w1, None)
      | (Some True, w1) \<Rightarrow>
          (writeJSONError StatusConflict (msg [''bundle '', i, '' already exists'']), w1, None)
      | (Some False, w1) \<Rightarrow> create_new h i w1)"

text \<open>The second goroutine, when the collection's result arrives before the deadline.\<close>

definition finish_job :: "BundleHandler \<Rightarrow> Bundle \<Rightarrow> string list \<Rightarrow> world \<Rightarrow> world" where
  "finish_job h b errs w =
     (case sys_now w of (stopped, w1) \<Rightarrow>
      case writeStateFile h (b\<lparr>bErrors := errs, bStatus := Done, bStopped := stopped\<rparr>) w1 of
        (doc, e, w2) \<Rightarrow> w2)"

definition bh_Get :: "BundleHandler \<Rightarrow> string \<Rightarrow> world \<Rightarrow> outcome \<times> world" where
  "bh_Get h i w =
     (case bundleExists (bh_workDir h) i w of
        (None, w1) \<Rightarrow> (Panic nil_deref, w1)
      | (Some False, w1) \<Rightarrow> (http_NotFound, w1)
      | (Some True, w1) \<Rightarrow>
          (case getBundleState h i w1 of
             (b, Some e, w2) \<Rightarrow>
               (respond StatusInternalServerError
                  (JsonBundle (marshal_bundle (b\<lparr>bErrors := bErrors b @ [e]\<rparr>))), w2)
           | (b, None, w2) \<Rightarrow> (respond StatusOK (JsonBundle (marshal_bundle b)), w2)))"

definition download_headers :: "string \<Rightarrow> (string \<times> string) list" where
  "download_headers i =
     [(''Content-Type'', ''application/zip, application/octet-stream''),
      (''Content-disposition'', ''attachment; filename='' @ i @ ''.zip'')]"

definition bh_GetFile :: "BundleHandler \<Rightarrow> string \<Rightarrow> world \<Rightarrow> outcome \<times> world" where
  "bh_GetFile h i w =
     (case getBundleState h i w of
        (b, Some e, w1) \<Rightarrow> (writeJSONError StatusInternalServerError e, w1)
      | (b, None, w1) \<Rightarrow>
          if bStatus b = Deleted \<or> bStatus b = Canceled \<or> bStatus b = Failed then
            (writeJSONError StatusGone (msg [''bundle '', bID b, '' was '', status_String (bStatus b)]), w1)
          else if bStatus b \<noteq> Done then
            (writeJSONError StatusNotFound
               (msg [''bundle '', bID b, '' is not done yet (status '', status_String (bStatus b), ''), try again later'']), w1)
          else serve_file (download_headers i) (data_path (bh_workDir h) i) w1)"

fun list_states :: "BundleHandler \<Rightarrow> (string \<times> inode) list \<Rightarrow> world \<Rightarrow> Bundle list \<times> world" where
  "list_states h [] w = ([], w)"
| "list_states h ((n, k) # es) w =
     (if k \<noteq> Dir then list_states h es w
      else
        (case getBundleState h n w of (b, e, w1) \<Rightarrow>
         case list_states h es w1 of (bs, w2) \<Rightarrow> (b # bs, w2)))"

definition bh_List :: "BundleHandler \<Rightarrow> world \<Rightarrow> outcome \<times> world" where
  "bh_List h w =
     (case sys_read_dir (bh_workDir h) w of
        (Inl e, w1) \<Rightarrow>
          (writeJSONError StatusInsufficientStorage (msg [''could not read work dir: '', e]), w1)
      | (Inr ids, w1) \<Rightarrow>
          (case list_states h ids w1 of
             (bs, w2) \<Rightarrow> (respond StatusOK (JsonBundles (map marshal_bundle bs)), w2)))"

definition bh_Delete :: "BundleHandler \<Rightarrow> string \<Rightarrow> world \<Rightarrow> outcome \<times> world" where
  "bh_Delete h i w =
     (case bundleExists (bh_workDir h) i w of
        (None, w1) \<Rightarrow> (Panic nil_deref, w1)
      | (Some False, w1) \<Rightarrow> (http_NotFound, w1)
      | (Some True, w1) \<Rightarrow>
          (case getBundleState h i w1 of
             (b, Some e, w2) \<Rightarrow>
               (respond StatusInternalServerError
                  (JsonBundle (marshal_bundle (b\<lparr>bErrors := bErrors b @ [e]\<rparr>))), w2)
           | (b, None, w2) \<Rightarrow>
               if bStatus b = Deleted \<or> bStatus b = Canceled then
                 (respond StatusOK (JsonBundle (marshal_bundle b)), w2)
               else
                 (case sys_remove (data_path (bh_workDir h) i) w2 of
                    (Some e, w3) \<Rightarrow>
                      (writeJSONError StatusInternalServerError
                         (msg [''could not delete bundle '', i, '': '', e]), w3)
                  | (None, w3) \<Rightarrow>
                      (case writeStateFile h (b\<lparr>bStatus := Deleted\<rparr>) w3 of
                         (doc, Some e, w4) \<Rightarrow>
                           (writeJSONError StatusInternalServerError
                              (msg [''bundle '', i, '' was deleted but state could not be updated: '', e]), w4)
                       | (doc, None, w4) \<Rightarrow> (respond StatusOK (JsonBundle doc), w4)))))"

section \<open>Routes\<close>

text \<open>The node-level routes of \<^verbatim>\<open>api/router.go\<close>: method and path select the handler, the path holds the id.\<close>

datatype node_request =
    PutBundle string
  | DeleteBundle string
  | ListBundles
  | GetBundle string
  | GetBundleFile string

fun serve_node :: "BundleHandler \<Rightarrow> node_request \<Rightarrow> world \<Rightarrow> outcome \<times> world \<times> Bundle option" where
  "serve_node h (PutBundle i) w = bh_Create h i w"
| "serve_node h (DeleteBundle i) w = (case bh_Delete h i w of (r, w1) \<Rightarrow> (r, w1, None))"
| "serve_node h ListBundles w = (case bh_List h w of (r, w1) \<Rightarrow> (r, w1, None))"
| "serve_node h (GetBundle i) w = (case bh_Get h i w of (r, w1) \<Rightarrow> (r, w1, None))"
| "serve_node h (GetBundleFile i) w = (case bh_GetFile h i w of (r, w1) \<Rightarrow> (r, w1, None))"

fun request_id :: "node_request \<Rightarrow> string option" where
  "request_id (PutBundle i) = Some i"
| "request_id (DeleteBundle i) = Some i"
| "request_id ListBundles = None"
| "request_id (GetBundle i) = Some i"
| "request_id (GetBundleFile i) = Some i"

section \<open>Paths of a bundle\<close>

text \<open>
  An id comes from one segment of the request's path: it is not empty, holds no slash and is neither
  \<^verbatim>\<open>.\<close> nor \<^verbatim>\<open>..\<close> (the router cleans the path before it matches).
\<close>

abbreviation valid_id :: "string \<Rightarrow> bool" where "valid_id i \<equiv> real_comp i"

lemma real_file_names [simp]: "real_comp stateFileName" "real_comp dataFileName" "stateFileName \<noteq> dataFileName"
  by (simp_all add: real_comp_def stateFileName_def dataFileName_def)

lemma state_path_inject: "valid_id i \<Longrightarrow> valid_id j \<Longrightarrow> state_path wd i = state_path wd j \<longleftrightarrow> i = j"
  using join_real_inject [of wd "[i, stateFileName]" "[j, stateFileName]"]
  by (auto simp: state_path_def simp del: join.simps)

lemma data_path_inject: "valid_id i \<Longrightarrow> valid_id j \<Longrightarrow> data_path wd i = data_path wd j \<longleftrightarrow> i = j"
  using join_real_inject [of wd "[i, dataFileName]" "[j, dataFileName]"]
  by (auto simp: data_path_def simp del: join.simps)

lemma bundle_dir_inject: "valid_id i \<Longrightarrow> valid_id j \<Longrightarrow> bundle_dir wd i = bundle_dir wd j \<longleftrightarrow> i = j"
  using join_real_inject [of wd "[i]" "[j]"]
  by (auto simp: bundle_dir_def simp del: join.simps)

lemma state_data_distinct: "valid_id i \<Longrightarrow> valid_id j \<Longrightarrow> state_path wd i \<noteq> data_path wd j"
  using join_real_inject [of wd "[i, stateFileName]" "[j, dataFileName]"]
  by (auto simp: state_path_def data_path_def simp del: join.simps)

lemma dir_file_distinct:
  assumes "valid_id i" and "valid_id j"
  shows "bundle_dir wd i \<noteq> state_path wd j" and "bundle_dir wd i \<noteq> data_path wd j"
  using join_real_inject [of wd "[i]" "[j, stateFileName]"]
    join_real_inject [of wd "[i]" "[j, dataFileName]"] assms
  by (auto simp: bundle_dir_def state_path_def data_path_def simp del: join.simps)

lemma bundle_dir_comps: "valid_id i \<Longrightarrow> path_comps (bundle_dir wd i) \<noteq> []"
  using path_comps_join [of "[i]" wd] by (simp add: bundle_dir_def)

lemma clean_bundle_dir: "valid_id i \<Longrightarrow> clean (bundle_dir wd i) = bundle_dir wd i"
  using clean_join [of "[i]" wd] by (simp add: bundle_dir_def)

lemma parent_files:
  assumes "valid_id i"
  shows "parent (state_path wd i) = bundle_dir wd i" and "parent (data_path wd i) = bundle_dir wd i"
  using parent_join [of "[i]" stateFileName wd] parent_join [of "[i]" dataFileName wd] assms
  by (simp_all add: bundle_dir_def state_path_def data_path_def del: join.simps)

lemmas bundle_paths = state_path_inject data_path_inject bundle_dir_inject state_data_distinct
  state_data_distinct [symmetric] dir_file_distinct dir_file_distinct [symmetric]

text \<open>The directories \<^verbatim>\<open>MkdirAll\<close> passes on the way to a bundle are not files of a bundle.\<close>

lemma ancestors_length:
  assumes "valid_id i" and "q \<in> set (ancestors (bundle_dir wd i))"
  shows "\<exists>n. q = render (rooted wd) (take (Suc n) (path_comps wd @ [i])) \<and> n \<le> length (path_comps wd)"
  using assms path_comps_join [of "[i]" wd]
  by (auto simp: ancestors_def bundle_dir_def)

lemma ancestors_not_file:
  assumes "valid_id i" and "valid_id j" and "real_comp f"
  shows "join [wd, j, f] \<notin> set (ancestors (bundle_dir wd i))"
proof
  assume "join [wd, j, f] \<in> set (ancestors (bundle_dir wd i))"
  from ancestors_length [OF assms(1) this] obtain n where
    eq: "join [wd, j, f] = render (rooted wd) (take (Suc n) (path_comps wd @ [i]))" by blast
  have pc: "\<forall>c\<in>set (path_comps wd). slash \<notin> set c"
    using path_comps_cleaned cleaned_no_slash by blast
  have "render (rooted wd) (path_comps wd @ [j, f]) = render (rooted wd) (take (Suc n) (path_comps wd @ [i]))"
    using eq join_real [of "[j, f]" wd] assms by (simp del: join.simps)
  then have "path_comps wd @ [j, f] = take (Suc n) (path_comps wd @ [i])"
    using pc assms by (intro render_inject) (auto simp: real_comp_def dest: in_set_takeD)
  from arg_cong [OF this, of length] show False by simp
qed

lemma ancestors_not_dir:
  assumes "valid_id i" and "valid_id j" and "i \<noteq> j"
  shows "bundle_dir wd j \<notin> set (ancestors (bundle_dir wd i))"
proof
  assume "bundle_dir wd j \<in> set (ancestors (bundle_dir wd i))"
  from ancestors_length [OF assms(1) this] obtain n where
    eq: "join [wd, j] = render (rooted wd) (take (Suc n) (path_comps wd @ [i]))" and
    n: "n \<le> length (path_comps wd)" by (auto simp: bundle_dir_def)
  have pc: "\<forall>c\<in>set (path_comps wd). slash \<notin> set c"
    using path_comps_cleaned cleaned_no_slash by blast
  have "render (rooted wd) (path_comps wd @ [j]) = render (rooted wd) (take (Suc n) (path_comps wd @ [i]))"
    using eq join_real [of "[j]" wd] assms by (simp del: join.simps)
  then have e: "path_comps wd @ [j] = take (Suc n) (path_comps wd @ [i])"
    using pc assms by (intro render_inject) (auto simp: real_comp_def dest: in_set_takeD)
  from arg_cong [OF e, of length] n have "n = length (path_comps wd)" by simp
  with e assms(3) show False by simp
qed

end
