(* ===== verification/Bundle_Store.thy ===== *)
theory Bundle_Store
  imports Bundle_Handler
begin

text \<open>
  What a work directory means: \<open>slot\<close> abstracts the directory of one id to the bundle stored there and
  its data file. The interface \<open>state_writer\<close> is what the handlers expect of a function that writes
  state files; the node handler's \<^verbatim>\<open>writeStateFile\<close> is interpreted here, the cluster handler's in its own
  theory. The properties say that a 200 answer of a handler is truthful whichever calls fail, and that
  a request about one bundle leaves every other bundle as it was.
\<close>

section \<open>The abstract store\<close>

datatype slot = Absent | Broken | Stored Bundle "inode option"

definition slot_of :: "BundleHandler \<Rightarrow> world \<Rightarrow> string \<Rightarrow> slot" where
  "slot_of h w i =
     (if fs_get w (bundle_dir (bh_workDir h) i) \<noteq> Some Dir then Absent
      else
        (case fs_get w (state_path (bh_workDir h) i) of
           Some (File c) \<Rightarrow>
             (case unmarshal_state c (zero_bundle\<lparr>bID := i\<rparr>) of
                (None, b) \<Rightarrow> Stored b (fs_get w (data_path (bh_workDir h) i))
              | (Some e, b) \<Rightarrow> Broken)
         | _ \<Rightarrow> Broken))"

text \<open>The statuses whose data file is not looked at.\<close>

definition settled :: "Status \<Rightarrow> bool" where
  "settled s = (s = Deleted \<or> s = Canceled \<or> s = Unknown \<or> s = Failed)"

text \<open>The bundle as \<^verbatim>\<open>getBundleState\<close> presents it: the size is that of the data file.\<close>

definition presented :: "world \<Rightarrow> Bundle \<Rightarrow> inode option \<Rightarrow> Bundle" where
  "presented w b d =
     (if settled (bStatus b) then b
      else case d of None \<Rightarrow> b | Some n \<Rightarrow> b\<lparr>bSize := inode_size w n\<rparr>)"

text \<open>A world in which no call fails, and a directory whose state files name their own bundle.\<close>

definition calm :: "world \<Rightarrow> bool" where
  "calm w = (\<forall>n. fault w n = None)"

definition own_id :: "BundleHandler \<Rightarrow> world \<Rightarrow> string \<Rightarrow> bool" where
  "own_id h w i = (case slot_of h w i of Stored b d \<Rightarrow> bID b = i | _ \<Rightarrow> True)"

text \<open>A file whose decoded bundle, if any, has the given id; a directory in which every state file is so.\<close>

definition own_blob :: "string \<Rightarrow> blob \<Rightarrow> bool" where
  "own_blob i c = (case unmarshal_state c (zero_bundle\<lparr>bID := i\<rparr>) of (None, b) \<Rightarrow> bID b = i | _ \<Rightarrow> True)"

definition owns :: "BundleHandler \<Rightarrow> world \<Rightarrow> bool" where
  "owns h w = (\<forall>i c. valid_id i \<longrightarrow> fs_get w (state_path (bh_workDir h) i) = Some (File c) \<longrightarrow> own_blob i c)"

section \<open>Slots and frames\<close>

lemma owns_own_id: "owns h w \<Longrightarrow> valid_id i \<Longrightarrow> own_id h w i"
  unfolding owns_def own_id_def slot_of_def own_blob_def
  by (auto split: slot.splits if_splits option.splits inode.splits prod.splits)

lemma owns_same:
  assumes "owns h w" and "same_except ps w w'" and "\<And>i. valid_id i \<Longrightarrow> state_path (bh_workDir h) i \<notin> ps"
  shows "owns h w'"
  using assms by (auto simp: owns_def same_except_def)

lemma owns_tick [simp]: "owns h (tick w) = owns h w"
  by (simp add: owns_def)

lemma own_blob_simps [simp]:
  "own_blob i (Bytes s)" "own_blob i (Torn c)" "own_blob (bID b) (StateDoc (marshal_bundle b))"
  by (simp_all add: own_blob_def unmarshal_marshal zero_bundle_def)

lemma slot_of_cong:
  assumes "fs_get w' (bundle_dir (bh_workDir h) i) = fs_get w (bundle_dir (bh_workDir h) i)"
    and "fs_get w' (state_path (bh_workDir h) i) = fs_get w (state_path (bh_workDir h) i)"
    and "fs_get w' (data_path (bh_workDir h) i) = fs_get w (data_path (bh_workDir h) i)"
  shows "slot_of h w' i = slot_of h w i"
  unfolding slot_of_def assms by simp

lemma slot_of_tick [simp]: "slot_of h (tick w) = slot_of h w"
  by (rule ext, rule slot_of_cong) simp_all

text \<open>The paths of one bundle; a call framed by them leaves the other bundles alone.\<close>

definition files_of :: "BundleHandler \<Rightarrow> string \<Rightarrow> string set" where
  "files_of h i = {state_path (bh_workDir h) i, data_path (bh_workDir h) i}"

lemma slot_of_other:
  assumes "same_except (files_of h i) w w'" and "valid_id i" and "valid_id j" and "i \<noteq> j"
  shows "slot_of h w' j = slot_of h w j"
  by (rule slot_of_cong) (use assms in \<open>auto simp: same_except_def files_of_def bundle_paths\<close>)

lemma same_except_bundle_dir:
  assumes "same_except (files_of h i) w w'" and "valid_id i" and "valid_id j"
  shows "fs_get w' (bundle_dir (bh_workDir h) j) = fs_get w (bundle_dir (bh_workDir h) j)"
  using assms by (auto simp: same_except_def files_of_def bundle_paths)

lemma calm_failing: "calm w \<Longrightarrow> failing w = None"
  by (simp add: calm_def failing_def)

lemma calm_same: "same_except ps w w' \<Longrightarrow> calm w' = calm w"
  by (simp add: calm_def same_except_def)

lemma calm_tick [simp]: "calm (tick w) = calm w"
  by (simp add: calm_def)

section \<open>The interface of state writers\<close>

locale state_writer =
  fixes h :: BundleHandler
    and put :: "Bundle \<Rightarrow> world \<Rightarrow> bundle_doc \<times> string option \<times> world"
  assumes put_doc: "put b w = (d, e, w') \<Longrightarrow> d = marshal_bundle b"
    and put_stores: "put b w = (d, None, w') \<Longrightarrow>
      fs_get w' (state_path (bh_workDir h) (bID b)) = Some (File (StateDoc (marshal_bundle b)))"
    and put_frame: "put b w = (d, e, w') \<Longrightarrow> same_except {state_path (bh_workDir h) (bID b)} w w'"
    and put_own: "put b w = (d, e, w') \<Longrightarrow> fs_get w' (state_path (bh_workDir h) (bID b)) = Some (File c) \<Longrightarrow>
      fs_get w (state_path (bh_workDir h) (bID b)) = Some (File c) \<or> own_blob (bID b) c"
    and put_calm: "calm w \<Longrightarrow> valid_id (bID b) \<Longrightarrow>
      fs_get w (bundle_dir (bh_workDir h) (bID b)) = Some Dir \<Longrightarrow>
      fs_get w (state_path (bh_workDir h) (bID b)) \<noteq> Some Dir \<Longrightarrow> \<exists>d w'. put b w = (d, None, w')"
begin

lemma put_frame_files: "put b w = (d, e, w') \<Longrightarrow> same_except (files_of h (bID b)) w w'"
  by (rule same_except_mono [OF put_frame]) (auto simp: files_of_def)

text \<open>After a write that succeeds, the slot holds the bundle written and the data file it had.\<close>

lemma put_slot:
  assumes "put b w = (d, None, w')" and "valid_id (bID b)" 
    and "fs_get w (bundle_dir (bh_workDir h) (bID b)) = Some Dir"
  shows "slot_of h w' (bID b) = Stored b (fs_get w (data_path (bh_workDir h) (bID b)))"
proof -
  have "fs_get w' (data_path (bh_workDir h) (bID b)) = fs_get w (data_path (bh_workDir h) (bID b))"
    and "fs_get w' (bundle_dir (bh_workDir h) (bID b)) = Some Dir"
    using same_except_get [OF put_frame [OF assms(1)]] assms(2,3) by (simp_all add: bundle_paths)
  moreover have "unmarshal_bundle (marshal_bundle b) (zero_bundle\<lparr>bID := bID b\<rparr>) = (None, b)"
    by (rule unmarshal_marshal) (simp_all add: zero_bundle_def)
  ultimately show ?thesis
    using put_stores [OF assms(1)] by (simp add: slot_of_def)
qed

lemma put_owns:
  assumes "put b w = (d, e, w')" and "valid_id (bID b)" and "owns h w"
  shows "owns h w'"
  unfolding owns_def
proof (intro allI impI)
  fix i c
  assume v: "valid_id i" and f: "fs_get w' (state_path (bh_workDir h) i) = Some (File c)"
  show "own_blob i c"
  proof (cases "bID b = i")
    case True
    then show ?thesis using put_own [OF assms(1), of c] f v assms(3) by (auto simp: owns_def)
  next
    case False
    then show ?thesis
      using same_except_get [OF put_frame [OF assms(1)]] f v assms(2,3) by (auto simp: owns_def bundle_paths)
  qed
qed

lemma put_other:
  assumes "put b w = (d, e, w')" and "valid_id (bID b)" and "valid_id j" and "bID b \<noteq> j"
  shows "slot_of h w' j = slot_of h w j"
  using slot_of_other [OF put_frame_files [OF assms(1)]] assms by simp

end

lemma writeStateFile_eq:
  "writeStateFile h b w =
     (marshal_bundle b, sys_write_file (state_path (bh_workDir h) (bID b)) (StateDoc (marshal_bundle b)) w)"
  by (simp add: writeStateFile_def Let_def split: prod.splits)

lemma write_file_calm:
  assumes "calm w" and "fs_get w p \<noteq> Some Dir" and "is_dir w (parent p)"
  shows "\<exists>w'. sys_write_file p b w = (None, w')"
  using assms by (simp add: sys_write_file_def sys_create_def sys_write_def calm_failing)
    (simp add: calm_def failing_def)

lemma write_file_contents:
  "sys_write_file p c w = (e, w') \<Longrightarrow> fs_get w' p = Some (File c') \<Longrightarrow>
     fs_get w p = Some (File c') \<or> c' = Bytes [] \<or> c' = Torn c \<or> c' = c"
  by (auto simp: sys_write_file_def sys_create_def sys_write_def split: option.splits if_splits prod.splits)

interpretation node_state: state_writer h "writeStateFile h" for h
proof
  fix b :: Bundle and w d e w'
  assume "writeStateFile h b w = (d, e, w')"
  then show "d = marshal_bundle b" and "same_except {state_path (bh_workDir h) (bID b)} w w'"
    by (auto simp: writeStateFile_eq dest: frame_write_file)
next
  fix b :: Bundle and w d w'
  assume "writeStateFile h b w = (d, None, w')"
  then show "fs_get w' (state_path (bh_workDir h) (bID b)) = Some (File (StateDoc (marshal_bundle b)))"
    by (auto simp: writeStateFile_eq dest: write_file_ok)
next
  fix b :: Bundle and w d e w' c
  assume "writeStateFile h b w = (d, e, w')" and "fs_get w' (state_path (bh_workDir h) (bID b)) = Some (File c)"
  then show "fs_get w (state_path (bh_workDir h) (bID b)) = Some (File c) \<or> own_blob (bID b) c"
    by (auto simp: writeStateFile_eq dest: write_file_contents)
next
  fix b :: Bundle and w
  assume "calm w" and "valid_id (bID b)" and "fs_get w (bundle_dir (bh_workDir h) (bID b)) = Some Dir"
    and "fs_get w (state_path (bh_workDir h) (bID b)) \<noteq> Some Dir"
  then show "\<exists>d w'. writeStateFile h b w = (d, None, w')"
    using write_file_calm [of w "state_path (bh_workDir h) (bID b)"]
    by (auto simp: writeStateFile_eq parent_files is_dir_def)
qed

section \<open>Reading a slot\<close>

lemma getBundleState_frame: "getBundleState h i w = (b, e, w') \<Longrightarrow> same_except {} w w'"
  by (auto simp: getBundleState_def readStateFile_def sys_read_file_def sys_stat_def Let_def
      split: sum.splits prod.splits option.splits stat_result.splits if_splits inode.splits
      intro: same_except_trans [of "{}" _ _ "{}", simplified])

text \<open>An error-free read is truthful, whichever other calls fail.\<close>

lemma read_file_ok: "sys_read_file p w = (Inr c, w') \<Longrightarrow> fs_get w p = Some (File c)"
  by (auto simp: sys_read_file_def split: option.splits inode.splits)

lemma stat_ok: "sys_stat p w = (StatOk n, w') \<Longrightarrow> fs_get w p = Some n"
  by (auto simp: sys_stat_def split: option.splits)

lemma fresh_bundle [simp]: "zero_bundle\<lparr>bID := i, bStatus := Unknown\<rparr> = zero_bundle\<lparr>bID := i\<rparr>"
  by (simp add: zero_bundle_def)

lemma getBundleState_ok:
  assumes "getBundleState h i w = (b, None, w')" and "fs_get w (bundle_dir (bh_workDir h) i) = Some Dir"
  obtains b0 d where "slot_of h w i = Stored b0 d" and "b = presented w b0 d"
    and "settled (bStatus b0) \<or> d \<noteq> None"
proof -
  let ?sp = "state_path (bh_workDir h) i" and ?dp = "data_path (bh_workDir h) i"
  from assms(1) obtain c w1 where rd: "sys_read_file ?sp w = (Inr c, w1)"
    by (auto simp: getBundleState_def readStateFile_def zero_bundle_def Let_def split: prod.splits sum.splits)
  from assms(1) rd obtain b0 where um: "unmarshal_state c (zero_bundle\<lparr>bID := i\<rparr>) = (None, b0)"
    by (auto simp: getBundleState_def readStateFile_def zero_bundle_def Let_def split: prod.splits option.splits)
  have slot: "slot_of h w i = Stored b0 (fs_get w ?dp)"
    using read_file_ok [OF rd] um assms(2) by (simp add: slot_of_def)
  have w1: "w1 = tick w" using rd by (rule read_only_calls)
  have eq: "getBundleState h i w =
    (if settled (bStatus b0) then (b0, None, w1)
     else case sys_stat ?dp w1 of
        (StatNotExist, w2) \<Rightarrow> (b0\<lparr>bStatus := Unknown\<rparr>,
          Some (msg [''could not stat data file '', i, '': '', no_such_file ''stat'' ?dp]), w2)
      | (StatErr e, w2) \<Rightarrow> (b0\<lparr>bStatus := Unknown\<rparr>, Some (msg [''could not stat data file '', i, '': '', e]), w2)
      | (StatOk n, w2) \<Rightarrow> (b0\<lparr>bSize := inode_size w2 n\<rparr>, None, w2))"
    using rd um by (simp add: getBundleState_def readStateFile_def Let_def settled_def zero_bundle_def)
  show ?thesis
  proof (cases "settled (bStatus b0)")
    case True
    then show ?thesis using that [OF slot] assms(1) eq by (simp add: presented_def)
  next
    case False
    with assms(1) eq obtain n w2 where st: "sys_stat ?dp w1 = (StatOk n, w2)"
      by (auto split: prod.splits stat_result.splits)
    then have "fs_get w ?dp = Some n" using stat_ok [OF st] w1 by simp
    moreover have "b = b0\<lparr>bSize := inode_size w n\<rparr>"
      using False assms(1) eq st read_only_calls(1) [OF st] w1 by simp
    ultimately show ?thesis using that [OF slot] False by (simp add: presented_def)
  qed
qed

section \<open>Handlers and slots\<close>

lemma bundleExists_Dir:
  assumes "bundleExists wd i w = (r, w')"
  shows "w' = tick w" and "r = Some True \<Longrightarrow> fs_get w (bundle_dir wd i) = Some Dir"
    and "r = Some False \<Longrightarrow> fs_get w (bundle_dir wd i) \<noteq> Some Dir"
  using assms
  by (auto simp: bundleExists_def sys_stat_def split: option.splits inode.splits prod.splits)

lemma mkdir_bundle_dir:
  assumes "sys_mkdir_all (bundle_dir (bh_workDir h) i) w = (None, w')" and "valid_id i"
  shows "fs_get w' (bundle_dir (bh_workDir h) i) = Some Dir"
  using mkdir_all_ok(1) [OF assms(1) bundle_dir_comps [OF assms(2)]] clean_bundle_dir [OF assms(2)] by simp

lemma create_new_spawns:
  assumes "create_new h i w = (o', w', Some b)" and "valid_id i"
  shows "slot_of h w' i = Stored b (Some (File (Bytes [])))" and "bID b = i" and "bStatus b = Started"
    and "bSize b = 0" and "o' = respond StatusOK (JsonBundle (marshal_bundle b))"
proof -
  let ?wd = "bh_workDir h"
  from assms(1) obtain w2 where mk: "sys_mkdir_all (bundle_dir ?wd i) w = (None, w2)"
    by (auto simp: create_new_def split: prod.splits option.splits)
  obtain t w3 where nw: "sys_now w2 = (t, w3)" by fastforce
  let ?b = "zero_bundle\<lparr>bID := i, bStarted := t, bStatus := Started\<rparr>"
  from assms(1) mk nw obtain d w4 where ws: "writeStateFile h ?b w3 = (d, None, w4)"
    by (auto simp: create_new_def Let_def split: prod.splits option.splits)
  from assms(1) mk nw ws have cr: "sys_create (data_path ?wd i) w4 = (None, w')" and b: "b = ?b"
    and o: "o' = respond StatusOK (JsonBundle d)"
    by (auto simp: create_new_def Let_def split: prod.splits option.splits)
  have "fs_get w3 (bundle_dir ?wd i) = Some Dir"
    using mkdir_bundle_dir [OF mk assms(2)] read_only_calls(4) [OF nw] by simp
  then have s4: "slot_of h w4 i = Stored ?b (fs_get w3 (data_path ?wd i))" and
    d4: "fs_get w4 (bundle_dir ?wd i) = Some Dir"
    using node_state.put_slot [OF ws] same_except_get [OF node_state.put_frame [OF ws]] assms(2)
    by (simp_all add: bundle_paths)
  have fr: "same_except {data_path ?wd i} w4 w'" using cr by (rule frame_calls(5))
  have "fs_get w' (bundle_dir ?wd i) = Some Dir" and
    "fs_get w' (state_path ?wd i) = fs_get w4 (state_path ?wd i)"
    using same_except_get [OF fr] d4 assms(2) by (simp_all add: bundle_paths)
  then show "slot_of h w' i = Stored b (Some (File (Bytes [])))"
    using s4 d4 create_ok [OF cr] b
    by (auto simp: slot_of_def split: option.splits inode.splits prod.splits)
  show "bID b = i" "bStatus b = Started" "bSize b = 0"
    "o' = respond StatusOK (JsonBundle (marshal_bundle b))"
    using b o node_state.put_doc [OF ws] by (simp_all add: zero_bundle_def)
qed

lemma create_new_code:
  "create_new h i w = (o', w', sp) \<Longrightarrow> outcome_code o' = Some (if sp = None then 507 else 200)"
  by (auto simp: create_new_def writeJSONError_def Let_def split: prod.splits option.splits)

lemma same_except_create_new:
  assumes "create_new h i w = (o', w', sp)" and "valid_id i"
  shows "same_except (files_of h i \<union> set (ancestors (bundle_dir (bh_workDir h) i))) w w'"
proof -
  let ?A = "set (ancestors (bundle_dir (bh_workDir h) i))"
  let ?U = "files_of h i \<union> ?A"
  have mk: "same_except ?U w w2" if "sys_mkdir_all (bundle_dir (bh_workDir h) i) w = (r, w2)" for r w2
    using that by (auto simp: sys_mkdir_all_def same_except_def make_dirs_get split: option.splits list.splits)
  have cr: "same_except ?U w1 w2" if "sys_create (data_path (bh_workDir h) i) w1 = (r, w2)" for r w1 w2
    by (rule same_except_mono [OF frame_calls(5) [OF that]]) (simp add: files_of_def)
  have st: "same_except ?U w1 w2" if "writeStateFile h b w1 = (d, e, w2)" and "bID b = i" for b d e w1 w2
    using same_except_mono [OF node_state.put_frame_files [OF that(1)], of ?U] that(2) by simp
  have nw: "w2 = tick w1" if "sys_now w1 = (t, w2)" for t w1 w2
    using that by (rule read_only_calls(4))
  show ?thesis
    using assms(1)
    by (auto simp: create_new_def Let_def split: prod.splits option.splits
        dest!: mk nw cr st) (meson same_except_chain same_except_tick_left)+
qed

lemma presented_simps [simp]:
  "bID (presented w b d) = bID b" "bStatus (presented w b d) = bStatus b"
  "bType (presented w b d) = bType b" "bErrors (presented w b d) = bErrors b"
  by (auto simp: presented_def split: option.splits)

lemma getBundleState_own:
  assumes "getBundleState h i w = (b, None, w')" and "fs_get w (bundle_dir (bh_workDir h) i) = Some Dir"
    and "own_id h w i"
  shows "bID b = i"
  using assms by (elim getBundleState_ok) (auto simp: own_id_def)

lemma own_id_tick [simp]: "own_id h (tick w) = own_id h w"
  by (simp add: fun_eq_iff own_id_def)

text \<open>The common start of \<^verbatim>\<open>Get\<close> and \<^verbatim>\<open>Delete\<close>: the check, then an error-free read.\<close>

lemma read_existing:
  assumes "bundleExists (bh_workDir h) i w = (Some True, w1)" and "getBundleState h i w1 = (b, e, w2)"
  shows "fs_get w (bundle_dir (bh_workDir h) i) = Some Dir" and "same_except {} w w2"
    and "e = None \<Longrightarrow> \<exists>b0. slot_of h w i = Stored b0 (fs_get w (data_path (bh_workDir h) i)) \<and>
           b = presented w b0 (fs_get w (data_path (bh_workDir h) i)) \<and>
           (settled (bStatus b0) \<or> fs_get w (data_path (bh_workDir h) i) \<noteq> None)"
proof -
  note w1 = bundleExists_Dir(1) [OF assms(1)]
  show D: "fs_get w (bundle_dir (bh_workDir h) i) = Some Dir"
    using bundleExists_Dir(2) [OF assms(1)] by simp
  show "same_except {} w w2"
    using getBundleState_frame [OF assms(2)] w1 same_except_tick_left by blast
  assume e: "e = None"
  have "fs_get w1 (bundle_dir (bh_workDir h) i) = Some Dir" using D w1 by simp
  from getBundleState_ok [OF assms(2) [unfolded e] this] obtain b0 d where
    sl: "slot_of h w1 i = Stored b0 d" and b: "b = presented w1 b0 d"
    and s: "settled (bStatus b0) \<or> d \<noteq> None" by blast
  have d: "d = fs_get w (data_path (bh_workDir h) i)" and "slot_of h w i = Stored b0 d"
    using sl w1 by (auto simp: slot_of_def split: if_splits option.splits inode.splits prod.splits)
  moreover have "b = presented w b0 d"
    using b w1 by (simp add: presented_def split: option.splits)
  ultimately show "\<exists>b0. slot_of h w i = Stored b0 (fs_get w (data_path (bh_workDir h) i)) \<and>
           b = presented w b0 (fs_get w (data_path (bh_workDir h) i)) \<and>
           (settled (bStatus b0) \<or> fs_get w (data_path (bh_workDir h) i) \<noteq> None)"
    using s by blast
qed

text \<open>The ways \<^verbatim>\<open>Delete\<close> ends once the state is read.\<close>

lemma bh_Delete_cases:
  assumes "bh_Delete h i w = (o', w')" and "valid_id i" and "own_id h w i"
  obtains (refused) "same_except {} w w'" and "outcome_code o' \<noteq> Some 200"
  | (settled) b where "fs_get w (bundle_dir (bh_workDir h) i) = Some Dir" and "same_except {} w w'"
      and "slot_of h w i = Stored b (fs_get w (data_path (bh_workDir h) i))"
      and "bStatus b = Deleted \<or> bStatus b = Canceled"
      and "o' = respond 200 (JsonBundle (marshal_bundle b))"
  | (removed) b w1 w2 e where "fs_get w (bundle_dir (bh_workDir h) i) = Some Dir"
      and "slot_of h w i = Stored b (fs_get w (data_path (bh_workDir h) i))" and "bID b = i"
      and "same_except {} w w1"
      and "sys_remove (data_path (bh_workDir h) i) w1 = (None, w2)"
      and "writeStateFile h ((presented w b (fs_get w (data_path (bh_workDir h) i)))\<lparr>bStatus := Deleted\<rparr>) w2
             = (marshal_bundle ((presented w b (fs_get w (data_path (bh_workDir h) i)))\<lparr>bStatus := Deleted\<rparr>), e, w')"
      and "o' = (case e of None \<Rightarrow> respond 200 (JsonBundle (marshal_bundle
                   ((presented w b (fs_get w (data_path (bh_workDir h) i)))\<lparr>bStatus := Deleted\<rparr>)))
                 | Some x \<Rightarrow> writeJSONError 500
                     (msg [''bundle '', i, '' was deleted but state could not be updated: '', x]))"
proof -
  let ?wd = "bh_workDir h" and ?d = "fs_get w (data_path (bh_workDir h) i)"
  obtain r w1 where ex: "bundleExists ?wd i w = (r, w1)" by fastforce
  obtain b e w2 where gs: "getBundleState h i w1 = (b, e, w2)" by (metis prod_cases3)
  consider "r = None" | "r = Some False" | (err) x where "r = Some True" "e = Some x"
    | (dir) "r = Some True" "e = None" by (cases r; cases e) auto
  then show ?thesis
  proof cases
    case (err x)
    have "same_except {} w w'" and "outcome_code o' \<noteq> Some 200"
      using assms(1) ex err gs read_existing(2) [OF _ gs, of w] by (auto simp: bh_Delete_def)
    then show ?thesis by (rule refused)
  next
    case dir
    note rd = read_existing [OF ex [unfolded dir] gs]
    from rd(3) [OF dir(2)] obtain b0 where sl: "slot_of h w i = Stored b0 ?d" and b: "b = presented w b0 ?d"
      by blast
    have own: "bID b0 = i" using assms(3) sl by (simp add: own_id_def)
    show ?thesis
    proof (cases "bStatus b = Deleted \<or> bStatus b = Canceled")
      case True
      then have "b = b0" using b by (auto simp: presented_def settled_def split: if_splits option.splits)
      then show ?thesis
        using assms(1) ex dir gs True settled [OF rd(1) _ sl] rd(2) by (simp add: bh_Delete_def)
    next
      case False
      obtain r' w3 where rm: "sys_remove (data_path ?wd i) w2 = (r', w3)" by fastforce
      show ?thesis
      proof (cases r')
        case (Some x)
        then have "same_except {} w w'" and "outcome_code o' \<noteq> Some 200"
          using assms(1) ex dir gs False rm remove_error [of "data_path ?wd i" w2 x w3] rd(2)
          by (auto simp: bh_Delete_def writeJSONError_def)
        then show ?thesis by (rule refused)
      next
        case None
        obtain doc e4 w4 where ws: "writeStateFile h (b\<lparr>bStatus := Deleted\<rparr>) w3 = (doc, e4, w4)"
          by (metis prod_cases3)
        have doc: "doc = marshal_bundle (b\<lparr>bStatus := Deleted\<rparr>)" using ws by (rule node_state.put_doc)
        have w': "w' = w4" and o: "o' = (case e4 of None \<Rightarrow> respond 200 (JsonBundle doc)
           | Some x \<Rightarrow> writeJSONError 500 (msg [''bundle '', i, '' was deleted but state could not be updated: '', x]))"
          using assms(1) ex dir gs None False rm ws by (auto simp: bh_Delete_def split: option.splits)
        show ?thesis
          by (rule removed [OF rd(1) sl own rd(2) rm [unfolded None]]) (use ws doc w' o [unfolded doc b] b in simp_all)
      qed
    qed
  qed (use assms(1) ex bundleExists_Dir(1) [OF ex] in \<open>auto simp: bh_Delete_def intro!: refused\<close>)
qed

section \<open>A sample work directory\<close>

text \<open>Concrete inputs for the witnesses: a work directory with one finished bundle, and no faults.\<close>

definition sample_handler :: BundleHandler where
  "sample_handler = \<lparr>bh_workDir = ''/w'', bh_collectors = []\<rparr>"

definition sample_world :: "(string \<times> inode) list \<Rightarrow> world" where
  "sample_world fs = \<lparr>files = fs, calls = 0, fault = (\<lambda>_. None), clock = int, enc = (\<lambda>_. []), dirSize = 4096\<rparr>"

definition done_bundle :: Bundle where
  "done_bundle = zero_bundle\<lparr>bID := ''a'', bStatus := Done, bErrors := [''e'']\<rparr>"

definition done_files :: "(string \<times> inode) list" where
  "done_files = [(''/w'', Dir), (''/w/a'', Dir), (''/w/a/state.json'', File (StateDoc (marshal_bundle done_bundle))),
     (''/w/a/file.zip'', File (Zip []))]"

section \<open>Properties\<close>

lemma bh_Create_spawns:
  assumes "bh_Create h i w = (o', w', sp)" and "valid_id i"
  shows "(outcome_code o' = Some 200 \<longleftrightarrow> sp \<noteq> None) \<and>
    (\<forall>b. sp = Some b \<longrightarrow>
       slot_of h w i = Absent \<and> slot_of h w' i = Stored b (Some (File (Bytes []))) \<and>
       bID b = i \<and> bStatus b = Started \<and> o' = respond 200 (JsonBundle (marshal_bundle b)))"
proof -
  obtain r w1 where ex: "bundleExists (bh_workDir h) i w = (r, w1)" by fastforce
  show ?thesis
  proof (cases "r = Some False")
    case True
    then have cn: "create_new h i w1 = (o', w', sp)" using assms(1) ex by (simp add: bh_Create_def)
    have "slot_of h w i = Absent"
      using bundleExists_Dir(3) [OF ex True] by (simp add: slot_of_def)
    then show ?thesis
      using create_new_code [OF cn] create_new_spawns [of h i w1 o' w'] cn assms(2) by auto
  next
    case False
    then show ?thesis
      using assms(1) ex by (auto simp: bh_Create_def writeJSONError_def split: option.splits bool.splits)
  qed
qed

text \<open>
  C1. \<^verbatim>\<open>Create\<close> answers 200 exactly when it has started the collection of a bundle, whichever calls of the
  operating system fail; then no bundle was stored under that id before, and afterwards the store holds
  the answered bundle, \<^const>\<open>Started\<close>, with an empty data file.
\<close>

theorem create_truthful:
  assumes "bh_Create h i w = (o', w', sp)" and "valid_id i"
  shows "(outcome_code o' = Some 200 \<longleftrightarrow> sp \<noteq> None) \<and>
    (\<forall>b. sp = Some b \<longrightarrow>
       slot_of h w i = Absent \<and> slot_of h w' i = Stored b (Some (File (Bytes []))) \<and>
       bID b = i \<and> bStatus b = Started \<and> o' = respond 200 (JsonBundle (marshal_bundle b)))"
  by (rule bh_Create_spawns [OF assms])

theorem create_truthful_witness:
  "\<exists>o' w' b. bh_Create sample_handler ''a'' (sample_world []) = (o', w', Some b) \<and>
     slot_of sample_handler w' ''a'' = Stored b (Some (File (Bytes [])))"
proof -
  obtain o' w' sp where c: "bh_Create sample_handler ''a'' (sample_world []) = (o', w', sp)"
    by (metis prod_cases3)
  have "outcome_code (fst (bh_Create sample_handler ''a'' (sample_world []))) = Some 200" by code_simp
  moreover have "valid_id ''a''" by code_simp
  ultimately show ?thesis using create_truthful [OF c] c by auto
qed

text \<open>
  C2. \<^verbatim>\<open>Delete\<close> answers 200 only for a bundle that is stored as \<^const>\<open>Deleted\<close> or \<^const>\<open>Canceled\<close> when it
  returns, and the answer is that stored bundle; unless it was so already, its data file is gone. This
  holds whichever calls fail.
\<close>

theorem delete_truthful:
  assumes "bh_Delete h i w = (o', w')" and "valid_id i" and "own_id h w i" and "outcome_code o' = Some 200"
  shows "\<exists>b d. slot_of h w' i = Stored b d \<and> (bStatus b = Deleted \<or> bStatus b = Canceled) \<and>
    o' = respond 200 (JsonBundle (marshal_bundle b)) \<and> (slot_of h w' i = slot_of h w i \<or> d = None)"
  using assms(1-3)
proof (cases rule: bh_Delete_cases)
  case (settled b)
  then have "slot_of h w' i = slot_of h w i"
    by (intro slot_of_cong) (simp_all add: same_except_def)
  with settled show ?thesis by auto
next
  case (removed b w1 w2 e)
  let ?b = "(presented w b (fs_get w (data_path (bh_workDir h) i)))\<lparr>bStatus := Deleted\<rparr>"
  have e: "e = None" using removed(7) assms(4) by (cases e) (auto simp: writeJSONError_def)
  have "fs_get w2 (bundle_dir (bh_workDir h) i) = Some Dir"
    using same_except_get [OF frame_calls(7) [OF removed(5)]] same_except_get [OF removed(4)] removed(1)
      assms(2) by (simp add: bundle_paths)
  then have "slot_of h w' i = Stored ?b (fs_get w2 (data_path (bh_workDir h) i))"
    using node_state.put_slot [of h ?b w2] removed(3,6) e assms(2) by auto
  then show ?thesis using remove_ok [OF removed(5)] removed(7) e by simp
qed (use assms(4) in simp_all)

theorem delete_truthful_witness:
  "\<exists>o' w' b d. bh_Delete sample_handler ''a'' (sample_world done_files) = (o', w') \<and>
     slot_of sample_handler w' ''a'' = Stored b d \<and> (bStatus b = Deleted \<or> bStatus b = Canceled)"
proof -
  let ?r = "bh_Delete sample_handler ''a'' (sample_world done_files)"
  have c: "?r = (fst ?r, snd ?r)" by simp
  have 1: "outcome_code (fst ?r) = Some 200" by code_simp
  have 2: "valid_id ''a''" by code_simp
  have 3: "own_id sample_handler (sample_world done_files) ''a''" by code_simp
  from delete_truthful [OF c 2 3 1] c show ?thesis by blast
qed

text \<open>
  C3. \<^verbatim>\<open>GetFile\<close> answers 200 only with the data file of a bundle whose stored status is \<^const>\<open>Done\<close>: it
  never serves the archive of a bundle that is still being collected, has failed or was deleted.
\<close>

theorem getfile_truthful:
  assumes "bh_GetFile h i w = (o', w')" and "outcome_code o' = Some 200"
    and "fs_get w (bundle_dir (bh_workDir h) i) = Some Dir"
  shows "\<exists>b c. slot_of h w i = Stored b (Some (File c)) \<and> bStatus b = Done \<and>
    o' = Respond \<lparr>rcode = 200, rheaders = download_headers i, rbody = FileBody c\<rparr>"
proof -
  obtain b e w1 where gs: "getBundleState h i w = (b, e, w1)" by (metis prod_cases3)
  have e: "e = None" and dn: "bStatus b = Done"
    and sv: "serve_file (download_headers i) (data_path (bh_workDir h) i) w1 = (o', w')"
    using assms(1,2) gs by (auto simp: bh_GetFile_def writeJSONError_def split: option.splits if_splits)
  from getBundleState_ok [OF gs [unfolded e] assms(3)] obtain b0 d where
    sl: "slot_of h w i = Stored b0 d" and b: "b = presented w b0 d" by blast
  have d: "d = fs_get w (data_path (bh_workDir h) i)"
    using sl by (auto simp: slot_of_def split: if_splits option.splits inode.splits prod.splits)
  have same: "fs_get w1 (data_path (bh_workDir h) i) = d"
    using same_except_get [OF getBundleState_frame [OF gs]] d by simp
  from sv assms(2) obtain c where "fs_get w1 (data_path (bh_workDir h) i) = Some (File c)"
    and "o' = Respond \<lparr>rcode = 200, rheaders = download_headers i, rbody = FileBody c\<rparr>"
    by (auto simp: serve_file_def split: option.splits inode.splits)
  then show ?thesis using sl b dn same by auto
qed

theorem getfile_truthful_witness:
  "\<exists>b. slot_of sample_handler (sample_world done_files) ''a'' = Stored b (Some (File (Zip []))) \<and> bStatus b = Done"
proof -
  let ?r = "bh_GetFile sample_handler ''a'' (sample_world done_files)"
  have c: "?r = (fst ?r, snd ?r)" by simp
  have 1: "outcome_code (fst ?r) = Some 200" by code_simp
  have 2: "fs_get (sample_world done_files) (bundle_dir (bh_workDir sample_handler) ''a'') = Some Dir" by code_simp
  have 3: "fs_get (sample_world done_files) (data_path (bh_workDir sample_handler) ''a'') = Some (File (Zip []))"
    by code_simp
  from getfile_truthful [OF c 1 2] obtain b c where
    "slot_of sample_handler (sample_world done_files) ''a'' = Stored b (Some (File c))" "bStatus b = Done" by blast
  with 3 show ?thesis
    by (auto simp: slot_of_def split: if_splits option.splits inode.splits prod.splits)
qed
end
