(* ===== verification/Transitions.thy ===== *)
theory Transitions
  imports Prelude
begin

text \<open>
  The contracts of the development's step relations. The goroutines of the node, the coordination of a cluster bundle, the
  fetchers of the legacy job and the puller are each modelled by a relation between states; what is proved
  of one step is lifted here, once, to whole courses of events: an invariant holds along every course, a falling
  measure bounds its length, and a course can only come to rest where the work is done.
\<close>

locale invariant_system =
  fixes step :: "'s \<Rightarrow> 's \<Rightarrow> bool"
    and inv :: "'s \<Rightarrow> bool"
  assumes step_inv: "step s t \<Longrightarrow> inv s \<Longrightarrow> inv t"
begin

lemma steps_inv: "step\<^sup>*\<^sup>* s t \<Longrightarrow> inv s \<Longrightarrow> inv t"
  by (induction rule: rtranclp_induct) (auto intro: step_inv)

text \<open>What no step changes while the invariant holds is the same at the end.\<close>

lemma steps_keep:
  assumes "step\<^sup>*\<^sup>* s t" and "inv s" and "\<And>u v. step u v \<Longrightarrow> inv u \<Longrightarrow> f v = f u"
  shows "f t = f s"
  using assms(1)
proof (induction rule: rtranclp_induct)
  case (step u v)
  then show ?case using assms(3) steps_inv assms(2) by metis
qed simp

end

locale terminating_system = invariant_system +
  fixes weight :: "'a \<Rightarrow> nat"
  assumes step_falls: "step s t \<Longrightarrow> inv s \<Longrightarrow> weight t < weight s"
begin

lemma steps_bounded: "(step ^^ k) s t \<Longrightarrow> inv s \<Longrightarrow> k + weight t \<le> weight s"
proof (induction k arbitrary: t)
  case (Suc k)
  then obtain u where u: "(step ^^ k) s u" "step u t" by auto
  have "inv u" using steps_inv u(1) Suc.prems(2) by (metis relpowp_imp_rtranclp)
  with Suc.IH [OF u(1) Suc.prems(2)] step_falls [OF u(2)] show ?case by simp
qed simp

lemma comes_to_rest: "inv s \<Longrightarrow> \<exists>t. step\<^sup>*\<^sup>* s t \<and> (\<nexists>u. step t u)"
proof (induction "weight s" arbitrary: s rule: less_induct)
  case less
  show ?case
  proof (cases "\<exists>u. step s u")
    case True
    then obtain u where u: "step s u" by blast
    from less(1) [OF step_falls [OF u less(2)] step_inv [OF u less(2)]] u show ?thesis
      by (meson converse_rtranclp_into_rtranclp)
  qed blast
qed

end

locale settling_system = terminating_system +
  fixes goal :: "'a \<Rightarrow> bool"
  assumes rest_goal: "inv s \<Longrightarrow> \<nexists>t. step s t \<Longrightarrow> goal s"
begin

text \<open>The full contract: at most so many steps, the goal can be reached, and every course that cannot go on has reached it.\<close>

lemma settles:
  assumes "inv s"
  shows "(\<forall>k t. (step ^^ k) s t \<longrightarrow> k \<le> weight s) \<and> (\<exists>t. step\<^sup>*\<^sup>* s t \<and> goal t) \<and>
    (\<forall>t. step\<^sup>*\<^sup>* s t \<and> (\<nexists>u. step t u) \<longrightarrow> goal t)"
proof (intro conjI allI impI)
  fix k t
  assume "(step ^^ k) s t"
  then show "k \<le> weight s" using steps_bounded [OF _ assms] by fastforce
next
  show "\<exists>t. step\<^sup>*\<^sup>* s t \<and> goal t" using comes_to_rest [OF assms] rest_goal steps_inv assms by metis
next
  fix t
  assume "step\<^sup>*\<^sup>* s t \<and> (\<nexists>u. step t u)"
  then show "goal t" using rest_goal steps_inv assms by metis
qed

end

end
