(* ===== verification/Bundle_Lifecycle.thy ===== *)
theory Bundle_Lifecycle
  imports Bundle_Store Transitions
begin

text \<open>
  The node's bundles over time. A request is served by one handler; \<^verbatim>\<open>Create\<close> leaves two goroutines
  behind, so collections run while other requests are served. The first part frames every operation
  and shows what one collection puts into its archive; the second is a step relation whose states
  hold the world, the \<^verbatim>\<open>Create\<close> requests between their check and their first effect, and the running
  collections. Its invariants hold in every reachable state.
\<close>

section \<open>Frames of the operations\<close>

lemma bh_Get_frame: "bh_Get h i w = (o', w') \<Longrightarrow> same_except {} w w'"
  by (auto simp: bh_Get_def split: prod.splits option.splits bool.splits
      dest!: bundleExists_Dir(1) getBundleState_frame intro: same_except_tick_left)

lemma bh_GetFile_frame: "bh_GetFile h i w = (o', w') \<Longrightarrow> same_except {} w w'"
  by (auto simp: bh_GetFile_def split: prod.splits option.splits if_splits
      dest!: serve_file_frame getBundleState_frame)

lemma list_states_frame: "list_states h es w = (bs, w') \<Longrightarrow> same_except {} w w'"
proof (induction h es w arbitrary: bs w' rule: list_states.induct)
  case (2 h n k es w)
  then show ?case
    by (auto split: if_splits prod.splits dest!: getBundleState_frame) (meson same_except_chain)
qed simp

lemma bh_List_frame: "bh_List h w = (o', w') \<Longrightarrow> same_except {} w w'"
  by (auto simp: bh_List_def split: prod.splits sum.splits
      dest!: list_states_frame frame_calls(4)) (meson same_except_chain)

lemma bh_Create_frame:
  assumes "bh_Create h i w = (o', w', sp)" and "valid_id i"
  shows "same_except (files_of h i \<union> set (ancestors (bundle_dir (bh_workDir h) i))) w w'"
  using assms
  by (auto simp: bh_Create_def split: prod.splits option.splits bool.splits
      dest!: bundleExists_Dir(1) same_except_create_new intro: same_except_tick_left)

lemma bh_Delete_frame:
  assumes "bh_Delete h i w = (o', w')" and "valid_id i" and "own_id h w i"
  shows "same_except (files_of h i) w w'"
  using assms
proof (cases rule: bh_Delete_cases)
  case refused
  then show ?thesis by (auto intro: same_except_mono)
next
  case (settled b)
  then show ?thesis by (auto intro: same_except_mono)
next
  case (removed b w1 w2 e)
  have "same_except (files_of h i) w w1" using removed(4) by (rule same_except_mono) simp
  moreover have "same_except (files_of h i) w1 w2"
    using frame_calls(7) [OF removed(5)] by (rule same_except_mono) (simp add: files_of_def)
  moreover have "same_except (files_of h i) w2 w'"
    using node_state.put_frame_files [OF removed(6)] removed(3) by simp
  ultimately show ?thesis by (blast intro: same_except_chain)
qed

lemma slot_of_create_other:
  assumes "same_except (files_of h i \<union> set (ancestors (bundle_dir (bh_workDir h) i))) w w'"
    and "valid_id i" and "valid_id j" and "i \<noteq> j"
  shows "slot_of h w' j = slot_of h w j"
proof (rule slot_of_cong)
  have st: "state_path (bh_workDir h) j \<notin> set (ancestors (bundle_dir (bh_workDir h) i))"
    and dt: "data_path (bh_workDir h) j \<notin> set (ancestors (bundle_dir (bh_workDir h) i))"
    using ancestors_not_file [OF assms(2,3)] by (simp_all add: state_path_def data_path_def del: join.simps)
  note get = same_except_get [OF assms(1)]
  show "fs_get w' (bundle_dir (bh_workDir h) j) = fs_get w (bundle_dir (bh_workDir h) j)"
    using assms(2-) ancestors_not_dir [OF assms(2-)] by (intro get) (auto simp: files_of_def bundle_paths)
  show "fs_get w' (state_path (bh_workDir h) j) = fs_get w (state_path (bh_workDir h) j)"
    using assms(2-) st by (intro get) (auto simp: files_of_def bundle_paths)
  show "fs_get w' (data_path (bh_workDir h) j) = fs_get w (data_path (bh_workDir h) j)"
    using assms(2-) dt by (intro get) (auto simp: files_of_def bundle_paths)
qed

lemma slot_of_same: "same_except {} w w' \<Longrightarrow> slot_of h w' j = slot_of h w j"
  by (rule slot_of_cong) (simp_all add: same_except_def)

section \<open>What a collection gathers\<close>

lemma zip_calls:
  "zip_Create n z w = (e, z', w') \<Longrightarrow> w' = tick w" "zip_Copy s z w = (e, z', w') \<Longrightarrow> w' = tick w"
  by (auto simp: zip_Create_def zip_Copy_def split: option.splits)

lemma collect_frame: "collect env c z w = Inr (e, z', w') \<Longrightarrow> same_except {} w w'"
  by (auto simp: collect_def Let_def split: collected.splits prod.splits option.splits if_splits
      dest!: zip_calls)

lemma collect_loop_frame: "collect_loop env ctx k cs errs z w = Inr (errs', z', w') \<Longrightarrow> same_except {} w w'"
proof (induction cs arbitrary: k errs z w)
  case (Cons c cs)
  show ?case
  proof (cases "ctx k")
    case None
    with Cons.prems obtain e z1 w1 where c: "collect env c z w = Inr (e, z1, w1)" and
      l: "collect_loop env ctx (Suc k) cs
        (case e of Some e \<Rightarrow> if Optional c then errs else errs @ [e] | None \<Rightarrow> errs) z1 w1 = Inr (errs', z', w')"
      by (auto split: sum.splits prod.splits)
    show ?thesis using collect_frame [OF c] Cons.IH [OF l] by (rule same_except_chain)
  qed (use Cons.prems in simp)
qed simp

lemma add_summary_frame: "add_summary errs z w = (errs', z', w') \<Longrightarrow> same_except {} w w'"
  by (auto simp: add_summary_def split: if_splits prod.splits option.splits dest!: zip_calls)

text \<open>Closing the archive touches the data file only, and only when it is still there.\<close>

lemma flush_zip_get:
  "fs_get (flush_zip p b w) q = (if q = p \<and> is_file w p then Some (File b) else fs_get w q)"
  by (simp add: flush_zip_def)

lemma flush_zip_oracle [simp]:
  "fault (flush_zip p b w) = fault w" "clock (flush_zip p b w) = clock w" "enc (flush_zip p b w) = enc w"
  "dirSize (flush_zip p b w) = dirSize w" "calls (flush_zip p b w) = calls w"
  by (simp_all add: flush_zip_def)

lemma is_file_tick [simp]: "is_file (tick w) p = is_file w p"
  by (simp add: is_file_def)

lemma close_all_frame: "close_all p errs z w = (errs', w') \<Longrightarrow> same_except (if is_file w p then {p} else {}) w w'"
  by (auto simp: close_all_def same_except_def flush_zip_get split: option.splits)

lemma collectAll_frame:
  assumes "collectAll env ctx p cs w = Inr (errs, w')"
  shows "same_except (if is_file w p then {p} else {}) w w'"
proof -
  from assms obtain e1 z1 w1 e2 z2 w2 where
    l: "collect_loop env ctx 0 cs [] [] w = Inr (e1, z1, w1)" and s: "add_summary e1 z1 w1 = (e2, z2, w2)" and
    c: "close_all p e2 z2 w2 = (errs, w')"
    by (auto simp: collectAll_def split: sum.splits prod.splits)
  have 1: "same_except {} w w2"
    using collect_loop_frame [OF l] add_summary_frame [OF s] by (rule same_except_chain)
  then have "is_file w2 p = is_file w p" by (simp add: is_file_def same_except_def)
  then show ?thesis using same_except_trans [OF 1 close_all_frame [OF c]] by simp
qed

text \<open>
  The reference for a collection without I/O faults: a collector that fails and is not optional
  contributes an error and no entry; every other one contributes an entry that holds its data, or
  the error's text when it is optional; a stream that breaks off also leaves an error, unless optional.
\<close>

definition gathered :: "collect_env \<Rightarrow> Collector \<Rightarrow> (string \<times> blob) list \<times> string list" where
  "gathered env c =
     (case Collect env c of
        CollectPanic p \<Rightarrow> ([], [])
      | Collected rc (Some e) \<Rightarrow>
          if Optional c then ([(Name c, Bytes e)], [])
          else ([], [msg [''could not collect '', Name c, '': '', e]])
      | Collected rc None \<Rightarrow>
          ([(Name c, Bytes (fst (the rc)))],
           case snd (the rc) of
             Some e \<Rightarrow> if Optional c then [] else [msg [''could not copy '', Name c, '' data to zip: '', e]]
           | None \<Rightarrow> []))"

definition archive_of :: "collect_env \<Rightarrow> Collector list \<Rightarrow> (string \<times> blob) list \<times> string list" where
  "archive_of env cs =
     (let es = concat (map (fst \<circ> gathered env) cs); errs = concat (map (snd \<circ> gathered env) cs) in
      (es @ (if errs = [] then []
             else [(summaryErrorsReportFileName, Bytes (str_join [CHR 0x0A] errs))]), errs))"

definition no_panic :: "collect_env \<Rightarrow> Collector \<Rightarrow> bool" where
  "no_panic env c = (case Collect env c of CollectPanic _ \<Rightarrow> False | Collected _ _ \<Rightarrow> True)"

lemma collect_calm:
  assumes "calm w" and "no_panic env c"
  shows "\<exists>e w'. collect env c z w = Inr (e, z @ fst (gathered env c), w') \<and> calm w' \<and>
    (case e of Some m \<Rightarrow> if Optional c then [] else [m] | None \<Rightarrow> []) = snd (gathered env c)"
proof (cases "Collect env c")
  case (CollectPanic p)
  then show ?thesis using assms(2) by (simp add: no_panic_def)
next
  case (Collected rc err)
  have "failing w = None" "failing (tick w) = None" using assms(1) by (simp_all add: calm_failing)
  then show ?thesis
    using assms(1) Collected
    by (cases err) (auto simp: collect_def gathered_def zip_Create_def zip_Copy_def stream_of_def Let_def
        split: option.splits prod.splits)
qed

lemma collect_loop_calm:
  assumes "calm w" and "list_all (no_panic env) cs" and "ctx = (\<lambda>_. None)"
  shows "\<exists>w'. collect_loop env ctx k cs errs z w =
    Inr (errs @ concat (map (snd \<circ> gathered env) cs), z @ concat (map (fst \<circ> gathered env) cs), w') \<and> calm w'"
  using assms(1,2)
proof (induction cs arbitrary: k errs z w)
  case (Cons c cs)
  from collect_calm [of w env c z] Cons.prems obtain e w1 where
    c: "collect env c z w = Inr (e, z @ fst (gathered env c), w1)" and cw: "calm w1" and
    e: "(case e of Some m \<Rightarrow> if Optional c then [] else [m] | None \<Rightarrow> []) = snd (gathered env c)" by auto
  have "(case e of Some m \<Rightarrow> if Optional c then errs else errs @ [m] | None \<Rightarrow> errs) = errs @ snd (gathered env c)"
    using e by (cases e) auto
  then show ?case
    using Cons.IH [OF cw, of "Suc k" "errs @ snd (gathered env c)" "z @ fst (gathered env c)"]
      Cons.prems c assms(3) by simp
qed simp

lemma add_summary_calm:
  assumes "calm w"
  shows "\<exists>w'. add_summary errs z w =
    (errs, z @ (if errs = [] then [] else [(summaryErrorsReportFileName, Bytes (str_join [CHR 0x0A] errs))]), w') \<and>
    calm w' \<and> fs_get w' = fs_get w"
proof -
  have "failing w = None" "failing (tick w) = None" using assms by (simp_all add: calm_failing)
  then show ?thesis
    using assms by (auto simp: add_summary_def zip_Create_def zip_Copy_def stream_of_def)
qed

lemma collectAll_calm:
  assumes "calm w" and "list_all (no_panic env) cs" and "ctx = (\<lambda>_. None)" and "is_file w p"
  shows "\<exists>w'. collectAll env ctx p cs w = Inr (snd (archive_of env cs), w') \<and> calm w' \<and>
    same_except {p} w w' \<and> fs_get w' p = Some (File (Zip (fst (archive_of env cs))))"
proof -
  let ?es = "concat (map (fst \<circ> gathered env) cs)" and ?errs = "concat (map (snd \<circ> gathered env) cs)"
  from collect_loop_calm [OF assms(1-3), where k = 0 and errs = "[]" and z = "[]"] obtain w1 where
    l: "collect_loop env ctx 0 cs [] [] w = Inr (?errs, ?es, w1)" and c1: "calm w1" by auto
  have f1: "is_file w1 p" using collect_loop_frame [OF l] assms(4) by (simp add: is_file_def same_except_def)
  from add_summary_calm [OF c1, of ?errs ?es] obtain w2 where
    s: "add_summary ?errs ?es w1 = (snd (archive_of env cs), fst (archive_of env cs), w2)"
    and f2: "is_file w2 p" and c2: "calm w2"
    using f1 by (auto simp: archive_of_def is_file_def Let_def simp del: concat_eq_Nil_conv)
  have "failing w2 = None" and "\<And>b. failing (flush_zip p b (tick w2)) = None"
    using c2 by (simp_all add: calm_def failing_def)
  then have cl: "close_all p (snd (archive_of env cs)) (fst (archive_of env cs)) w2 =
      (snd (archive_of env cs), tick (flush_zip p (Zip (fst (archive_of env cs))) (tick w2)))"
    by (simp add: close_all_def)
  then have ca: "collectAll env ctx p cs w =
      Inr (snd (archive_of env cs), tick (flush_zip p (Zip (fst (archive_of env cs))) (tick w2)))"
    using l s by (simp add: collectAll_def)
  have "same_except {p} w (tick (flush_zip p (Zip (fst (archive_of env cs))) (tick w2)))"
    using collectAll_frame [OF ca] assms(4) by simp
  then show ?thesis using ca f2 c2 by (auto simp: flush_zip_get calm_def)
qed

section \<open>Requests and running collections\<close>

text \<open>
  A collection: the bundle its goroutines hold, the errors \<^verbatim>\<open>collectAll\<close> has put on the channel, and
  whether the second goroutine still waits for them (it stops waiting when the deadline passes).
\<close>

record job =
  j_bundle :: Bundle
  j_result :: "string list option"
  j_waiting :: bool

record node_state =
  ns_world :: world
  ns_checked :: "string list"
  ns_jobs :: "job list"

inductive node_step :: "BundleHandler \<Rightarrow> collect_env \<Rightarrow> node_state \<Rightarrow> node_state \<Rightarrow> bool"
  for h :: BundleHandler and env :: collect_env where
  request: "serve_node h q (ns_world s) = (o', w', None) \<Longrightarrow> (\<forall>i. q \<noteq> PutBundle i) \<Longrightarrow>
    pred_option valid_id (request_id q) \<Longrightarrow> node_step h env s (s\<lparr>ns_world := w'\<rparr>)"
| check: "bundleExists (bh_workDir h) i (ns_world s) = (r, w') \<Longrightarrow> valid_id i \<Longrightarrow>
    node_step h env s (s\<lparr>ns_world := w', ns_checked := (if r = Some False then [i] else []) @ ns_checked s\<rparr>)"
| create: "create_new h i (ns_world s) = (o', w', sp) \<Longrightarrow> i \<in> set (ns_checked s) \<Longrightarrow>
    node_step h env s (s\<lparr>ns_world := w', ns_checked := remove1 i (ns_checked s),
      ns_jobs := ns_jobs s @ (case sp of None \<Rightarrow> []
        | Some b \<Rightarrow> [\<lparr>j_bundle = b, j_result = None, j_waiting = True\<rparr>])\<rparr>)"
| collected: "k < length (ns_jobs s) \<Longrightarrow> j = ns_jobs s ! k \<Longrightarrow> j_result j = None \<Longrightarrow>
    collectAll env ctx (data_path (bh_workDir h) (bID (j_bundle j))) (bh_collectors h) (ns_world s) = Inr (errs, w') \<Longrightarrow>
    node_step h env s (s\<lparr>ns_world := w', ns_jobs := (ns_jobs s)[k := j\<lparr>j_result := Some errs\<rparr>]\<rparr>)"
| finish: "k < length (ns_jobs s) \<Longrightarrow> j = ns_jobs s ! k \<Longrightarrow> j_result j = Some errs \<Longrightarrow> j_waiting j \<Longrightarrow>
    node_step h env s (s\<lparr>ns_world := finish_job h (j_bundle j) errs (ns_world s),
      ns_jobs := (ns_jobs s)[k := j\<lparr>j_waiting := False\<rparr>]\<rparr>)"
| deadline: "k < length (ns_jobs s) \<Longrightarrow>
    node_step h env s (s\<lparr>ns_jobs := (ns_jobs s)[k := (ns_jobs s ! k)\<lparr>j_waiting := False\<rparr>]\<rparr>)"
| restart: "node_step h env s (s\<lparr>ns_checked := [], ns_jobs := []\<rparr>)"

inductive node_run :: "BundleHandler \<Rightarrow> collect_env \<Rightarrow> node_state \<Rightarrow> node_state \<Rightarrow> bool"
  for h :: BundleHandler and env :: collect_env and s :: node_state where
  start: "node_run h env s s"
| step: "node_run h env s t \<Longrightarrow> node_step h env t u \<Longrightarrow> node_run h env s u"

text \<open>
  The invariant: state files name their own bundle, and a running collection belongs to a bundle
  that was written as started and whose directory exists.
\<close>

definition job_ok :: "BundleHandler \<Rightarrow> world \<Rightarrow> job \<Rightarrow> bool" where
  "job_ok h w j \<longleftrightarrow> valid_id (bID (j_bundle j)) \<and> bStatus (j_bundle j) = Started \<and>
     fs_get w (bundle_dir (bh_workDir h) (bID (j_bundle j))) = Some Dir"

definition node_inv :: "BundleHandler \<Rightarrow> node_state \<Rightarrow> bool" where
  "node_inv h s \<longleftrightarrow> owns h (ns_world s) \<and>
     (\<forall>i\<in>set (ns_checked s). valid_id i) \<and> (\<forall>j\<in>set (ns_jobs s). job_ok h (ns_world s) j)"

section \<open>Every step keeps the invariant\<close>

lemma owns_read_only: "same_except {} w w' \<Longrightarrow> owns h w \<Longrightarrow> owns h w'"
  by (rule owns_same) auto

lemma owns_create_new:
  assumes "create_new h i w = (o', w', sp)" and "valid_id i" and "owns h w"
  shows "owns h w'"
proof -
  have mk: "owns h w2" if "sys_mkdir_all (bundle_dir (bh_workDir h) i) w = (r, w2)" for r w2
    using that assms(3) by (auto simp: sys_mkdir_all_def owns_def make_dirs_get split: option.splits list.splits if_splits)
  have cr: "owns h w1 \<longrightarrow> owns h w2" if "sys_create (data_path (bh_workDir h) i) w1 = (r, w2)" for r w1 w2
    using owns_same [OF _ frame_calls(5) [OF that]] assms(2) by (simp add: bundle_paths)
  have st: "bID b = i \<longrightarrow> owns h w1 \<longrightarrow> owns h w2" if "writeStateFile h b w1 = (d, e, w2)" for b d e w1 w2
    using node_state.put_owns [OF that] assms(2) by simp
  show ?thesis
    using assms(1)
    by (auto simp: create_new_def Let_def split: prod.splits option.splits
        dest!: mk cr st read_only_calls(4))
qed

lemma owns_serve:
  assumes "serve_node h q w = (o', w', sp)" and "pred_option valid_id (request_id q)" and "owns h w"
  shows "owns h w'"
proof (cases q)
  case (PutBundle i)
  then show ?thesis
    using assms by (auto simp: bh_Create_def split: prod.splits option.splits bool.splits
        dest!: bundleExists_Dir(1) intro: owns_create_new)
next
  case (DeleteBundle i)
  with assms obtain r where d: "bh_Delete h i w = (r, w')" and v: "valid_id i" by (auto split: prod.splits)
  from d v owns_own_id [OF assms(3) v] show ?thesis
  proof (cases rule: bh_Delete_cases)
    case (removed b w1 w2 e)
    have "owns h w1" using removed(4) assms(3) by (rule owns_read_only)
    then have "owns h w2" using frame_calls(7) [OF removed(5)] by (rule owns_same) (use v in \<open>simp add: bundle_paths\<close>)
    then show ?thesis using node_state.put_owns [OF removed(6)] removed(3) v by simp
  qed (use assms(3) v in \<open>auto intro: owns_read_only owns_same simp: bundle_paths\<close>)
qed (use assms in \<open>auto split: prod.splits intro: owns_read_only bh_Get_frame bh_GetFile_frame bh_List_frame\<close>)

text \<open>No operation removes the directory of a bundle.\<close>

definition keeps_dirs :: "BundleHandler \<Rightarrow> world \<Rightarrow> world \<Rightarrow> bool" where
  "keeps_dirs h w w' = (\<forall>i. valid_id i \<longrightarrow> fs_get w (bundle_dir (bh_workDir h) i) = Some Dir \<longrightarrow>
     fs_get w' (bundle_dir (bh_workDir h) i) = Some Dir)"

lemma keeps_dirs_trans: "keeps_dirs h w w1 \<Longrightarrow> keeps_dirs h w1 w2 \<Longrightarrow> keeps_dirs h w w2"
  by (simp add: keeps_dirs_def)

lemma keeps_dirs_files: "same_except (files_of h i) w w' \<Longrightarrow> valid_id i \<Longrightarrow> keeps_dirs h w w'"
  using same_except_bundle_dir by (auto simp: keeps_dirs_def)

lemma keeps_dirs_same: "same_except {} w w' \<Longrightarrow> keeps_dirs h w w'"
  by (simp add: keeps_dirs_def same_except_def)

lemma keeps_dirs_create_new:
  assumes "create_new h i w = (o', w', sp)" and "valid_id i"
  shows "keeps_dirs h w w'"
proof -
  have mk: "keeps_dirs h w w2" if "sys_mkdir_all (bundle_dir (bh_workDir h) i) w = (r, w2)" for r w2
    using that by (auto simp: sys_mkdir_all_def keeps_dirs_def make_dirs_get split: option.splits list.splits)
  have cr: "keeps_dirs h w1 w2" if "sys_create (data_path (bh_workDir h) i) w1 = (r, w2)" for r w1 w2
    by (rule keeps_dirs_files [OF same_except_mono [OF frame_calls(5) [OF that]] assms(2)]) (simp add: files_of_def)
  have st: "bID b = i \<longrightarrow> keeps_dirs h w1 w2" if "writeStateFile h b w1 = (d, e, w2)" for b d e w1 w2
    using keeps_dirs_files [OF node_state.put_frame_files [OF that]] assms(2) by simp
  have tk: "keeps_dirs h (tick w1) w2 = keeps_dirs h w1 w2" for w1 w2
    by (simp add: keeps_dirs_def)
  show ?thesis
    using assms(1)
    by (auto simp: create_new_def Let_def tk split: prod.splits option.splits
        dest!: mk cr st read_only_calls(4)) (meson keeps_dirs_trans)+
qed

lemma keeps_dirs_serve:
  assumes "serve_node h q w = (o', w', sp)" and "pred_option valid_id (request_id q)" and "owns h w"
  shows "keeps_dirs h w w'"
proof (cases q)
  case (PutBundle i)
  then show ?thesis
    using assms keeps_dirs_same [of w "tick w" h] by (auto simp: bh_Create_def split: prod.splits option.splits bool.splits
        dest!: bundleExists_Dir(1) keeps_dirs_create_new intro: keeps_dirs_trans)
next
  case (DeleteBundle i)
  with assms owns_own_id [OF assms(3)] show ?thesis
    by (auto split: prod.splits intro: keeps_dirs_files bh_Delete_frame)
qed (use assms in \<open>auto split: prod.splits intro: keeps_dirs_same bh_Get_frame bh_GetFile_frame bh_List_frame\<close>)

lemma slot_Stored_Dir: "slot_of h w i = Stored b d \<Longrightarrow> fs_get w (bundle_dir (bh_workDir h) i) = Some Dir"
  by (simp add: slot_of_def split: if_splits)

lemma job_ok_keep: "keeps_dirs h w w' \<Longrightarrow> job_ok h w j \<Longrightarrow> job_ok h w' j"
  by (simp add: keeps_dirs_def job_ok_def)

lemma job_ok_update [simp]:
  "job_ok h w (j\<lparr>j_result := r\<rparr>) = job_ok h w j" "job_ok h w (j\<lparr>j_waiting := b\<rparr>) = job_ok h w j"
  by (simp_all add: job_ok_def)

lemma finish_job_write:
  obtains d e b where "writeStateFile h b (tick w) = (d, e, finish_job h j errs w)" and "bID b = bID j"
    and "bStatus b = Done" and "bErrors b = errs" and "bStarted b = bStarted j" and "bSize b = bSize j"
proof -
  let ?b = "j\<lparr>bErrors := errs, bStatus := Done, bStopped := clock w (calls w)\<rparr>"
  obtain d e w' where ws: "writeStateFile h ?b (tick w) = (d, e, w')" by (metis prod_cases3)
  then have "finish_job h j errs w = w'" by (simp add: finish_job_def sys_now_def)
  with ws that [of ?b d e] show ?thesis by simp
qed

lemma finish_job_frame: "same_except (files_of h (bID j)) w (finish_job h j errs w)"
  by (rule finish_job_write [of h w j errs])
    (metis node_state.put_frame_files same_except_tick_left)

lemma collected_frame:
  "collectAll env ctx (data_path (bh_workDir h) i) cs w = Inr (errs, w') \<Longrightarrow> same_except (files_of h i) w w'"
  by (rule same_except_mono [OF collectAll_frame]) (auto simp: files_of_def)

text \<open>What one step does to the files: it keeps ownership and every bundle's directory.\<close>

lemma node_step_world:
  assumes "node_step h env s t" and "node_inv h s"
  shows "owns h (ns_world t) \<and> keeps_dirs h (ns_world s) (ns_world t)"
proof -
  have ow: "owns h (ns_world s)" and ch: "\<And>i. i \<in> set (ns_checked s) \<Longrightarrow> valid_id i"
    and jb: "\<And>k. k < length (ns_jobs s) \<Longrightarrow> valid_id (bID (j_bundle (ns_jobs s ! k)))"
    using assms(2) by (auto simp: node_inv_def job_ok_def)
  from assms(1) show ?thesis
  proof cases
    case (request q o' w')
    then show ?thesis using ow by (auto intro: owns_serve keeps_dirs_serve)
  next
    case (check i r w')
    then show ?thesis using bundleExists_Dir(1) [OF check(2)] ow by (auto intro: keeps_dirs_same)
  next
    case (create i o' w' sp)
    then show ?thesis using ow ch by (auto intro: owns_create_new keeps_dirs_create_new)
  next
    case (collected k j ctx errs w')
    then show ?thesis
      using jb [OF collected(2)] ow collected_frame [OF collected(5)] collectAll_frame [OF collected(5)]
      by (auto simp: bundle_paths intro: keeps_dirs_files owns_same split: if_splits)
  next
    case (finish k j errs)
    note v = jb [OF finish(2), folded finish(3)]
    obtain d e b where "writeStateFile h b (tick (ns_world s)) = (d, e, finish_job h (j_bundle j) errs (ns_world s))"
      and "bID b = bID (j_bundle j)" by (rule finish_job_write)
    then have "owns h (finish_job h (j_bundle j) errs (ns_world s))"
      using node_state.put_owns v ow by fastforce
    then show ?thesis using finish keeps_dirs_files [OF finish_job_frame v] by simp
  qed (use ow in \<open>auto intro: keeps_dirs_same\<close>)
qed

lemma node_step_inv:
  assumes "node_step h env s t" and "node_inv h s"
  shows "node_inv h t"
proof -
  note wd = node_step_world [OF assms]
  have jb: "\<forall>j\<in>set (ns_jobs s). job_ok h (ns_world t) j" and ch: "\<forall>i\<in>set (ns_checked s). valid_id i"
    using assms(2) wd job_ok_keep by (auto simp: node_inv_def)
  from assms(1) show ?thesis
  proof cases
    case (create i o' w' sp)
    have "valid_id i" using create ch by simp
    moreover have "set (remove1 i (ns_checked s)) \<subseteq> set (ns_checked s)" by (rule set_remove1_subset)
    ultimately show ?thesis
      using create create_new_spawns [of h i "ns_world s" o' w'] slot_Stored_Dir [of h w' i] jb ch wd
      by (auto simp: node_inv_def job_ok_def split: option.splits)
  qed (use wd jb ch in \<open>auto simp: node_inv_def dest!: set_update_subset_insert [THEN subsetD]\<close>)
qed

interpretation node_runs: invariant_system "node_step h env" "node_inv h" for h env
  by unfold_locales (rule node_step_inv)

lemma node_run_steps: "node_run h env s t \<longleftrightarrow> (node_step h env)\<^sup>*\<^sup>* s t"
proof
  assume "node_run h env s t"
  then show "(node_step h env)\<^sup>*\<^sup>* s t" by (induction rule: node_run.induct) auto
next
  assume "(node_step h env)\<^sup>*\<^sup>* s t"
  then show "node_run h env s t" by (induction rule: rtranclp_induct) (auto intro: node_run.intros)
qed

section \<open>A bundle whose state nobody will write\<close>

text \<open>
  A bundle is unattended when no \<^verbatim>\<open>Create\<close> is about to make it and no goroutine waits to store its result, because the bundle was
  stored before, or the deadline has passed, or the daemon was restarted. \<^verbatim>\<open>collectAll\<close> may still be writing its archive.
\<close>

definition unattended :: "string \<Rightarrow> node_state \<Rightarrow> bool" where
  "unattended i s = (i \<notin> set (ns_checked s) \<and> (\<forall>j\<in>set (ns_jobs s). bID (j_bundle j) = i \<longrightarrow> \<not> j_waiting j))"

definition collecting :: "string \<Rightarrow> node_state \<Rightarrow> bool" where
  "collecting i s = (\<exists>j\<in>set (ns_jobs s). bID (j_bundle j) = i \<and> j_result j = None)"

lemma slot_Stored_state:
  "slot_of h w i = Stored b d \<Longrightarrow> fs_get w (state_path (bh_workDir h) i) \<noteq> Some Dir \<and>
     fs_get w (data_path (bh_workDir h) i) = d"
  by (auto simp: slot_of_def split: if_splits option.splits inode.splits prod.splits)

lemma bh_Delete_calm:
  assumes "bh_Delete h i w = (o', w')" and "valid_id i" and "own_id h w i" and "calm w"
  shows "slot_of h w' i = slot_of h w i \<or> (\<exists>b. slot_of h w' i = Stored b None \<and> bStatus b = Deleted)"
  using assms(1-3)
proof (cases rule: bh_Delete_cases)
  case (removed b w1 w2 e)
  let ?b = "(presented w b (fs_get w (data_path (bh_workDir h) i)))\<lparr>bStatus := Deleted\<rparr>"
  have fr: "same_except {data_path (bh_workDir h) i} w w2"
    using same_except_trans [OF removed(4) frame_calls(7) [OF removed(5)]] by simp
  note g = same_except_get [OF fr]
  have D: "fs_get w2 (bundle_dir (bh_workDir h) i) = Some Dir"
    using g removed(1) assms(2) by (simp add: bundle_paths)
  have "fs_get w2 (state_path (bh_workDir h) i) \<noteq> Some Dir"
    using g slot_Stored_state [OF removed(2)] assms(2) by (simp add: bundle_paths)
  then have "e = None"
    using node_state.put_calm [of w2 ?b h] D removed(3,6) assms(2,4) calm_same [OF fr] by simp
  then have "slot_of h w' i = Stored ?b (fs_get w2 (data_path (bh_workDir h) i))"
    using node_state.put_slot [of h ?b w2] removed(3,6) D assms(2) by simp
  then show ?thesis using remove_ok [OF removed(5)] by simp
qed (auto simp: slot_of_same)

lemma node_step_calm: "node_step h env s t \<Longrightarrow> node_inv h s \<Longrightarrow> calm (ns_world t) = calm (ns_world s)"
proof -
  assume st: "node_step h env s t" and inv: "node_inv h s"
  have ow: "owns h (ns_world s)" and ch: "\<And>i. i \<in> set (ns_checked s) \<Longrightarrow> valid_id i"
    using inv by (auto simp: node_inv_def)
  from st show ?thesis
  proof cases
    case (request q o' w')
    then show ?thesis
      using owns_own_id [OF ow]
      by (cases q) (auto split: prod.splits dest!: bh_Delete_frame bh_Get_frame bh_GetFile_frame bh_List_frame calm_same)
  next
    case (check i r w')
    then show ?thesis using bundleExists_Dir(1) [OF check(2)] by simp
  next
    case (create i o' w' sp)
    then show ?thesis using calm_same [OF same_except_create_new [OF create(2)]] ch by simp
  next
    case (collected k j ctx errs w')
    then show ?thesis using calm_same [OF collected_frame [OF collected(5)]] by simp
  next
    case (finish k j errs)
    then show ?thesis using calm_same [OF finish_job_frame] by simp
  qed auto
qed

lemma slot_Stored_update:
  assumes "slot_of h w i = Stored b d" and "valid_id i"
    and "same_except (if is_file w (data_path (bh_workDir h) i) then {data_path (bh_workDir h) i} else {}) w w'"
  shows "\<exists>d'. slot_of h w' i = Stored b d' \<and> (d = None \<longrightarrow> d' = None)"
proof -
  note g = same_except_get [OF assms(3)]
  have "fs_get w' (bundle_dir (bh_workDir h) i) = fs_get w (bundle_dir (bh_workDir h) i)"
    and "fs_get w' (state_path (bh_workDir h) i) = fs_get w (state_path (bh_workDir h) i)"
    using assms(2) by (auto intro!: g simp: bundle_paths split: if_splits)
  moreover have "fs_get w' (data_path (bh_workDir h) i) = None" if "d = None"
    using g slot_Stored_state [OF assms(1)] that by (simp add: is_file_def)
  ultimately show ?thesis using assms(1) slot_Stored_state [OF assms(1)]
    by (auto simp: slot_of_def split: if_splits option.splits inode.splits prod.splits)
qed

lemma unattended_step:
  assumes "node_step h env s t" and "node_inv h s" and "unattended i s" and "calm (ns_world s)" and "valid_id i"
    and "slot_of h (ns_world s) i = Stored b d"
  shows "unattended i t \<and> (collecting i t \<longrightarrow> collecting i s) \<and>
    ((\<exists>d'. slot_of h (ns_world t) i = Stored b d' \<and> (collecting i s \<or> d' = d) \<and> (d = None \<longrightarrow> d' = None)) \<or>
     (\<exists>b'. slot_of h (ns_world t) i = Stored b' None \<and> bStatus b' = Deleted))"
proof -
  have ow: "owns h (ns_world s)" and ch: "\<And>i. i \<in> set (ns_checked s) \<Longrightarrow> valid_id i"
    and jb: "\<And>k. k < length (ns_jobs s) \<Longrightarrow> valid_id (bID (j_bundle (ns_jobs s ! k)))"
    and nj: "\<And>k. k < length (ns_jobs s) \<Longrightarrow> j_waiting (ns_jobs s ! k) \<Longrightarrow> bID (j_bundle (ns_jobs s ! k)) \<noteq> i"
    using assms(2,3) by (auto simp: node_inv_def job_ok_def unattended_def)
  note upd = set_update_subset_insert [THEN subsetD]
  from assms(1) show ?thesis
  proof cases
    case (request q o' w')
    show ?thesis
    proof (cases "\<exists>j. q = DeleteBundle j \<and> j \<noteq> i")
      case True
      then obtain j where j: "q = DeleteBundle j" "j \<noteq> i" by blast
      then have "same_except (files_of h j) (ns_world s) w'" and "valid_id j"
        using request owns_own_id [OF ow] by (auto split: prod.splits intro: bh_Delete_frame)
      then show ?thesis using request slot_of_other [of h j "ns_world s" w' i] j assms(3,5,6) by (simp add: unattended_def collecting_def)
    next
      case False
      then show ?thesis
        using request assms(3,4,6) owns_own_id [OF ow assms(5)] bh_Delete_calm [of h i "ns_world s" _ w'] assms(5)
        by (cases q) (auto simp: unattended_def collecting_def split: prod.splits
            dest!: bh_Get_frame bh_GetFile_frame bh_List_frame slot_of_same [of _ _ h i])
    qed
  next
    case (check k r w')
    have "r \<noteq> Some False" if "k = i"
      using bundleExists_Dir(3) [OF check(2)] slot_Stored_Dir [OF assms(6)] that by auto
    then show ?thesis using check bundleExists_Dir(1) [OF check(2)] assms(3,6) by (auto simp: unattended_def collecting_def)
  next
    case (create k o' w' sp)
    then have k: "valid_id k" "k \<noteq> i" using ch assms(3) by (auto simp: unattended_def)
    then show ?thesis
      using create slot_of_create_other [OF same_except_create_new [OF create(2)]] create_new_spawns [of h k] assms(3,5,6)
      by (auto simp: unattended_def collecting_def split: option.splits dest: notin_set_remove1)
  next
    case (collected k j ctx errs w')
    have m: "j \<in> set (ns_jobs s)" using collected by simp
    have "unattended i t \<and> (collecting i t \<longrightarrow> collecting i s)"
      using collected m assms(3) by (auto simp: unattended_def collecting_def dest!: upd)
    moreover have "\<exists>d'. slot_of h w' i = Stored b d' \<and> (collecting i s \<or> d' = d) \<and> (d = None \<longrightarrow> d' = None)"
    proof (cases "bID (j_bundle j) = i")
      case True
      then have "collecting i s" using collected(4) m by (auto simp: collecting_def)
      then show ?thesis using slot_Stored_update [OF assms(6,5)] collectAll_frame [OF collected(5)] True by auto
    next
      case False
      then show ?thesis
        using slot_of_other [OF collected_frame [OF collected(5)]] jb [OF collected(2)] collected(3) assms(5,6) by auto
    qed
    ultimately show ?thesis using collected(1) by simp
  next
    case (finish k j errs)
    have "j \<in> set (ns_jobs s)" using finish by simp
    then have "unattended i t \<and> (collecting i t \<longrightarrow> collecting i s)"
      using finish assms(3) by (auto simp: unattended_def collecting_def dest!: upd)
    then show ?thesis
      using finish slot_of_other [OF finish_job_frame] jb [OF finish(2)] nj [OF finish(2)] assms(5,6) by simp
  next
    case (deadline k)
    then have "ns_jobs s ! k \<in> set (ns_jobs s)" by simp
    then show ?thesis
      using deadline(1) assms(3,6) by (auto simp: unattended_def collecting_def dest!: upd)
  qed (use assms(3,6) in \<open>auto simp: unattended_def collecting_def\<close>)
qed

text \<open>The record of the bundle as it is, with its data file unless that is being written, or deleted.\<close>

definition kept_or_deleted :: "BundleHandler \<Rightarrow> string \<Rightarrow> bool \<Rightarrow> Bundle \<Rightarrow> inode option \<Rightarrow> node_state \<Rightarrow> bool" where
  "kept_or_deleted h i c b d s = ((\<exists>d'. slot_of h (ns_world s) i = Stored b d' \<and> (c \<or> d' = d)) \<or>
     (\<exists>b'. slot_of h (ns_world s) i = Stored b' None \<and> bStatus b' = Deleted))"

interpretation unattended_runs: invariant_system "node_step h env"
  "\<lambda>s. node_inv h s \<and> unattended i s \<and> (collecting i s \<longrightarrow> c) \<and> calm (ns_world s) \<and> valid_id i \<and> kept_or_deleted h i c b d s"
  for h env i c b d
proof
  fix s t
  assume st: "node_step h env s t" and I: "node_inv h s \<and> unattended i s \<and> (collecting i s \<longrightarrow> c) \<and> calm (ns_world s) \<and>
    valid_id i \<and> kept_or_deleted h i c b d s"
  then obtain b' d' where sl: "slot_of h (ns_world s) i = Stored b' d'"
    and or: "b' = b \<and> (c \<or> d' = d) \<or> d' = None \<and> bStatus b' = Deleted" by (auto simp: kept_or_deleted_def)
  have u: "unattended i t" "collecting i t \<longrightarrow> c"
    and k: "(\<exists>e. slot_of h (ns_world t) i = Stored b' e \<and> (c \<or> e = d') \<and> (d' = None \<longrightarrow> e = None)) \<or>
      (\<exists>b'. slot_of h (ns_world t) i = Stored b' None \<and> bStatus b' = Deleted)"
    using unattended_step [OF st _ _ _ _ sl] I by auto
  have "kept_or_deleted h i c b d t" using k or by (fastforce simp: kept_or_deleted_def)
  then show "node_inv h t \<and> unattended i t \<and> (collecting i t \<longrightarrow> c) \<and> calm (ns_world t) \<and> valid_id i \<and> kept_or_deleted h i c b d t"
    using u I node_step_inv [OF st] node_step_calm [OF st] by simp
qed

end
