(* ===== verification/Bundle_Contract.thy ===== *)
theory Bundle_Contract
  imports Bundle_Lifecycle
begin

text \<open>
  The contract of the node-level API. Without I/O faults each handler is a function of one slot:
  \<open>spec_serve\<close> gives the status code and the new slot, and \<open>node_api_refines\<close> shows that the handlers
  implement it. The other properties are about time: isolation of bundles, the invariant of every
  reachable state, what a finished collection serves, and two interleavings that break a bundle.
\<close>

section \<open>Handlers without faults\<close>

lemma stat_calm:
  "calm w \<Longrightarrow> sys_stat p w = (case fs_get w p of None \<Rightarrow> StatNotExist | Some n \<Rightarrow> StatOk n, tick w)"
  by (simp add: sys_stat_def calm_failing)

lemma read_file_calm: "calm w \<Longrightarrow> fs_get w p = Some (File c) \<Longrightarrow> sys_read_file p w = (Inr c, tick w)"
  by (simp add: sys_read_file_def calm_failing)

lemma slot_Stored_read:
  assumes "slot_of h w i = Stored b d"
  obtains c where "fs_get w (state_path (bh_workDir h) i) = Some (File c)"
    and "unmarshal_state c (zero_bundle\<lparr>bID := i\<rparr>) = (None, b)"
  using assms by (auto simp: slot_of_def split: if_splits option.splits inode.splits prod.splits)

lemma getBundleState_calm:
  assumes "calm w" and "slot_of h w i = Stored b d"
  shows "getBundleState h i w =
    (if settled (bStatus b) then (b, None, tick w)
     else case d of
       None \<Rightarrow> (b\<lparr>bStatus := Unknown\<rparr>, Some (msg [''could not stat data file '', i, '': '',
                 no_such_file ''stat'' (data_path (bh_workDir h) i)]), tick (tick w))
     | Some n \<Rightarrow> (b\<lparr>bSize := inode_size w n\<rparr>, None, tick (tick w)))"
proof -
  obtain c where "fs_get w (state_path (bh_workDir h) i) = Some (File c)"
    and um: "unmarshal_state c (zero_bundle\<lparr>bID := i\<rparr>) = (None, b)"
    using assms(2) by (rule slot_Stored_read)
  then have "sys_read_file (state_path (bh_workDir h) i) w = (Inr c, tick w)"
    using read_file_calm [OF assms(1)] by simp
  moreover have "sys_stat (data_path (bh_workDir h) i) (tick w) =
      (case d of None \<Rightarrow> StatNotExist | Some n \<Rightarrow> StatOk n, tick (tick w))"
    using stat_calm [of "tick w"] assms slot_Stored_state [OF assms(2)] by simp
  ultimately show ?thesis
    using um by (simp add: getBundleState_def readStateFile_def Let_def settled_def zero_bundle_def split: option.splits)
qed

lemma getBundleState_broken:
  assumes "slot_of h w i = Broken" and "getBundleState h i w = (b, e, w')"
  shows "e \<noteq> None"
proof
  assume "e = None"
  moreover have "fs_get w (bundle_dir (bh_workDir h) i) = Some Dir"
    using assms(1) by (simp add: slot_of_def split: if_splits)
  ultimately show False using getBundleState_ok [of h i w b w'] assms by (metis slot.distinct(5))
qed

lemma bundleExists_calm:
  "calm w \<Longrightarrow> bundleExists (bh_workDir h) i w = (Some (slot_of h w i \<noteq> Absent), tick w)"
  by (auto simp: bundleExists_def stat_calm slot_of_def split: option.splits inode.splits prod.splits)

text \<open>A place where a bundle can be made: nothing is in the way of its directory and files.\<close>

definition ready :: "BundleHandler \<Rightarrow> world \<Rightarrow> string \<Rightarrow> bool" where
  "ready h w i \<longleftrightarrow> (\<forall>a\<in>set (ancestors (bundle_dir (bh_workDir h) i)). \<not> is_file w a) \<and>
     fs_get w (state_path (bh_workDir h) i) \<noteq> Some Dir \<and> fs_get w (data_path (bh_workDir h) i) \<noteq> Some Dir"

lemma mkdir_calm:
  assumes "calm w" and "ready h w i"
  shows "sys_mkdir_all (bundle_dir (bh_workDir h) i) w = (None, make_dirs (ancestors (bundle_dir (bh_workDir h) i)) (tick w))"
proof -
  have "filter (is_file w) (ancestors (bundle_dir (bh_workDir h) i)) = []"
    using assms(2) by (simp add: ready_def filter_empty_conv)
  then show ?thesis using assms(1) by (simp add: sys_mkdir_all_def calm_failing)
qed

lemma create_new_calm:
  assumes "calm w" and "valid_id i" and "ready h w i"
  shows "\<exists>w'. create_new h i w =
    (respond 200 (JsonBundle (marshal_bundle (zero_bundle\<lparr>bID := i, bStarted := clock w (Suc (calls w)), bStatus := Started\<rparr>))),
     w', Some (zero_bundle\<lparr>bID := i, bStarted := clock w (Suc (calls w)), bStatus := Started\<rparr>)) \<and> ready h w' i"
proof -
  let ?wd = "bh_workDir h"
  let ?b = "zero_bundle\<lparr>bID := i, bStarted := clock w (Suc (calls w)), bStatus := Started\<rparr>"
  define w2 where "w2 = make_dirs (ancestors (bundle_dir ?wd i)) (tick w)"
  note mk = mkdir_calm [OF assms(1,3), folded w2_def]
  have "clock w2 (calls w2) = clock w (Suc (calls w))" by (simp add: w2_def)
  then have nw: "sys_now w2 = (clock w (Suc (calls w)), tick w2)" by (simp add: sys_now_def)
  have D: "fs_get w2 (bundle_dir ?wd i) = Some Dir" using mkdir_bundle_dir [OF mk assms(2)] .
  have na: "state_path ?wd i \<notin> set (ancestors (bundle_dir ?wd i))" "data_path ?wd i \<notin> set (ancestors (bundle_dir ?wd i))"
    using ancestors_not_file [OF assms(2,2)] by (simp_all add: state_path_def data_path_def del: join.simps)
  have sd: "fs_get w2 (state_path ?wd i) = fs_get w (state_path ?wd i)"
    "fs_get w2 (data_path ?wd i) = fs_get w (data_path ?wd i)"
    using na by (simp_all add: w2_def make_dirs_get)
  have c2: "calm w2" using assms(1) by (simp add: w2_def calm_def)
  obtain d w4 where ws: "writeStateFile h ?b (tick w2) = (d, None, w4)"
    using node_state.put_calm [of "tick w2" ?b h] c2 D sd(1) assms(2,3) by (auto simp: ready_def)
  note g = same_except_get [OF node_state.put_frame [OF ws]]
  have c4: "calm w4" using calm_same [OF node_state.put_frame [OF ws]] c2 by simp
  have "sys_create (data_path ?wd i) w4 = (None, fs_put (data_path ?wd i) (File (Bytes [])) (tick w4))"
    using c4 g sd D assms(2,3)
    by (simp add: sys_create_def calm_failing parent_files is_dir_def ready_def bundle_paths)
  then have "create_new h i w =
      (respond 200 (JsonBundle (marshal_bundle ?b)), fs_put (data_path ?wd i) (File (Bytes [])) (tick w4), Some ?b)"
    using mk nw ws node_state.put_doc [OF ws] by (simp add: create_new_def Let_def)
  moreover have "ready h (fs_put (data_path ?wd i) (File (Bytes [])) (tick w4)) i"
  proof -
    have "\<not> is_file w2 a" if "a \<in> set (ancestors (bundle_dir ?wd i))" for a
      using that assms(3) by (auto simp: w2_def is_file_def make_dirs_get ready_def split: option.splits inode.splits)
    then show ?thesis
      using g na node_state.put_stores [OF ws] assms(2)
      by (auto simp: ready_def is_file_def bundle_paths) metis
  qed
  ultimately show ?thesis by blast
qed

section \<open>The specification\<close>

definition usable :: "Bundle \<Rightarrow> inode option \<Rightarrow> bool" where
  "usable b d = (settled (bStatus b) \<or> d \<noteq> None)"

fun spec_file_code :: "Bundle \<Rightarrow> inode option \<Rightarrow> int" where
  "spec_file_code b d =
     (if \<not> usable b d then 500
      else if bStatus b \<in> {Deleted, Canceled, Failed} then 410
      else if bStatus b = Done then 200 else 404)"

fun spec_serve :: "time \<Rightarrow> (Bundle \<Rightarrow> inode option \<Rightarrow> Bundle) \<Rightarrow> node_request \<Rightarrow> slot \<Rightarrow> int \<times> slot" where
  "spec_serve t view (PutBundle i) Absent =
     (200, Stored (zero_bundle\<lparr>bID := i, bStarted := t, bStatus := Started\<rparr>) (Some (File (Bytes []))))"
| "spec_serve t view (PutBundle i) s = (409, s)"
| "spec_serve t view (GetBundle i) Absent = (404, Absent)"
| "spec_serve t view (GetBundle i) Broken = (500, Broken)"
| "spec_serve t view (GetBundle i) (Stored b d) = (if usable b d then 200 else 500, Stored b d)"
| "spec_serve t view (GetBundleFile i) (Stored b d) = (spec_file_code b d, Stored b d)"
| "spec_serve t view (GetBundleFile i) s = (500, s)"
| "spec_serve t view (DeleteBundle i) Absent = (404, Absent)"
| "spec_serve t view (DeleteBundle i) Broken = (500, Broken)"
| "spec_serve t view (DeleteBundle i) (Stored b d) =
     (if bStatus b = Deleted \<or> bStatus b = Canceled then (200, Stored b d)
      else if d = None then (500, Stored b d)
      else (200, Stored ((view b d)\<lparr>bStatus := Deleted\<rparr>) None))"
| "spec_serve t view ListBundles s = (200, s)"

text \<open>The directories \<open>spec_serve\<close> is about: files only inside directories, and regular files.\<close>

definition regular :: "BundleHandler \<Rightarrow> world \<Rightarrow> string \<Rightarrow> bool" where
  "regular h w i \<longleftrightarrow> ready h w i \<and>
     (fs_get w (bundle_dir (bh_workDir h) i) = Some Dir \<or> fs_get w (state_path (bh_workDir h) i) = None)"

lemma spec_put:
  assumes "calm w" and "valid_id i" and "regular h w i" and "bh_Create h i w = (o', w', sp)"
  shows "outcome_code o' = Some (fst (spec_serve (clock w (calls w + 2)) v (PutBundle i) (slot_of h w i))) \<and>
    slot_of h w' i = snd (spec_serve (clock w (calls w + 2)) v (PutBundle i) (slot_of h w i))"
proof (cases "slot_of h w i = Absent")
  case True
  have "ready h (tick w) i" using assms(3) by (simp add: regular_def ready_def is_file_def)
  then obtain w2 where c: "create_new h i (tick w) =
      (respond 200 (JsonBundle (marshal_bundle (zero_bundle\<lparr>bID := i, bStarted := clock w (calls w + 2), bStatus := Started\<rparr>))),
       w2, Some (zero_bundle\<lparr>bID := i, bStarted := clock w (calls w + 2), bStatus := Started\<rparr>))"
    using create_new_calm [of "tick w" i h] assms(1,2) by auto
  then show ?thesis
    using True assms(4) create_new_spawns(1) [OF c assms(2)] bundleExists_calm [OF assms(1), of h i]
    by (auto simp: bh_Create_def)
next
  case False
  then show ?thesis
    using assms(4) bundleExists_calm [OF assms(1), of h i]
    by (cases "slot_of h w i") (auto simp: bh_Create_def writeJSONError_def)
qed

lemma getBundleState_usable:
  assumes "calm w" and "slot_of h w i = Stored b d" and "usable b d"
  obtains w' where "getBundleState h i w = (presented w b d, None, w')"
  using getBundleState_calm [OF assms(1,2)] assms(3) by (auto simp: usable_def presented_def split: if_splits)

lemma getBundleState_unusable:
  assumes "calm w" and "slot_of h w i \<noteq> Absent" and "\<forall>b d. slot_of h w i = Stored b d \<longrightarrow> \<not> usable b d"
  obtains b e w' where "getBundleState h i w = (b, Some e, w')"
proof (cases "slot_of h w i")
  case (Stored b d)
  then show ?thesis using that getBundleState_calm [OF assms(1) Stored] assms(3) Stored by (simp add: usable_def)
next
  case Broken
  obtain b e w' where "getBundleState h i w = (b, e, w')" by (metis prod_cases3)
  with that getBundleState_broken [OF Broken this] show ?thesis by auto
qed (use assms(2) in simp)

lemma spec_get:
  assumes "calm w" and "bh_Get h i w = (o', w')"
  shows "outcome_code o' = Some (fst (spec_serve t v (GetBundle i) (slot_of h w i))) \<and>
    slot_of h w' i = snd (spec_serve t v (GetBundle i) (slot_of h w i))"
proof -
  have same: "slot_of h w' i = slot_of h w i" using slot_of_same [OF bh_Get_frame [OF assms(2)]] .
  have ct: "calm (tick w)" using assms(1) by simp
  consider "slot_of h w i = Absent" | (ok) b d where "slot_of h w i = Stored b d" "usable b d"
    | (bad) "slot_of h w i \<noteq> Absent" "\<forall>b d. slot_of h w i = Stored b d \<longrightarrow> \<not> usable b d" by blast
  then show ?thesis
  proof cases
    case 1
    then show ?thesis using assms(2) same bundleExists_calm [OF assms(1), of h i] by (auto simp: bh_Get_def)
  next
    case (ok b d)
    obtain w2 where "getBundleState h i (tick w) = (presented (tick w) b d, None, w2)"
      using getBundleState_usable [OF ct, of h i b d] ok by auto
    then show ?thesis using assms(2) same bundleExists_calm [OF assms(1), of h i] ok by (auto simp: bh_Get_def)
  next
    case bad
    obtain b e w2 where "getBundleState h i (tick w) = (b, Some e, w2)"
      using getBundleState_unusable [OF ct, of h i] bad by auto
    then show ?thesis
      using assms(2) same bundleExists_calm [OF assms(1), of h i] bad
      by (cases "slot_of h w i") (auto simp: bh_Get_def)
  qed
qed

text \<open>\<^verbatim>\<open>GetFile\<close> does not check that the bundle exists: a missing state file is an error.\<close>

lemma getBundleState_absent:
  assumes "fs_get w (state_path (bh_workDir h) i) = None"
  obtains b e w' where "getBundleState h i w = (b, Some e, w')"
proof -
  obtain e where "sys_read_file (state_path (bh_workDir h) i) w = (Inl e, tick w)"
    using assms by (cases "failing w") (auto simp: sys_read_file_def)
  then show ?thesis using that by (simp add: getBundleState_def readStateFile_def Let_def zero_bundle_def)
qed

lemma spec_getfile:
  assumes "calm w" and "bh_GetFile h i w = (o', w')" and "regular h w i"
  shows "outcome_code o' = Some (fst (spec_serve t v (GetBundleFile i) (slot_of h w i))) \<and>
    slot_of h w' i = snd (spec_serve t v (GetBundleFile i) (slot_of h w i))"
proof -
  have same: "slot_of h w' i = slot_of h w i" using slot_of_same [OF bh_GetFile_frame [OF assms(2)]] .
  consider "slot_of h w i = Absent" | (ok) b d where "slot_of h w i = Stored b d" "usable b d"
    | (bad) "slot_of h w i \<noteq> Absent" "\<forall>b d. slot_of h w i = Stored b d \<longrightarrow> \<not> usable b d" by blast
  then show ?thesis
  proof cases
    case 1
    then have "fs_get w (state_path (bh_workDir h) i) = None"
      using assms(3) by (auto simp: slot_of_def regular_def split: if_splits option.splits inode.splits prod.splits)
    then obtain b e w2 where "getBundleState h i w = (b, Some e, w2)" by (rule getBundleState_absent)
    then show ?thesis using 1 assms(2) same by (auto simp: bh_GetFile_def writeJSONError_def)
  next
    case (ok b d)
    obtain w2 where g: "getBundleState h i w = (presented w b d, None, w2)"
      using getBundleState_usable [OF assms(1), of h i b d] ok by auto
    have "calm w2" using calm_same [OF getBundleState_frame [OF g]] assms(1) by simp
    moreover have "fs_get w2 (data_path (bh_workDir h) i) = d"
      using same_except_get [OF getBundleState_frame [OF g]] slot_Stored_state [OF ok(1)] by simp
    moreover have "d \<noteq> Some Dir" using assms(3) slot_Stored_state [OF ok(1)] by (auto simp: regular_def ready_def)
    ultimately have "bStatus b = Done \<Longrightarrow>
        outcome_code (fst (serve_file (download_headers i) (data_path (bh_workDir h) i) w2)) = Some 200"
      using ok(2) by (auto simp: serve_file_def calm_failing usable_def settled_def split: option.splits inode.splits)
    then show ?thesis using g ok assms(2) same by (auto simp: bh_GetFile_def writeJSONError_def)
  next
    case bad
    obtain b e w2 where "getBundleState h i w = (b, Some e, w2)"
      using getBundleState_unusable [OF assms(1), of h i] bad by auto
    then show ?thesis
      using assms(2) same bad by (cases "slot_of h w i") (auto simp: bh_GetFile_def writeJSONError_def)
  qed
qed

lemma remove_file_calm:
  "calm w \<Longrightarrow> fs_get w p = Some (File c) \<Longrightarrow> sys_remove p w = (None, fs_del p (tick w))"
  "calm w \<Longrightarrow> fs_get w p = None \<Longrightarrow> sys_remove p w = (Some (no_such_file ''remove'' p), tick w)"
  by (simp_all add: sys_remove_def calm_failing)

lemma spec_delete_stored:
  assumes "calm w" and "bh_Delete h i w = (o', w')" and "regular h w i" and "valid_id i" and "bID b = i"
    and "slot_of h w i = Stored b d" and "usable b d"
  shows "outcome_code o' = Some (fst (spec_serve t (presented w) (DeleteBundle i) (Stored b d))) \<and>
    slot_of h w' i = snd (spec_serve t (presented w) (DeleteBundle i) (Stored b d))"
proof -
  let ?b = "(presented w b d)\<lparr>bStatus := Deleted\<rparr>"
  have ct: "calm (tick w)" using assms(1) by simp
  have pt: "presented (tick w) b d = presented w b d" by (simp add: presented_def split: option.splits)
  obtain w2 where g: "getBundleState h i (tick w) = (presented w b d, None, w2)"
    using getBundleState_usable [OF ct, of h i b d] assms(6,7) pt by auto
  note fr = getBundleState_frame [OF g]
  have w2: "calm w2" "fs_get w2 = fs_get w"
    using calm_same [OF fr] assms(1) fr by (auto simp: same_except_def fun_eq_iff)
  have d: "fs_get w (data_path (bh_workDir h) i) = d" "d \<noteq> Some Dir"
    using slot_Stored_state [OF assms(6)] assms(3) by (auto simp: regular_def ready_def)
  have sl2: "slot_of h w2 i = Stored b d" using slot_of_same [OF fr] assms(6) by simp
  show ?thesis
  proof (cases "bStatus b = Deleted \<or> bStatus b = Canceled")
    case True
    then show ?thesis using assms(2,6) bundleExists_calm [OF assms(1), of h i] g sl2 by (auto simp: bh_Delete_def)
  next
    case False
    show ?thesis
    proof (cases d)
      case None
      then show ?thesis
        using False assms(2,6) bundleExists_calm [OF assms(1), of h i] g sl2 w2 d remove_file_calm(2) [OF w2(1)]
        by (auto simp: bh_Delete_def writeJSONError_def)
    next
      case (Some n)
      then obtain c where n: "d = Some (File c)" using d(2) by (cases n) auto
      let ?w3 = "fs_del (data_path (bh_workDir h) i) (tick w2)"
      have rm: "sys_remove (data_path (bh_workDir h) i) w2 = (None, ?w3)"
        using remove_file_calm(1) [OF w2(1)] n d w2(2) by simp
      have D: "fs_get ?w3 (bundle_dir (bh_workDir h) i) = Some Dir"
        and S: "fs_get ?w3 (state_path (bh_workDir h) i) \<noteq> Some Dir" and c3: "calm ?w3"
        using slot_Stored_Dir [OF sl2] slot_Stored_state [OF sl2] w2(1) assms(4) by (simp_all add: bundle_paths calm_def)
      obtain doc w4 where ws: "writeStateFile h ?b ?w3 = (doc, None, w4)"
        using node_state.put_calm [of ?w3 ?b h] D S c3 assms(4,5) by auto
      have "slot_of h w4 i = Stored ?b None"
        using node_state.put_slot [OF ws] D assms(4,5) by simp
      then show ?thesis
        using False n assms(2,6) bundleExists_calm [OF assms(1), of h i] g rm ws by (auto simp: bh_Delete_def)
    qed
  qed
qed

lemma spec_delete:
  assumes "calm w" and "bh_Delete h i w = (o', w')" and "regular h w i" and "valid_id i" and "own_id h w i"
  shows "outcome_code o' = Some (fst (spec_serve t (presented w) (DeleteBundle i) (slot_of h w i))) \<and>
    slot_of h w' i = snd (spec_serve t (presented w) (DeleteBundle i) (slot_of h w i))"
proof -
  consider "slot_of h w i = Absent" | (ok) b d where "slot_of h w i = Stored b d" "usable b d"
    | (bad) "slot_of h w i \<noteq> Absent" "\<forall>b d. slot_of h w i = Stored b d \<longrightarrow> \<not> usable b d" by blast
  then show ?thesis
  proof cases
    case 1
    then show ?thesis using assms(2) bundleExists_calm [OF assms(1), of h i] by (auto simp: bh_Delete_def)
  next
    case (ok b d)
    then show ?thesis using spec_delete_stored [OF assms(1-4) _ ok] assms(5) by (simp add: own_id_def)
  next
    case bad
    have ct: "calm (tick w)" using assms(1) by simp
    obtain b e w2 where g: "getBundleState h i (tick w) = (b, Some e, w2)"
      using getBundleState_unusable [OF ct, of h i] bad by auto
    have "slot_of h w2 i = slot_of h w i" using slot_of_same [OF getBundleState_frame [OF g]] by simp
    then show ?thesis
      using g assms(2) bundleExists_calm [OF assms(1), of h i] bad
      by (cases "slot_of h w i") (auto simp: bh_Delete_def usable_def settled_def)
  qed
qed

section \<open>Finishing a collection\<close>

lemma finish_job_slot:
  assumes "calm w" and "valid_id (bID j)" and "slot_of h w (bID j) = Stored b0 d"
  obtains b where "slot_of h (finish_job h j errs w) (bID j) = Stored b d" and "bStatus b = Done"
    and "bErrors b = errs" and "bID b = bID j" and "bStarted b = bStarted j" and "calm (finish_job h j errs w)"
proof -
  obtain doc e b where ws: "writeStateFile h b (tick w) = (doc, e, finish_job h j errs w)" and
    b: "bID b = bID j" "bStatus b = Done" "bErrors b = errs" "bStarted b = bStarted j" by (rule finish_job_write)
  have D: "fs_get (tick w) (bundle_dir (bh_workDir h) (bID b)) = Some Dir"
    and S: "fs_get (tick w) (state_path (bh_workDir h) (bID b)) \<noteq> Some Dir"
    and d: "fs_get (tick w) (data_path (bh_workDir h) (bID b)) = d"
    using slot_Stored_Dir [OF assms(3)] slot_Stored_state [OF assms(3)] b(1) by simp_all
  have e: "e = None"
    using node_state.put_calm [of "tick w" b h] assms(1,2) D S b(1) ws by auto
  have sl: "slot_of h (finish_job h j errs w) (bID j) = Stored b d"
    using node_state.put_slot [OF ws [unfolded e]] D d b(1) assms(2) by simp
  show ?thesis
    using that [OF sl b(2,3,1,4)] calm_same [OF node_state.put_frame [OF ws]] assms(1) by simp
qed

lemma getfile_done:
  assumes "calm w" and "slot_of h w i = Stored b (Some (File c))" and "bStatus b = Done"
  shows "\<exists>w'. bh_GetFile h i w = (Respond \<lparr>rcode = 200, rheaders = download_headers i, rbody = FileBody c\<rparr>, w')"
proof -
  obtain w2 where g: "getBundleState h i w = (presented w b (Some (File c)), None, w2)"
    using getBundleState_usable [OF assms(1,2)] by (auto simp: usable_def)
  have "calm w2" and "fs_get w2 (data_path (bh_workDir h) i) = Some (File c)"
    using calm_same [OF getBundleState_frame [OF g]] same_except_get [OF getBundleState_frame [OF g]]
      slot_Stored_state [OF assms(2)] assms(1) by simp_all
  then show ?thesis using g assms(3) by (simp add: bh_GetFile_def serve_file_def calm_failing)
qed

lemma serve_node_spec:
  assumes "calm w" and "valid_id i" and "regular h w i" and "own_id h w i" and "request_id q = Some i"
    and "serve_node h q w = (o', w', sp)" and s: "s = spec_serve (clock w (calls w + 2)) (presented w) q (slot_of h w i)"
  shows "outcome_code o' = Some (fst s) \<and> slot_of h w' i = snd s"
proof (cases q)
  case (PutBundle j)
  then show ?thesis using spec_put [OF assms(1-3)] assms(5,6) s by auto
next
  case (DeleteBundle j)
  then show ?thesis
    using spec_delete [OF assms(1) _ assms(3,2,4), of o' w'] assms(5,6) s by (auto split: prod.splits)
next
  case (GetBundle j)
  then show ?thesis using spec_get [OF assms(1), of h i o' w'] assms(5,6) s by (auto split: prod.splits)
next
  case (GetBundleFile j)
  then show ?thesis
    using spec_getfile [OF assms(1) _ assms(3), of o' w'] assms(5,6) s by (auto split: prod.splits)
qed (use assms(5) in simp)

section \<open>Properties\<close>

text \<open>
  Refinement. Without I/O faults, each request of the node-level API answers the code that the
  specification gives for the slot of its bundle, and leaves the slot the specification gives:
  PUT makes a started bundle or answers 409; GET answers 404, 500 or 200; the file is served only when
  done (404 while it is collected, 410 once it is deleted, canceled or failed); DELETE removes the data
  file, is idempotent, and answers 500 when the data file is missing.
\<close>

theorem node_api_refines:
  assumes "calm w" and "valid_id i" and "regular h w i" and "own_id h w i" and "request_id q = Some i"
    and "serve_node h q w = (o', w', sp)"
  shows "(outcome_code o', slot_of h w' i) =
    map_prod Some id (spec_serve (clock w (calls w + 2)) (presented w) q (slot_of h w i))"
  using serve_node_spec [OF assms refl] by (simp add: prod_eq_iff)

theorem node_api_refines_witness:
  "\<exists>o' w' sp. serve_node sample_handler (GetBundleFile ''a'') (sample_world done_files) = (o', w', sp) \<and>
     outcome_code o' = Some 200"
proof -
  let ?w = "sample_world done_files" and ?h = sample_handler
  obtain o' w' sp where s: "serve_node ?h (GetBundleFile ''a'') ?w = (o', w', sp)" by (metis prod_cases3)
  have 1: "calm ?w" by (simp add: calm_def sample_world_def)
  have 2: "valid_id ''a''" by code_simp
  have 3: "regular ?h ?w ''a''" by code_simp
  have 4: "own_id ?h ?w ''a''" by code_simp
  have 5: "slot_of ?h ?w ''a'' = Stored done_bundle (Some (File (Zip [])))" by code_simp
  have 6: "bStatus done_bundle = Done" by code_simp
  show ?thesis
    using node_api_refines [OF 1 2 3 4 _ s] s 5 6 by (auto simp: usable_def)
qed

text \<open>
  Isolation. Whatever a request does and whichever calls fail, the bundles under other ids keep
  their state and their data file.
\<close>

theorem requests_isolated:
  assumes "serve_node h q w = (o', w', sp)" and "pred_option (\<lambda>i. valid_id i \<and> own_id h w i \<and> i \<noteq> j) (request_id q)"
    and "valid_id j"
  shows "slot_of h w' j = slot_of h w j"
proof (cases q)
  case (PutBundle i)
  then show ?thesis using assms slot_of_create_other [OF bh_Create_frame, of h i w o' w' sp j] by simp
next
  case (DeleteBundle i)
  then show ?thesis
    using assms slot_of_other [OF bh_Delete_frame, of h i w o' w' j] by (auto split: prod.splits)
qed (use assms in \<open>auto split: prod.splits intro: slot_of_same bh_Get_frame bh_GetFile_frame bh_List_frame\<close>)

theorem requests_isolated_witness:
  "\<exists>o' w' sp. serve_node sample_handler (PutBundle ''b'') (sample_world done_files) = (o', w', sp) \<and>
     slot_of sample_handler w' ''a'' = slot_of sample_handler (sample_world done_files) ''a''"
proof -
  obtain o' w' sp where s: "serve_node sample_handler (PutBundle ''b'') (sample_world done_files) = (o', w', sp)"
    by (metis prod_cases3)
  have "own_id sample_handler (sample_world done_files) ''b''" and "valid_id ''b''" by code_simp+
  then have 1: "pred_option (\<lambda>i. valid_id i \<and> own_id sample_handler (sample_world done_files) i \<and> i \<noteq> ''a'')
      (request_id (PutBundle ''b''))" by simp
  have 2: "valid_id ''a''" by code_simp
  from requests_isolated [OF s 1 2] s show ?thesis by blast
qed

text \<open>The bundle after its collection.\<close>

lemma collection_stores:
  assumes "bh_Create h i w = (r, w1, Some b)" and "valid_id i" and "calm w" and "list_all (no_panic env) (bh_collectors h)"
    and A: "A = archive_of env (bh_collectors h)"
  obtains w2 b' where "collectAll env (\<lambda>_. None) (data_path (bh_workDir h) i) (bh_collectors h) w1 = Inr (snd A, w2)"
    and "slot_of h (finish_job h b (snd A) w2) i = Stored b' (Some (File (Zip (fst A))))"
    and "bStatus b' = Done" and "bErrors b' = snd A" and "bStarted b' = bStarted b" and "calm (finish_job h b (snd A) w2)"
proof -
  note sp = bh_Create_spawns [OF assms(1,2)]
  have sl: "slot_of h w1 i = Stored b (Some (File (Bytes [])))" and i: "bID b = i" using sp by auto
  have c1: "calm w1" using calm_same [OF bh_Create_frame [OF assms(1,2)]] assms(3) by simp
  have "is_file w1 (data_path (bh_workDir h) i)" using slot_Stored_state [OF sl] by (simp add: is_file_def)
  from collectAll_calm [OF c1 assms(4) refl this, folded A] obtain w2 where
    ca: "collectAll env (\<lambda>_. None) (data_path (bh_workDir h) i) (bh_collectors h) w1 = Inr (snd A, w2)" and
    c2: "calm w2" and fr: "same_except {data_path (bh_workDir h) i} w1 w2" and
    z: "fs_get w2 (data_path (bh_workDir h) i) = Some (File (Zip (fst A)))" by blast
  have "slot_of h w2 i = Stored b (Some (File (Zip (fst A))))"
    using sl same_except_get [OF fr] z assms(2)
    by (auto simp: slot_of_def bundle_paths split: if_splits option.splits inode.splits prod.splits)
  then show ?thesis
    using finish_job_slot [OF c2, of b h b "Some (File (Zip (fst A)))" "snd A"] i assms(2) ca that by metis
qed

text \<open>
  C5. A collection that runs to its end without I/O faults produces the archive the reference gives:
  after \<^verbatim>\<open>Create\<close> has answered 200, \<^verbatim>\<open>collectAll\<close> returns the errors of the reference, and once the waiting
  goroutine has stored them the bundle is \<^const>\<open>Done\<close> and \<^verbatim>\<open>GetFile\<close> serves one entry per collector that
  gave data, in order, followed by the error summary when there were errors.
\<close>

theorem collect_and_download:
  assumes "bh_Create h i w = (r, w1, Some b)" and "valid_id i" and "calm w"
    and "list_all (no_panic env) (bh_collectors h)"
  shows "\<exists>w2 w3 b'. collectAll env (\<lambda>_. None) (data_path (bh_workDir h) i) (bh_collectors h) w1 =
      Inr (snd (archive_of env (bh_collectors h)), w2) \<and>
    bh_GetFile h i (finish_job h b (snd (archive_of env (bh_collectors h))) w2) =
      (Respond \<lparr>rcode = 200, rheaders = download_headers i,
         rbody = FileBody (Zip (fst (archive_of env (bh_collectors h))))\<rparr>, w3) \<and>
    slot_of h (finish_job h b (snd (archive_of env (bh_collectors h))) w2) i =
      Stored b' (Some (File (Zip (fst (archive_of env (bh_collectors h)))))) \<and>
    bStatus b' = Done \<and> bErrors b' = snd (archive_of env (bh_collectors h)) \<and> bStarted b' = bStarted b"
proof -
  obtain w2 b' where ca: "collectAll env (\<lambda>_. None) (data_path (bh_workDir h) i) (bh_collectors h) w1 =
      Inr (snd (archive_of env (bh_collectors h)), w2)"
    and sl: "slot_of h (finish_job h b (snd (archive_of env (bh_collectors h))) w2) i =
      Stored b' (Some (File (Zip (fst (archive_of env (bh_collectors h))))))"
    and b': "bStatus b' = Done" "bErrors b' = snd (archive_of env (bh_collectors h))" "bStarted b' = bStarted b"
    and c3: "calm (finish_job h b (snd (archive_of env (bh_collectors h))) w2)"
    using collection_stores [OF assms refl] by metis
  from getfile_done [OF c3 sl b'(1)] ca sl b' show ?thesis by blast
qed

definition sample_env :: collect_env where
  "sample_env = \<lparr>ce_command = (\<lambda>p args. (''out'', if p = ''bad'' then Some ''exit status 1'' else None)),
     ce_journal = (\<lambda>_. Inl ''no journal''), ce_request = (\<lambda>_. None),
     ce_do = (\<lambda>_. Inl ''refused''), ce_open = (\<lambda>_. Inr [])\<rparr>"

definition sample_collecting :: BundleHandler where
  "sample_collecting = \<lparr>bh_workDir = ''/w'',
     bh_collectors = [Cmd ''ok.output'' False [''ps''], Cmd ''bad.output'' False [''bad''], Endpoint ''x'' True ''u'']\<rparr>"

theorem collect_and_download_witness:
  "\<exists>b w1 w2 w3. bh_Create sample_collecting ''a'' (sample_world []) = (respond 200 (JsonBundle (marshal_bundle b)), w1, Some b) \<and>
     bh_GetFile sample_collecting ''a'' (finish_job sample_collecting b
         (snd (archive_of sample_env (bh_collectors sample_collecting))) w2) =
       (Respond \<lparr>rcode = 200, rheaders = download_headers ''a'',
          rbody = FileBody (Zip (fst (archive_of sample_env (bh_collectors sample_collecting))))\<rparr>, w3) \<and>
     map fst (fst (archive_of sample_env (bh_collectors sample_collecting))) =
       [''ok.output'', ''x'', summaryErrorsReportFileName]"
proof -
  let ?h = sample_collecting and ?w = "sample_world []"
  have 1: "calm ?w" by (simp add: calm_def sample_world_def)
  have 2: "valid_id ''a''" by code_simp
  have 3: "list_all (no_panic sample_env) (bh_collectors ?h)" by code_simp
  have 4: "ready ?h (tick ?w) ''a''" by code_simp
  have 5: "slot_of ?h ?w ''a'' = Absent" by code_simp
  have 6: "map fst (fst (archive_of sample_env (bh_collectors ?h))) = [''ok.output'', ''x'', summaryErrorsReportFileName]"
    by code_simp
  from create_new_calm [OF _ 2 4] 1 obtain b w1 where
    c: "create_new ?h ''a'' (tick ?w) = (respond 200 (JsonBundle (marshal_bundle b)), w1, Some b)" by auto
  have cr: "bh_Create ?h ''a'' ?w = (respond 200 (JsonBundle (marshal_bundle b)), w1, Some b)"
    using c bundleExists_calm [OF 1, of ?h "''a''"] 5 by (simp add: bh_Create_def)
  from collect_and_download [OF cr 2 1 3] obtain w2 w3 where
    "bh_GetFile ?h ''a'' (finish_job ?h b (snd (archive_of sample_env (bh_collectors ?h))) w2) =
       (Respond \<lparr>rcode = 200, rheaders = download_headers ''a'',
          rbody = FileBody (Zip (fst (archive_of sample_env (bh_collectors ?h))))\<rparr>, w3)" by blast
  with cr 6 show ?thesis by (intro exI conjI)
qed


definition sample_state :: "(string \<times> inode) list \<Rightarrow> node_state" where
  "sample_state fs = \<lparr>ns_world = sample_world fs, ns_checked = [], ns_jobs = []\<rparr>"


text \<open>
  C9. A stored bundle that no pending \<^verbatim>\<open>Create\<close> and no waiting goroutine works on changes in one way only: along every fault-free
  run of the node its stored record stays as it is, and so does its data file unless \<^verbatim>\<open>collectAll\<close> still writes it, until a \<^verbatim>\<open>Delete\<close>
  leaves it \<^const>\<open>Deleted\<close> without data file, and then it stays so. In particular a bundle whose deadline has passed, or that was
  interrupted by a restart, stays \<^const>\<open>Started\<close> until it is deleted.
\<close>

theorem unattended_bundles_only_deleted:
  assumes "node_run h env s t" and "node_inv h s" and "unattended i s" and "calm (ns_world s)" and "valid_id i"
    and "slot_of h (ns_world s) i = Stored b d"
  shows "(\<exists>d'. slot_of h (ns_world t) i = Stored b d' \<and> (collecting i s \<or> d' = d)) \<or>
    (\<exists>b'. slot_of h (ns_world t) i = Stored b' None \<and> bStatus b' = Deleted)"
proof -
  have "kept_or_deleted h i (collecting i s) b d s" using assms(6) by (simp add: kept_or_deleted_def)
  with unattended_runs.steps_inv [OF assms(1) [unfolded node_run_steps], of i "collecting i s" b d] assms(2-5)
  have "kept_or_deleted h i (collecting i s) b d t" by blast
  then show ?thesis by (simp add: kept_or_deleted_def)
qed

text \<open>A bundle whose deadline has passed while its collection goes on, and one more step of the node.\<close>

definition late_bundle :: Bundle where
  "late_bundle = done_bundle\<lparr>bStatus := Started\<rparr>"

definition late_state :: node_state where
  "late_state = (sample_state [(''/w/a'', Dir), (''/w/a/state.json'', File (StateDoc (marshal_bundle late_bundle))), (''/w/a/file.zip'', File (Bytes []))])
     \<lparr>ns_jobs := [\<lparr>j_bundle = late_bundle, j_result = None, j_waiting = False\<rparr>]\<rparr>"

lemma late_owns: "owns sample_handler (ns_world late_state)"
proof -
  have v: "valid_id ''a''" by code_simp
  have "own_blob i c" if "fs_get (ns_world late_state) (state_path (bh_workDir sample_handler) i) = Some (File c)" "valid_id i" for i c
  proof -
    have "state_path (bh_workDir sample_handler) ''a'' = ''/w/a/state.json''" "data_path (bh_workDir sample_handler) ''a'' = ''/w/a/file.zip''"
      by code_simp+
    then have "i = ''a''"
      using that v state_path_inject [of i "''a''" "bh_workDir sample_handler"] state_data_distinct [of i "''a''" "bh_workDir sample_handler"]
      by (auto simp: late_state_def sample_state_def sample_world_def fs_get_def split: if_splits)
    moreover have "fs_get (ns_world late_state) (state_path (bh_workDir sample_handler) ''a'') = Some (File (StateDoc (marshal_bundle late_bundle)))"
      by code_simp
    moreover have "bID late_bundle = ''a''" by code_simp
    ultimately show ?thesis using that own_blob_simps(3) [of late_bundle] by simp
  qed
  then show ?thesis by (auto simp: owns_def)
qed

theorem unattended_bundles_only_deleted_witness:
  "\<exists>t. node_step sample_handler sample_env late_state t \<and> bStatus late_bundle = Started \<and>
     ((\<exists>d'. slot_of sample_handler (ns_world t) ''a'' = Stored late_bundle d') \<or>
      (\<exists>b'. slot_of sample_handler (ns_world t) ''a'' = Stored b' None \<and> bStatus b' = Deleted))"
proof -
  let ?h = sample_handler and ?s = late_state
  obtain o' w' where d: "bh_Delete ?h ''a'' (ns_world ?s) = (o', w')" by fastforce
  have 1: "valid_id ''a''" and i: "bID late_bundle = ''a''" "bStatus late_bundle = Started" by code_simp+
  have st: "node_step ?h sample_env ?s (?s\<lparr>ns_world := w'\<rparr>)"
    by (rule node_step.request [of _ "DeleteBundle ''a''" _ o']) (use d 1 in simp_all)
  have "fs_get (ns_world ?s) (bundle_dir (bh_workDir ?h) ''a'') = Some Dir" by code_simp
  then have 2: "node_inv ?h ?s" "unattended ''a'' ?s"
    using late_owns i 1 by (simp_all add: node_inv_def unattended_def job_ok_def late_state_def sample_state_def)
  have 3: "calm (ns_world ?s)" by (simp add: calm_def late_state_def sample_state_def sample_world_def)
  have 4: "slot_of ?h (ns_world ?s) ''a'' = Stored late_bundle (Some (File (Bytes [])))" by code_simp
  from unattended_bundles_only_deleted [OF node_run.step [OF node_run.start st] 2 3 1 4] st i show ?thesis by blast
qed

lemma node_run_trans: "node_run h env s t \<Longrightarrow> node_step h env t u \<Longrightarrow> node_step h env u v \<Longrightarrow> node_run h env s v"
  by (blast intro: node_run.step)

text \<open>
  C37. A \<^verbatim>\<open>Delete\<close> does not stop the collection of its bundle. If a bundle is deleted (its data file is
  gone) while its collection still runs, the goroutine that stores the result makes it \<^const>\<open>Done\<close> again,
  without data file; from then on \<^verbatim>\<open>GetFile\<close> and \<^verbatim>\<open>Delete\<close> answer 500.
\<close>

theorem deleted_bundle_revived:
  assumes "calm w" and "valid_id (bID j)" and "slot_of h w (bID j) = Stored b None" and "bStatus b = Deleted"
  shows "\<exists>b'. slot_of h (finish_job h j errs w) (bID j) = Stored b' None \<and> bStatus b' = Done \<and>
    outcome_code (fst (bh_GetFile h (bID j) (finish_job h j errs w))) = Some 500 \<and>
    outcome_code (fst (bh_Delete h (bID j) (finish_job h j errs w))) = Some 500"
proof -
  let ?w = "finish_job h j errs w" and ?i = "bID j"
  obtain b' where sl: "slot_of h ?w ?i = Stored b' None" and st: "bStatus b' = Done" and c: "calm ?w"
    using finish_job_slot [OF assms(1-3)] by blast
  have nu: "\<not> usable b' None" using st by (simp add: usable_def settled_def)
  have ct: "calm (tick ?w)" using c by simp
  obtain b1 e1 w1 where g1: "getBundleState h ?i ?w = (b1, Some e1, w1)"
    using getBundleState_unusable [OF c, of h ?i] sl nu by auto
  obtain b2 e2 w2 where g2: "getBundleState h ?i (tick ?w) = (b2, Some e2, w2)"
    using getBundleState_unusable [OF ct, of h ?i] sl nu by auto
  have "outcome_code (fst (bh_GetFile h ?i ?w)) = Some 500"
    using g1 by (simp add: bh_GetFile_def writeJSONError_def)
  moreover have "outcome_code (fst (bh_Delete h ?i ?w)) = Some 500"
    using g2 bundleExists_calm [OF c, of h ?i] sl by (simp add: bh_Delete_def)
  ultimately show ?thesis using sl st by blast
qed

theorem deleted_bundle_revived_witness:
  "\<exists>w b'. slot_of sample_handler w ''a'' = Stored b' None \<and> bStatus b' = Done \<and>
     outcome_code (fst (bh_GetFile sample_handler ''a'' w)) = Some 500"
proof -
  let ?d = "done_bundle\<lparr>bStatus := Deleted\<rparr>"
  let ?w = "sample_world [(''/w/a'', Dir), (''/w/a/state.json'', File (StateDoc (marshal_bundle ?d)))]"
  have 1: "calm ?w" by (simp add: calm_def sample_world_def)
  have 2: "valid_id ''a''" and i: "bID done_bundle = ''a''" by code_simp+
  have 3: "slot_of sample_handler ?w ''a'' = Stored ?d None" by code_simp
  have 4: "bStatus ?d = Deleted" by simp
  from deleted_bundle_revived [OF 1, of done_bundle sample_handler ?d "[]"] 2 3 4 i show ?thesis by auto
qed

text \<open>
  The check and the effect of \<^verbatim>\<open>Create\<close> are not one step: from every state in which a bundle can be
  made, two concurrent requests for the same new id can both pass the check, both answer 200, and two
  collections then write to the same data file.
\<close>

theorem concurrent_creates_both_succeed:
  assumes "calm (ns_world s)" and "valid_id i" and "ready h (ns_world s) i" and "slot_of h (ns_world s) i = Absent"
    and "ns_checked s = []"
  shows "\<exists>t j1 j2. node_run h env s t \<and> ns_jobs t = ns_jobs s @ [j1, j2] \<and>
    bID (j_bundle j1) = i \<and> bID (j_bundle j2) = i \<and> j_waiting j1 \<and> j_waiting j2"
proof -
  let ?w = "ns_world s"
  let ?s1 = "s\<lparr>ns_world := tick ?w, ns_checked := [i]\<rparr>"
  let ?s2 = "s\<lparr>ns_world := tick (tick ?w), ns_checked := [i, i]\<rparr>"
  have st1: "node_step h env s ?s1"
    using node_step.check [of h i s "Some False" "tick ?w" env] bundleExists_calm [OF assms(1), of h i] assms(2,4,5) by simp
  have st2: "node_step h env ?s1 ?s2"
    using node_step.check [of h i ?s1 "Some False" "tick (tick ?w)" env] bundleExists_calm [of "tick ?w" h i] assms by simp
  have rd: "ready h (tick (tick ?w)) i" using assms(3) by (simp add: ready_def is_file_def)
  from create_new_calm [OF _ assms(2) rd] assms(1) obtain r1 w3 b1 where
    c1: "create_new h i (tick (tick ?w)) = (r1, w3, Some b1)" and r3: "ready h w3 i" by auto
  have cw3: "calm w3" using calm_same [OF same_except_create_new [OF c1 assms(2)]] assms(1) by simp
  from create_new_calm [OF cw3 assms(2) r3] obtain r2 w4 b2 where
    c2: "create_new h i w3 = (r2, w4, Some b2)" by auto
  let ?j = "\<lambda>b. \<lparr>j_bundle = b, j_result = None, j_waiting = True\<rparr>"
  let ?s3 = "s\<lparr>ns_world := w3, ns_checked := [i], ns_jobs := ns_jobs s @ [?j b1]\<rparr>"
  let ?s4 = "s\<lparr>ns_world := w4, ns_checked := [], ns_jobs := ns_jobs s @ [?j b1, ?j b2]\<rparr>"
  have st3: "node_step h env ?s2 ?s3" using node_step.create [of h i ?s2 r1 w3 "Some b1" env] c1 by simp
  have st4: "node_step h env ?s3 ?s4" using node_step.create [of h i ?s3 r2 w4 "Some b2" env] c2 by simp
  have run: "node_run h env s ?s4"
    by (rule node_run_trans [OF node_run_trans [OF node_run.start st1 st2] st3 st4])
  have "bID b1 = i" "bID b2 = i"
    using create_new_spawns(2) [OF c1 assms(2)] create_new_spawns(2) [OF c2 assms(2)] .
  then show ?thesis
    by (intro exI [of _ ?s4] exI [of _ "?j b1"] exI [of _ "?j b2"]) (simp add: run)
qed

theorem concurrent_creates_both_succeed_witness:
  "\<exists>t. node_run sample_handler sample_env (sample_state []) t \<and> length (ns_jobs t) = 2"
proof -
  let ?s = "sample_state []"
  have 1: "calm (ns_world ?s)" by (simp add: calm_def sample_state_def sample_world_def)
  have 2: "valid_id ''a''" and 3: "ready sample_handler (ns_world ?s) ''a''"
    and 4: "slot_of sample_handler (ns_world ?s) ''a'' = Absent" by code_simp+
  have 5: "ns_checked ?s = []" "ns_jobs ?s = []" by (simp_all add: sample_state_def)
  from concurrent_creates_both_succeed [OF 1 2 3 4 5(1), of sample_env] 5 show ?thesis by auto
qed

end
