(* ===== verification/Rest_Client.thy ===== *)
theory Rest_Client
  imports Bundle_Contract
begin

text \<open>
  The client of the node-level API, \<^verbatim>\<open>api/rest/client.go\<close> and \<^verbatim>\<open>api/rest/client_errors.go\<close>. The HTTP
  transport is a parameter: a request has an answer or fails, and the remote side is a state of an
  arbitrary type. The interface \<open>bundle_client\<close> is what the coordinator expects of \<^verbatim>\<open>GetFile\<close>;
  \<open>DiagnosticsClient\<close> is interpreted as one. The last section puts the client in front of the node
  handlers of \<^verbatim>\<open>api/rest/bundle_handler.go\<close>.
\<close>

section \<open>Errors\<close>

datatype client_error =
    DiagnosticsBundleNotFoundError string
  | DiagnosticsBundleUnreadableError string
  | DiagnosticsBundleAlreadyExists string
  | OtherError string

fun client_error_Error :: "client_error \<Rightarrow> string" where
  "client_error_Error (DiagnosticsBundleNotFoundError i) = msg [''bundle '', i, '' not found'']"
| "client_error_Error (DiagnosticsBundleUnreadableError i) = msg [''bundle '', i, '' not readable'']"
| "client_error_Error (DiagnosticsBundleAlreadyExists i) = msg [''bundle '', i, '' already exists'']"
| "client_error_Error (OtherError e) = e"

section \<open>Requests\<close>

definition bundlesEndpoint :: string where
  "bundlesEndpoint = ''/system/health/v1/node/diagnostics''"

definition remoteURL :: "string \<Rightarrow> string \<Rightarrow> string" where
  "remoteURL node i = node @ bundlesEndpoint @ ''/'' @ i"

datatype http_method = GET | PUT | DELETE | POST

text \<open>
  \<open>ht_new\<close> is the error of \<^verbatim>\<open>http.NewRequest\<close> for a URL, \<open>ht_do\<close> is \<^verbatim>\<open>client.Do\<close>, and \<open>ht_read\<close> are the bytes
  the first \<^verbatim>\<open>Read\<close> of a body yields.
\<close>

record 's http =
  ht_new :: "string \<Rightarrow> string option"
  ht_do :: "http_method \<Rightarrow> string \<Rightarrow> 's \<Rightarrow> response result \<times> 's"
  ht_read :: "body \<Rightarrow> string"

text \<open>The buffer of 100 bytes: what is not filled stays zero.\<close>

definition body_prefix :: "string \<Rightarrow> string" where
  "body_prefix s = take 100 s @ replicate (100 - length s) (CHR 0x00)"

definition handleErrorCode :: "(body \<Rightarrow> string) \<Rightarrow> response \<Rightarrow> string \<Rightarrow> string \<Rightarrow> client_error option" where
  "handleErrorCode rd resp url i =
     (if rcode resp = StatusNotFound then Some (DiagnosticsBundleNotFoundError i)
      else if rcode resp = StatusInternalServerError then Some (DiagnosticsBundleUnreadableError i)
      else if rcode resp \<noteq> StatusOK then
        Some (OtherError (msg [''received unexpected status code ['', itoa (rcode resp), ''] from '', url, '': '',
          body_prefix (rd (rbody resp))]))
      else None)"

text \<open>\<^verbatim>\<open>json.NewDecoder(resp.Body).Decode\<close> into an empty bundle, and into an empty list of bundles.\<close>

fun decode_bundle :: "body \<Rightarrow> Bundle result" where
  "decode_bundle (JsonBundle d) =
     (case unmarshal_bundle d zero_bundle of (Some e, b) \<Rightarrow> Inl e | (None, b) \<Rightarrow> Inr b)"
| "decode_bundle (JsonError c e) = Inr zero_bundle"
| "decode_bundle NoBody = Inl ''EOF''"
| "decode_bundle b = Inl ''invalid character''"

fun decode_docs :: "bundle_doc list \<Rightarrow> Bundle list result" where
  "decode_docs [] = Inr []"
| "decode_docs (d # ds) =
     (case unmarshal_bundle d zero_bundle of
        (Some e, b) \<Rightarrow> Inl e
      | (None, b) \<Rightarrow> (case decode_docs ds of Inl e \<Rightarrow> Inl e | Inr bs \<Rightarrow> Inr (b # bs)))"

fun decode_bundles :: "body \<Rightarrow> Bundle list result" where
  "decode_bundles (JsonBundles ds) = decode_docs ds"
| "decode_bundles NoBody = Inl ''EOF''"
| "decode_bundles b = Inl ''json: cannot unmarshal object''"

text \<open>The common part of the calls: build the request, send it, look at the status code.\<close>

definition client_call ::
  "'s http \<Rightarrow> http_method \<Rightarrow> string \<Rightarrow> string \<Rightarrow> 's \<Rightarrow> (client_error + response) \<times> 's" where
  "client_call ht meth url i s =
     (case ht_new ht url of
        Some e \<Rightarrow> (Inl (OtherError e), s)
      | None \<Rightarrow>
          (case ht_do ht meth url s of
             (Inl e, s1) \<Rightarrow> (Inl (OtherError e), s1)
           | (Inr resp, s1) \<Rightarrow>
               (case handleErrorCode (ht_read ht) resp url i of
                  Some e \<Rightarrow> (Inl e, s1)
                | None \<Rightarrow> (Inr resp, s1))))"

definition decode_to :: "('b \<Rightarrow> 'a result) \<Rightarrow> (client_error + 'b) \<times> 's \<Rightarrow> (client_error + 'a) \<times> 's" where
  "decode_to dec r =
     (case r of
        (Inl e, s) \<Rightarrow> (Inl e, s)
      | (Inr x, s) \<Rightarrow> (case dec x of Inl e \<Rightarrow> (Inl (OtherError e), s) | Inr v \<Rightarrow> (Inr v, s)))"

definition client_CreateBundle :: "'s http \<Rightarrow> string \<Rightarrow> string \<Rightarrow> 's \<Rightarrow> (client_error + Bundle) \<times> 's" where
  "client_CreateBundle ht node i s =
     decode_to (\<lambda>r. decode_bundle (rbody r)) (client_call ht PUT (remoteURL node i) i s)"

definition client_Status :: "'s http \<Rightarrow> string \<Rightarrow> string \<Rightarrow> 's \<Rightarrow> (client_error + Bundle) \<times> 's" where
  "client_Status ht node i s =
     decode_to (\<lambda>r. decode_bundle (rbody r)) (client_call ht GET (remoteURL node i) i s)"

definition client_List :: "'s http \<Rightarrow> string \<Rightarrow> 's \<Rightarrow> (client_error + Bundle list) \<times> 's" where
  "client_List ht node s =
     decode_to (\<lambda>r. decode_bundles (rbody r)) (client_call ht GET (node @ bundlesEndpoint) [] s)"

definition client_Delete :: "'s http \<Rightarrow> string \<Rightarrow> string \<Rightarrow> 's \<Rightarrow> client_error option \<times> 's" where
  "client_Delete ht node i s =
     (case client_call ht DELETE (remoteURL node i) i s of
        (Inl e, s1) \<Rightarrow> (Some e, s1)
      | (Inr r, s1) \<Rightarrow> (None, s1))"

text \<open>\<^verbatim>\<open>GetFile\<close> also works on the local files: the body is copied to the path.\<close>

fun body_blob :: "(body \<Rightarrow> string) \<Rightarrow> body \<Rightarrow> blob" where
  "body_blob rd (FileBody b) = b"
| "body_blob rd b = Bytes (rd b)"

definition client_GetFile ::
  "'s http \<Rightarrow> string \<Rightarrow> string \<Rightarrow> string \<Rightarrow> 's \<Rightarrow> world \<Rightarrow> client_error option \<times> 's \<times> world" where
  "client_GetFile ht node i path s w =
     (case client_call ht GET (remoteURL node i @ ''/file'') i s of
        (Inl e, s1) \<Rightarrow> (Some e, s1, w)
      | (Inr resp, s1) \<Rightarrow>
          (case sys_create path w of
             (Some e, w1) \<Rightarrow> (Some (OtherError (msg [''could not create a file: '', e])), s1, w1)
           | (None, w1) \<Rightarrow>
               (case sys_write path (body_blob (ht_read ht) (rbody resp)) w1 of
                  (Some e, w2) \<Rightarrow> (Some (OtherError e), s1, w2)
                | (None, w2) \<Rightarrow> (None, s1, w2))))"

section \<open>The interface of downloads\<close>

text \<open>
  What the coordinator relies on: a download that reports success has left a file at the path it was
  given, no download removes a file, and none touches any other file.
\<close>

locale bundle_client =
  fixes get_file :: "string \<Rightarrow> string \<Rightarrow> string \<Rightarrow> 's \<Rightarrow> world \<Rightarrow> client_error option \<times> 's \<times> world"
  assumes get_file_ok: "get_file node i p s w = (None, s', w') \<Longrightarrow> is_file w' p"
    and get_file_stays: "get_file node i p s w = (e, s', w') \<Longrightarrow> is_file w p \<Longrightarrow> is_file w' p"
    and get_file_frame: "get_file node i p s w = (e, s', w') \<Longrightarrow> same_except {p} w w'"
begin

lemma get_file_keeps:
  assumes "get_file node i p s w = (e, s', w')" and "q \<noteq> p"
  shows "fs_get w' q = fs_get w q"
  using same_except_get [OF get_file_frame [OF assms(1)]] assms(2) by simp

end

lemma sys_write_is_file: "sys_write p b w = (e, w') \<Longrightarrow> is_file w' p"
  by (auto simp: sys_write_def is_file_def split: option.splits)

lemma sys_create_stays: "sys_create p w = (e, w') \<Longrightarrow> is_file w p \<Longrightarrow> is_file w' p"
  by (auto simp: sys_create_def is_file_def split: option.splits if_splits inode.splits)

interpretation diagnostics_client: bundle_client "client_GetFile ht" for ht :: "'s http"
proof
  fix node i p and s s' :: 's and w w'
  assume "client_GetFile ht node i p s w = (None, s', w')"
  then show "is_file w' p"
    by (auto simp: client_GetFile_def split: prod.splits sum.splits option.splits dest: sys_write_is_file)
next
  fix node i p and s s' :: 's and w w' e
  assume "client_GetFile ht node i p s w = (e, s', w')" and "is_file w p"
  then show "is_file w' p"
    by (auto simp: client_GetFile_def split: prod.splits sum.splits option.splits
        dest: sys_write_is_file sys_create_stays)
next
  fix node i p and s s' :: 's and w w' e
  assume "client_GetFile ht node i p s w = (e, s', w')"
  then show "same_except {p} w w'"
    by (auto simp: client_GetFile_def split: prod.splits sum.splits option.splits
        dest!: frame_calls(5,6) intro: same_except_chain)
qed

section \<open>The client and the node\<close>

text \<open>The routes of the node-level API as the client's URLs reach them, and the transport that serves them.\<close>

definition node_route :: "string \<Rightarrow> http_method \<Rightarrow> string \<Rightarrow> node_request option" where
  "node_route base meth url =
     (if has_prefix url (base @ bundlesEndpoint) then
        (case (meth, split_on slash (drop (length (base @ bundlesEndpoint)) url)) of
           (GET, [[]]) \<Rightarrow> Some ListBundles
         | (PUT, [[], i]) \<Rightarrow> Some (PutBundle i)
         | (DELETE, [[], i]) \<Rightarrow> Some (DeleteBundle i)
         | (GET, [[], i]) \<Rightarrow> Some (GetBundle i)
         | (GET, [[], i, f]) \<Rightarrow> if f = ''file'' then Some (GetBundleFile i) else None
         | _ \<Rightarrow> None)
      else None)"

definition node_do :: "BundleHandler \<Rightarrow> string \<Rightarrow> http_method \<Rightarrow> string \<Rightarrow> world \<Rightarrow> response result \<times> world" where
  "node_do h base meth url w =
     (case node_route base meth url of
        None \<Rightarrow> (Inr \<lparr>rcode = StatusNotFound, rheaders = [], rbody = PlainBody ''404 page not found''\<rparr>, w)
      | Some q \<Rightarrow>
          (case serve_node h q w of
             (Respond r, w1, sp) \<Rightarrow> (Inr r, w1)
           | (Panic e, w1, sp) \<Rightarrow> (Inl ''EOF'', w1)))"

definition node_http :: "BundleHandler \<Rightarrow> string \<Rightarrow> (body \<Rightarrow> string) \<Rightarrow> world http" where
  "node_http h base rd = \<lparr>ht_new = (\<lambda>_. None), ht_do = node_do h base, ht_read = rd\<rparr>"

lemma node_route_bundle:
  assumes "valid_id i"
  shows "node_route base GET (remoteURL base i) = Some (GetBundle i)"
    and "node_route base PUT (remoteURL base i) = Some (PutBundle i)"
    and "node_route base DELETE (remoteURL base i) = Some (DeleteBundle i)"
    and "node_route base GET (remoteURL base i @ ''/file'') = Some (GetBundleFile i)"
proof -
  have s: "slash \<notin> set i" using assms by (simp add: real_comp_def)
  have 1: "split_on slash (CHR ''/'' # i) = [[], i]" using s by (simp add: split_on_id)
  have "split_on slash (i @ slash # ''file'') = [i, ''file'']"
    using s split_on_append [of slash i "''file''"] by (simp add: split_on_id)
  then have 2: "split_on slash (CHR ''/'' # i @ ''/file'') = [[], i, ''file'']" by simp
  have p: "has_prefix (remoteURL base i) (base @ bundlesEndpoint)"
    "has_prefix (remoteURL base i @ ''/file'') (base @ bundlesEndpoint)"
    by (simp_all add: has_prefix_def remoteURL_def)
  have d: "drop (length (base @ bundlesEndpoint)) (remoteURL base i) = CHR ''/'' # i"
    "drop (length (base @ bundlesEndpoint)) (remoteURL base i @ ''/file'') = CHR ''/'' # i @ ''/file''"
    by (simp_all add: remoteURL_def)
  show "node_route base GET (remoteURL base i) = Some (GetBundle i)"
    "node_route base PUT (remoteURL base i) = Some (PutBundle i)"
    "node_route base DELETE (remoteURL base i) = Some (DeleteBundle i)"
    "node_route base GET (remoteURL base i @ ''/file'') = Some (GetBundleFile i)"
    unfolding node_route_def d 1 2 by (simp_all only: p if_True) simp_all
qed

lemma unmarshal_zero: "unmarshal_bundle (marshal_bundle b) zero_bundle = (None, b)"
  by (simp add: unmarshal_bundle_def marshal_bundle_def zero_bundle_def Let_def)

text \<open>
  A client that asks a node for the status of a bundle learns what the node stores: the stored bundle with the size of its
  data file, "not found" for an id without bundle, and "not readable" for a bundle whose files are missing or unreadable.
\<close>

lemma client_Status_slot:
  assumes "calm w" and "valid_id i"
  shows "fst (client_Status (node_http h base rd) base i w) =
    (case slot_of h w i of
       Absent \<Rightarrow> Inl (DiagnosticsBundleNotFoundError i)
     | Broken \<Rightarrow> Inl (DiagnosticsBundleUnreadableError i)
     | Stored b d \<Rightarrow> if usable b d then Inr (presented w b d) else Inl (DiagnosticsBundleUnreadableError i))"
proof -
  obtain o' w' where g: "bh_Get h i w = (o', w')" by fastforce
  have rt: "node_route base GET (remoteURL base i) = Some (GetBundle i)" using node_route_bundle(1) [OF assms(2)] .
  have ct: "calm (tick w)" using assms(1) by simp
  note defs = client_Status_def client_call_def node_http_def node_do_def rt decode_to_def handleErrorCode_def
  consider (absent) "slot_of h w i = Absent" | (ok) b d where "slot_of h w i = Stored b d" "usable b d"
    | (bad) "slot_of h w i \<noteq> Absent" "\<forall>b d. slot_of h w i = Stored b d \<longrightarrow> \<not> usable b d" by blast
  then show ?thesis
  proof cases
    case absent
    then show ?thesis
      using bundleExists_calm [OF assms(1), of h i] by (simp add: defs bh_Get_def http_NotFound_def respond_def)
  next
    case (ok b d)
    have pt: "presented (tick w) b d = presented w b d" by (simp add: presented_def split: option.splits)
    obtain w2 where "getBundleState h i (tick w) = (presented w b d, None, w2)"
      using getBundleState_usable [OF ct, of h i b d] ok pt by auto
    then show ?thesis
      using bundleExists_calm [OF assms(1), of h i] ok by (simp add: defs bh_Get_def respond_def unmarshal_zero)
  next
    case bad
    obtain b e w2 where "getBundleState h i (tick w) = (b, Some e, w2)"
      using getBundleState_unusable [OF ct, of h i] bad by auto
    then show ?thesis
      using bundleExists_calm [OF assms(1), of h i] bad
      by (cases "slot_of h w i") (simp_all add: defs bh_Get_def respond_def)
  qed
qed

text \<open>
  A download through the client delivers the archive of a bundle that is \<^const>\<open>Done\<close>, and changes nothing on the node.
\<close>

lemma client_GetFile_delivers:
  assumes "calm w" and "valid_id i" and "slot_of h w i = Stored b (Some (File c))" and "bStatus b = Done"
    and "calm lw" and "fs_get lw p \<noteq> Some Dir" and "is_dir lw (parent p)"
  shows "\<exists>w' lw'. client_GetFile (node_http h base rd) base i p w lw = (None, w', lw') \<and>
    fs_get lw' p = Some (File c) \<and> same_except {p} lw lw' \<and> same_except {} w w'"
proof -
  obtain w' where g: "bh_GetFile h i w = (Respond \<lparr>rcode = 200, rheaders = download_headers i, rbody = FileBody c\<rparr>, w')"
    using getfile_done [OF assms(1,3,4)] by blast
  have rt: "node_route base GET (remoteURL base i @ ''/file'') = Some (GetBundleFile i)"
    using node_route_bundle(4) [OF assms(2)] .
  have cc: "client_call (node_http h base rd) GET (remoteURL base i @ ''/file'') i w =
      (Inr \<lparr>rcode = 200, rheaders = download_headers i, rbody = FileBody c\<rparr>, w')"
    using g by (simp add: client_call_def node_http_def node_do_def rt handleErrorCode_def)
  have cr: "sys_create p lw = (None, fs_put p (File (Bytes [])) (tick lw))"
    using assms(5-7) by (simp add: sys_create_def calm_failing)
  have "failing (fs_put p (File (Bytes [])) (tick lw)) = None"
    using assms(5) by (simp add: calm_def failing_def)
  then have "client_GetFile (node_http h base rd) base i p w lw =
      (None, w', fs_put p (File c) (tick (fs_put p (File (Bytes [])) (tick lw))))"
    using cc cr by (simp add: client_GetFile_def sys_write_def)
  then show ?thesis using diagnostics_client.get_file_frame bh_GetFile_frame [OF g] by fastforce
qed

end
