(* ===== verification/Zip_Merge.thy ===== *)
theory Zip_Merge
  imports Rest_Client
begin

text \<open>
  Merging the archives of the nodes into one cluster archive: \<^verbatim>\<open>mergeZips\<close>, \<^verbatim>\<open>appendToZip\<close>,
  \<^verbatim>\<open>addFileToZip\<close> and \<^verbatim>\<open>sanitizeExtractPath\<close> of \<^verbatim>\<open>api/rest/coordinator.go\<close>. The zip writer is the list
  of entries written so far; it is flushed to its file when it is closed, which the deferred calls do
  on every way out and whose error nobody looks at.
\<close>

section \<open>Names of entries\<close>

definition reportFileName :: string where "reportFileName = ''report.json''"

definition sanitizeExtractPath :: "string \<Rightarrow> string \<Rightarrow> string result" where
  "sanitizeExtractPath filePath destination =
     (let destpath = join [destination, filePath] in
      if \<not> has_prefix destpath (clean destination @ [slash])
      then Inl (msg [filePath, '': illegal file path''])
      else Inr destpath)"

section \<open>Merging\<close>

text \<open>\<^verbatim>\<open>io.Copy\<close> of an archive's entry to the last entry of the writer.\<close>

definition zip_CopyEntry :: "blob \<Rightarrow> zip \<Rightarrow> world \<Rightarrow> string option \<times> zip \<times> world" where
  "zip_CopyEntry c z w =
     (case failing w of
        Some e \<Rightarrow> (Some e, butlast z @ [(fst (last z), Torn c)], tick w)
      | None \<Rightarrow> (None, butlast z @ [(fst (last z), c)], tick w))"

text \<open>Opening an entry or reading it to its end, one call each.\<close>

definition sys_entry :: "world \<Rightarrow> string option \<times> world" where
  "sys_entry w = (failing w, tick w)"

definition addFileToZip :: "zip \<Rightarrow> string \<times> blob \<Rightarrow> string \<Rightarrow> world \<Rightarrow> string option \<times> zip \<times> world" where
  "addFileToZip z f base w =
     (case sys_entry w of
        (Some e, w1) \<Rightarrow> (Some (msg [''could not open '', fst f, '' from zip: '', e]), z, w1)
      | (None, w1) \<Rightarrow>
          (case sanitizeExtractPath (fst f) base of
             Inl e \<Rightarrow> (Some e, z, w1)
           | Inr fileName \<Rightarrow>
               (case zip_Create fileName z w1 of
                  (Some e, z1, w2) \<Rightarrow> (Some (msg [''could not create file '', fileName, '': '', e]), z1, w2)
                | (None, z1, w2) \<Rightarrow>
                    (case zip_CopyEntry (snd f) z1 w2 of
                       (Some e, z2, w3) \<Rightarrow> (Some (msg [''could not copy file '', fileName, '' to zip: '', e]), z2, w3)
                     | (None, z2, w3) \<Rightarrow> (None, z2, w3)))))"

text \<open>The loop of \<^verbatim>\<open>appendToZip\<close>; the error summaries are returned, everything else is added.\<close>

fun append_loop :: "zip \<Rightarrow> string \<Rightarrow> (string \<times> blob) list \<Rightarrow> string \<Rightarrow> world \<Rightarrow> string result \<times> zip \<times> world" where
  "append_loop z base [] rc w = (Inr rc, z, w)"
| "append_loop z base (f # fs) rc w =
     (if fst f = summaryErrorsReportFileName then
        (case sys_entry w of
           (Some e, w1) \<Rightarrow> (Inl (msg [''could not open '', fst f, '' from zip: '', e]), z, w1)
         | (None, w1) \<Rightarrow>
             (case sys_entry w1 of
                (Some e, w2) \<Rightarrow> (Inl (msg [''could not read '', fst f, '' from zip: '', e]), z, w2)
              | (None, w2) \<Rightarrow> append_loop z base fs (encode w2 (snd f)) w2))
      else
        (case addFileToZip z f base w of
           (Some e, z1, w1) \<Rightarrow> (Inl e, z1, w1)
         | (None, z1, w1) \<Rightarrow> append_loop z1 base fs rc w1))"

text \<open>\<^verbatim>\<open>zip.OpenReader\<close>: only a complete archive can be opened.\<close>

definition zip_OpenReader :: "string \<Rightarrow> world \<Rightarrow> (string \<times> blob) list result \<times> world" where
  "zip_OpenReader path w =
     (case sys_read_file path w of
        (Inl e, w1) \<Rightarrow> (Inl e, w1)
      | (Inr (Zip es), w1) \<Rightarrow> (Inr es, w1)
      | (Inr b, w1) \<Rightarrow> (Inl ''zip: not a valid zip file'', w1))"

definition appendToZip :: "zip \<Rightarrow> string \<Rightarrow> world \<Rightarrow> string result \<times> zip \<times> world" where
  "appendToZip z path w =
     (case zip_OpenReader path w of
        (Inl e, w1) \<Rightarrow> (Inl (msg [''could not open '', path, '': '', e]), z, w1)
      | (Inr es, w1) \<Rightarrow> append_loop z (trim_suffix (base_name path) ''.zip'') es [] w1)"

fun merge_loop :: "zip \<Rightarrow> string list \<Rightarrow> string \<Rightarrow> world \<Rightarrow> string result \<times> zip \<times> world" where
  "merge_loop z [] errorBuffer w = (Inr errorBuffer, z, w)"
| "merge_loop z (p # ps) errorBuffer w =
     (case appendToZip z p w of
        (Inl e, z1, w1) \<Rightarrow> (Inl e, z1, w1)
      | (Inr rc, z1, w1) \<Rightarrow> merge_loop z1 ps (errorBuffer @ rc) w1)"

text \<open>The body of \<^verbatim>\<open>mergeZips\<close> between opening the merged file and the deferred calls: the report, the
  nodes' entries, and the collected error summaries when there are any.\<close>

definition merge_report :: "report_doc \<Rightarrow> world \<Rightarrow> string option \<times> zip \<times> world" where
  "merge_report report w =
     (case zip_Create reportFileName [] w of
        (Some e, z1, w1) \<Rightarrow> (Some (msg [''could not create file '', reportFileName, '': '', e]), z1, w1)
      | (None, z1, w1) \<Rightarrow>
          (case zip_CopyEntry (ReportDoc report) z1 w1 of
             (Some e, z2, w2) \<Rightarrow> (Some (msg [''could not copy file '', reportFileName, '' to zip: '', e]), z2, w2)
           | (None, z2, w2) \<Rightarrow> (None, z2, w2)))"

definition merge_summary :: "string \<Rightarrow> zip \<Rightarrow> world \<Rightarrow> string option \<times> zip \<times> world" where
  "merge_summary errorBuffer z w =
     (if length errorBuffer > 0 then
        (case zip_Create summaryErrorsReportFileName z w of
           (Some e, z1, w1) \<Rightarrow>
             (Some (msg [''could not create file '', summaryErrorsReportFileName, '': '', e]), z1, w1)
         | (None, z1, w1) \<Rightarrow>
             (case zip_CopyEntry (Bytes errorBuffer) z1 w1 of
                (Some e, z2, w2) \<Rightarrow>
                  (Some (msg [''could not copy file '', summaryErrorsReportFileName, '' to zip: '', e]), z2, w2)
              | (None, z2, w2) \<Rightarrow> (None, z2, w2)))
      else (None, z, w))"

definition merge_entries :: "report_doc \<Rightarrow> string list \<Rightarrow> world \<Rightarrow> string option \<times> zip \<times> world" where
  "merge_entries report bundlePaths w =
     (case merge_report report w of
        (Some e, z1, w1) \<Rightarrow> (Some e, z1, w1)
      | (None, z1, w1) \<Rightarrow>
          (case merge_loop z1 bundlePaths [] w1 of
             (Inl e, z2, w2) \<Rightarrow> (Some e, z2, w2)
           | (Inr errorBuffer, z2, w2) \<Rightarrow> merge_summary errorBuffer z2 w2))"

definition merged_path :: "string \<Rightarrow> string \<Rightarrow> string" where
  "merged_path workDir i = join [workDir, msg [''bundle-'', i, ''.zip'']]"

definition mergeZips :: "report_doc \<Rightarrow> string list \<Rightarrow> string \<Rightarrow> world \<Rightarrow> string result \<times> world" where
  "mergeZips report bundlePaths workDir w =
     (let bundlePath = merged_path workDir (rep_id report) in
      case sys_create bundlePath w of
        (Some e, w1) \<Rightarrow> (Inl e, w1)
      | (None, w1) \<Rightarrow>
          (case merge_entries report bundlePaths w1 of
             (e, z, w2) \<Rightarrow>
               (case close_all bundlePath [] z w2 of
                  (ignored, w3) \<Rightarrow> ((case e of Some e \<Rightarrow> Inl e | None \<Rightarrow> Inr bundlePath), w3))))"

section \<open>Safe entry names\<close>

lemma clean_real: "real_comp b \<Longrightarrow> clean b = b"
  using join_real [of "[b]" "[]"] clean_join [of "[b]" "[]"]
  by (simp add: real_comp_def clean_def path_comps_def split_on_id rooted_def render_def split: list.splits)

lemma clean_relative_first:
  assumes "\<not> rooted p" and "clean p = b @ slash # rest" and "real_comp b"
  shows "path_comps p = b # split_on slash rest" and "\<forall>c\<in>set (split_on slash rest). real_comp c"
proof -
  have cl: "cleaned False (path_comps p)" using path_comps_cleaned [of p] assms(1) by simp
  have ne: "path_comps p \<noteq> []"
  proof
    assume "path_comps p = []"
    then have "clean p = ''.''" using assms(1) by (simp add: clean_def render_def)
    then show False using assms(2) by (cases b) auto
  qed
  then have "str_join [slash] (path_comps p) = b @ slash # rest"
    using assms(1,2) by (simp add: clean_def render_def)
  then have "path_comps p = split_on slash (b @ slash # rest)"
    using split_on_str_join [OF ne, of slash] cleaned_no_slash [OF cl] by metis
  also have "\<dots> = b # split_on slash rest"
    using assms(3) by (simp add: split_on_append split_on_id real_comp_def)
  finally show pc: "path_comps p = b # split_on slash rest" .
  show "\<forall>c\<in>set (split_on slash rest). real_comp c"
    using cleaned_from_real [of False b "split_on slash rest"] cl pc assms(3) by (simp add: real_comp_def)
qed

lemma sanitize_safe:
  assumes "sanitizeExtractPath f base = Inr p" and "real_comp base"
  shows "\<exists>cs. cs \<noteq> [] \<and> (\<forall>c\<in>set cs. real_comp c) \<and> p = str_join [slash] (base # cs)"
proof -
  have b: "base \<noteq> []" "slash \<notin> set base" using assms(2) by (auto simp: real_comp_def)
  have p: "p = clean (str_join [slash] [base, f])" and hp: "has_prefix p (base @ [slash])"
    using assms b(1) by (auto simp: sanitizeExtractPath_def Let_def clean_real split: if_splits)
  from hp obtain rest where pr: "p = base @ slash # rest" by (auto simp: has_prefix_iff prefix_def)
  have nr: "\<not> rooted (str_join [slash] [base, f])" using not_rooted_str_join [OF b] .
  note first = clean_relative_first [OF nr, of base rest]
  have "str_join [slash] (base # split_on slash rest) = p"
    using pr str_join_split_on [of slash rest] by (simp add: str_join_Cons)
  then show ?thesis using first(2) p pr assms(2) by (intro exI [of _ "split_on slash rest"]) simp
qed

lemma sanitize_accepts:
  assumes "real_comp base" and "\<forall>c\<in>set cs. real_comp c" and "cs \<noteq> []"
  shows "sanitizeExtractPath (str_join [slash] cs) base = Inr (str_join [slash] (base # cs))"
proof -
  have b: "base \<noteq> []" using assms(1) by (simp add: real_comp_def)
  have nr: "\<not> rooted base" using assms(1) by (auto simp: real_comp_def rooted_def split: list.splits)
  have pb: "path_comps base = [base]"
    using assms(1) nr by (simp add: path_comps_def split_on_id real_comp_def)
  have "str_join [slash] [base, str_join [slash] cs] = str_join [slash] (base # cs)"
    using assms(3) by (simp add: str_join_Cons)
  then have "join [base, str_join [slash] cs] = join (base # cs)" using b by simp
  also have "\<dots> = str_join [slash] (base # cs)"
    using join_real [OF assms(2,3), of base] nr pb by (simp add: render_def del: join.simps)
  finally show ?thesis
    using assms(3) clean_real [OF assms(1)]
    by (simp add: sanitizeExtractPath_def Let_def str_join_Cons has_prefix_def del: join.simps)
qed

section \<open>Which names the merged archive has\<close>

lemma zip_Create_names:
  "zip_Create n z w = (e, z', w') \<Longrightarrow> z' = z @ (case e of None \<Rightarrow> [(n, Bytes [])] | Some _ \<Rightarrow> [])"
  by (cases "failing w"; cases e) (simp_all add: zip_Create_def)

lemma zip_CopyEntry_names:
  "zip_CopyEntry c z w = (e, z', w') \<Longrightarrow> z \<noteq> [] \<Longrightarrow> fst ` set z' = fst ` set z"
  by (cases z rule: rev_cases; cases "failing w") (auto simp: zip_CopyEntry_def)

text \<open>A name inside the directory of one node: the node's name, then real path components.\<close>

definition inside :: "string \<Rightarrow> string \<Rightarrow> bool" where
  "inside base n = (\<exists>cs. cs \<noteq> [] \<and> (\<forall>c\<in>set cs. real_comp c) \<and> n = str_join [slash] (base # cs))"

lemma addFileToZip_names:
  assumes "addFileToZip z f base w = (e, z', w')" and "real_comp base" and "n \<in> fst ` set z'"
  shows "n \<in> fst ` set z \<or> inside base n"
proof -
  have ins: "inside base p" if "sanitizeExtractPath (fst f) base = Inr p" for p
    using sanitize_safe [OF that assms(2)] by (simp add: inside_def)
  show ?thesis
  proof (cases "sanitizeExtractPath (fst f) base")
    case (Inl e')
    then show ?thesis
      using assms(1,3) by (auto simp: addFileToZip_def split: prod.splits option.splits)
  next
    case (Inr p)
    obtain e1 z1 w2 where c: "zip_Create p z (tick w) = (e1, z1, w2)" by (metis prod_cases3)
    obtain e2 z2 w3 where k: "zip_CopyEntry (snd f) z1 w2 = (e2, z2, w3)" by (metis prod_cases3)
    have "z' = z \<or> z' = z1 \<or> z' = z2 \<and> z1 \<noteq> []"
      using assms(1) Inr c k zip_Create_names [OF c]
      by (auto simp: addFileToZip_def sys_entry_def split: option.splits prod.splits)
    then have "fst ` set z' \<subseteq> insert p (fst ` set z)"
      using zip_Create_names [OF c] zip_CopyEntry_names [OF k] by (auto split: option.splits)
    then show ?thesis using assms(3) ins [OF Inr] by auto
  qed
qed

lemma append_loop_names:
  assumes "append_loop z base es rc w = (r, z', w')" and "real_comp base" and "n \<in> fst ` set z'"
  shows "n \<in> fst ` set z \<or> inside base n"
  using assms
proof (induction es arbitrary: z rc w)
  case (Cons f fs)
  show ?case
  proof (cases "fst f = summaryErrorsReportFileName")
    case True
    then show ?thesis
      using Cons by (auto simp: sys_entry_def split: option.splits prod.splits)
  next
    case False
    obtain e z1 w1 where a: "addFileToZip z f base w = (e, z1, w1)" by (metis prod_cases3)
    note nm = addFileToZip_names [OF a Cons.prems(2), of n]
    show ?thesis
    proof (cases e)
      case None
      then show ?thesis using Cons.IH [of z1 rc w1] Cons.prems False a nm by auto
    next
      case (Some x)
      then show ?thesis using Cons.prems False a nm by auto
    qed
  qed
qed simp

lemma merge_loop_names:
  assumes "merge_loop z ps buf w = (r, z', w')" and "\<forall>p\<in>set ps. real_comp (trim_suffix (base_name p) ''.zip'')"
    and "n \<in> fst ` set z'"
  shows "n \<in> fst ` set z \<or> (\<exists>p\<in>set ps. inside (trim_suffix (base_name p) ''.zip'') n)"
  using assms
proof (induction ps arbitrary: z buf w)
  case (Cons p ps)
  obtain r1 z1 w1 where a: "appendToZip z p w = (r1, z1, w1)" by (metis prod_cases3)
  have nm: "m \<in> fst ` set z1 \<Longrightarrow> m \<in> fst ` set z \<or> inside (trim_suffix (base_name p) ''.zip'') m" for m
    using a Cons.prems(2)
    using append_loop_names [of z "trim_suffix (base_name p) ''.zip''" _ "[]" _ r1 z1 w1 m]
    by (auto simp: appendToZip_def split: prod.splits sum.splits)
  show ?case
  proof (cases r1)
    case (Inl e)
    then show ?thesis using Cons.prems a nm by auto
  next
    case (Inr rc)
    then have "merge_loop z1 ps (buf @ rc) w1 = (r, z', w')" using Cons.prems(1) a by simp
    from Cons.IH [OF this] Cons.prems nm show ?thesis by auto
  qed
qed simp

lemma merge_report_names: "merge_report report w = (e, z, w') \<Longrightarrow> fst ` set z \<subseteq> {reportFileName}"
  by (auto simp: merge_report_def zip_Create_def zip_CopyEntry_def split: option.splits)

lemma merge_summary_names:
  assumes "merge_summary buf z w = (e, z', w')"
  shows "fst ` set z' \<subseteq> insert summaryErrorsReportFileName (fst ` set z)"
proof -
  obtain e1 z1 w1 where c: "zip_Create summaryErrorsReportFileName z w = (e1, z1, w1)" by (metis prod_cases3)
  obtain e2 z2 w2 where k: "zip_CopyEntry (Bytes buf) z1 w1 = (e2, z2, w2)" by (metis prod_cases3)
  have "z' = z \<or> z' = z1 \<or> z' = z2 \<and> z1 \<noteq> []"
    using assms c k zip_Create_names [OF c] by (auto simp: merge_summary_def split: if_splits option.splits)
  then show ?thesis
    using zip_Create_names [OF c] zip_CopyEntry_names [OF k] by (auto split: option.splits)
qed

lemma merge_entries_names:
  assumes "merge_entries report ps w = (e, z, w')" and "\<forall>p\<in>set ps. real_comp (trim_suffix (base_name p) ''.zip'')"
    and "n \<in> fst ` set z"
  shows "n = reportFileName \<or> n = summaryErrorsReportFileName \<or>
    (\<exists>p\<in>set ps. inside (trim_suffix (base_name p) ''.zip'') n)"
proof -
  obtain e1 z1 w1 where r: "merge_report report w = (e1, z1, w1)" by (metis prod_cases3)
  obtain r2 z2 w2 where m: "merge_loop z1 ps [] w1 = (r2, z2, w2)" by (metis prod_cases3)
  note n1 = merge_report_names [OF r] and n2 = merge_loop_names [OF m assms(2), of n]
  consider "z = z1" | "z = z2" | buf where "merge_summary buf z2 w2 = (e, z, w')"
    using assms(1) r m by (auto simp: merge_entries_def split: option.splits sum.splits)
  then show ?thesis
  proof cases
    case 1
    then show ?thesis using assms(3) n1 by blast
  next
    case 2
    then show ?thesis using assms(3) n1 n2 by blast
  next
    case (3 buf)
    then have "n \<in> insert summaryErrorsReportFileName (fst ` set z2)" using assms(3) merge_summary_names by blast
    then show ?thesis using n1 n2 by blast
  qed
qed

section \<open>Frames\<close>

lemma zip_CopyEntry_tick: "zip_CopyEntry c z w = (e, z', w') \<Longrightarrow> w' = tick w"
  by (auto simp: zip_CopyEntry_def split: option.splits)

lemma addFileToZip_frame: "addFileToZip z f base w = (e, z', w') \<Longrightarrow> same_except {} w w'"
  by (auto simp: addFileToZip_def sys_entry_def split: option.splits sum.splits prod.splits
      dest!: zip_calls(1) zip_CopyEntry_tick)

lemma append_loop_frame: "append_loop z base es rc w = (r, z', w') \<Longrightarrow> same_except {} w w'"
proof (induction es arbitrary: z rc w)
  case (Cons f fs)
  obtain e z1 w1 where a: "addFileToZip z f base w = (e, z1, w1)" by (metis prod_cases3)
  show ?case
    using Cons.prems Cons.IH [of z _ "tick (tick w)"] Cons.IH [of z1 rc w1] a
      same_except_chain [OF addFileToZip_frame [OF a]] addFileToZip_frame [OF a]
    by (auto simp: sys_entry_def split: if_splits option.splits dest: same_except_tick_left)
qed simp

lemma appendToZip_frame: "appendToZip z p w = (r, z', w') \<Longrightarrow> same_except {} w w'"
  by (auto simp: appendToZip_def zip_OpenReader_def split: prod.splits sum.splits blob.splits
      dest!: read_only_calls(2) append_loop_frame dest: same_except_tick_left)

lemma merge_loop_frame: "merge_loop z ps buf w = (r, z', w') \<Longrightarrow> same_except {} w w'"
proof (induction ps arbitrary: z buf w)
  case (Cons p ps)
  obtain r1 z1 w1 where a: "appendToZip z p w = (r1, z1, w1)" by (metis prod_cases3)
  show ?case
    using Cons.prems Cons.IH [of z1 _ w1] a appendToZip_frame [OF a]
      same_except_chain [OF appendToZip_frame [OF a]] by (auto split: sum.splits)
qed simp

lemma merge_entries_frame:
  assumes "merge_entries report ps w = (e, z, w')"
  shows "same_except {} w w'"
proof -
  obtain e1 z1 w1 where r: "merge_report report w = (e1, z1, w1)" by (metis prod_cases3)
  obtain r2 z2 w2 where m: "merge_loop z1 ps [] w1 = (r2, z2, w2)" by (metis prod_cases3)
  have f1: "same_except {} w w1"
    using r by (auto simp: merge_report_def split: option.splits prod.splits dest!: zip_calls(1) zip_CopyEntry_tick)
  have f2: "same_except {} w1 w2" using m by (rule merge_loop_frame)
  have f3: "same_except {} w2 w'" if "merge_summary b z2 w2 = (e, z, w')" for b
    using that by (auto simp: merge_summary_def split: if_splits option.splits prod.splits
        dest!: zip_calls(1) zip_CopyEntry_tick)
  show ?thesis
    using assms r m f1 same_except_chain [OF f1 f2] same_except_chain [OF same_except_chain [OF f1 f2] f3]
    by (auto simp: merge_entries_def split: option.splits sum.splits)
qed

section \<open>What the merged archive holds\<close>

text \<open>
  The reference for a merge without faults: the report, then for each archive its entries under the
  archive's name, then the error summaries of all archives, one after the other, if there are any.
\<close>

definition node_entries :: "string \<Rightarrow> (string \<times> blob) list \<Rightarrow> (string \<times> blob) list" where
  "node_entries base es =
     map (\<lambda>(n, c). (base @ slash # n, c)) (filter (\<lambda>(n, c). n \<noteq> summaryErrorsReportFileName) es)"

definition summary_from :: "world \<Rightarrow> string \<Rightarrow> (string \<times> blob) list \<Rightarrow> string" where
  "summary_from w = foldl (\<lambda>rc (n, c). if n = summaryErrorsReportFileName then encode w c else rc)"

lemma summary_from_oracle:
  assumes "enc w' = enc w"
  shows "summary_from w' = summary_from w"
proof -
  have "encode w' = encode w" using encode_oracle [OF assms] by (simp add: fun_eq_iff)
  then show ?thesis unfolding summary_from_def by (simp only:)
qed

lemma summary_from_tick [simp]: "summary_from (tick w) = summary_from w"
  by (rule summary_from_oracle) simp

lemma encode_tick [simp]: "encode (tick w) b = encode w b"
  by (rule encode_oracle) simp

definition archive_name :: "string \<Rightarrow> string" where
  "archive_name p = trim_suffix (base_name p) ''.zip''"

definition merged_archive :: "world \<Rightarrow> report_doc \<Rightarrow> (string \<times> (string \<times> blob) list) list \<Rightarrow> (string \<times> blob) list" where
  "merged_archive w report archives =
     (let errs = concat (map (\<lambda>(p, es). summary_from w [] es) archives) in
      (reportFileName, ReportDoc report) #
      concat (map (\<lambda>(p, es). node_entries (archive_name p) es) archives) @
      (if errs = [] then [] else [(summaryErrorsReportFileName, Bytes errs)]))"

definition plain_names :: "(string \<times> blob) list \<Rightarrow> bool" where
  "plain_names es = list_all (\<lambda>(n, c). list_all real_comp (split_on slash n)) es"

lemma sanitize_plain:
  assumes "real_comp base" and "list_all real_comp (split_on slash n)"
  shows "sanitizeExtractPath n base = Inr (base @ slash # n)"
  using sanitize_accepts [OF assms(1), of "split_on slash n"] assms(2)
  by (simp add: str_join_split_on str_join_Cons list_all_iff)

lemma zip_add_calm:
  assumes "calm w"
  shows "\<exists>w1. zip_Create n z w = (None, z @ [(n, Bytes [])], w1) \<and>
    zip_CopyEntry c (z @ [(n, Bytes [])]) w1 = (None, z @ [(n, c)], tick w1) \<and> w1 = tick w"
  using assms by (simp add: zip_Create_def zip_CopyEntry_def calm_failing)

lemma append_loop_calm:
  assumes "calm w" and "real_comp base" and "plain_names es"
  shows "\<exists>w'. append_loop z base es rc w = (Inr (summary_from w rc es), z @ node_entries base es, w') \<and>
    same_except {} w w'"
  using assms
proof (induction es arbitrary: z rc w)
  case Nil
  then show ?case by (auto simp: summary_from_def node_entries_def)
next
  case (Cons f fs)
  obtain n c where f: "f = (n, c)" by (cases f)
  have ct: "calm (tick (tick w))" "calm (tick (tick (tick w)))" and pl: "plain_names fs"
    using Cons.prems by (simp_all add: plain_names_def)
  have tt: "same_except {} w w'" if "same_except {} (tick (tick w)) w' \<or> same_except {} (tick (tick (tick w))) w'" for w'
    using that by (auto dest!: same_except_tick_left)
  show ?case
  proof (cases "n = summaryErrorsReportFileName")
    case True
    then show ?thesis
      using Cons.IH [OF ct(1) Cons.prems(2) pl, of z "encode w c"] Cons.prems(1) f tt
      by (auto simp: sys_entry_def calm_failing node_entries_def) (auto simp: summary_from_def)
  next
    case False
    have "addFileToZip z f base w = (None, z @ [(base @ slash # n, c)], tick (tick (tick w)))"
      using sanitize_plain [of base n] zip_add_calm [of "tick w" "base @ slash # n" z c] Cons.prems f
      by (auto simp: addFileToZip_def sys_entry_def calm_failing plain_names_def)
    then show ?thesis
      using Cons.IH [OF ct(2) Cons.prems(2) pl, of "z @ [(base @ slash # n, c)]" rc] False f tt
      by (auto simp: node_entries_def) (auto simp: summary_from_def)
  qed
qed

lemma merge_loop_calm:
  assumes "calm w" and "\<forall>(p, es)\<in>set archives. fs_get w p = Some (File (Zip es)) \<and> real_comp (archive_name p) \<and> plain_names es"
  shows "\<exists>w'. merge_loop z (map fst archives) buf w =
    (Inr (buf @ concat (map (\<lambda>(p, es). summary_from w [] es) archives)),
     z @ concat (map (\<lambda>(p, es). node_entries (archive_name p) es) archives), w') \<and> same_except {} w w'"
  using assms
proof (induction archives arbitrary: z buf w)
  case (Cons a as)
  obtain p es where a: "a = (p, es)" by (cases a)
  have op: "zip_OpenReader p w = (Inr es, tick w)"
    using Cons.prems a by (simp add: zip_OpenReader_def sys_read_file_def calm_failing)
  have "calm (tick w)" using Cons.prems by simp
  from append_loop_calm [OF this, of "archive_name p" es z "[]"] Cons.prems a obtain w1 where
    ap: "append_loop z (archive_name p) es [] (tick w) = (Inr (summary_from w [] es), z @ node_entries (archive_name p) es, w1)"
    and fr: "same_except {} w w1"
    by (auto dest: same_except_tick_left)
  have sm: "summary_from w1 = summary_from w"
    using fr by (intro summary_from_oracle) (simp add: same_except_def)
  have "calm w1" using calm_same [OF fr] Cons.prems(1) by simp
  moreover have "\<forall>(p, es)\<in>set as. fs_get w1 p = Some (File (Zip es)) \<and> real_comp (archive_name p) \<and> plain_names es"
    using Cons.prems(2) fr by (auto simp: same_except_def)
  ultimately show ?case
    using Cons.IH [of w1 "z @ node_entries (archive_name p) es" "buf @ summary_from w [] es"] op ap fr a sm
    by (auto simp: appendToZip_def archive_name_def [symmetric] dest: same_except_chain)
qed auto

lemma merge_summary_calm:
  assumes "calm w"
  shows "\<exists>w'. merge_summary buf z w =
    (None, z @ (if buf = [] then [] else [(summaryErrorsReportFileName, Bytes buf)]), w') \<and> same_except {} w w'"
  using zip_add_calm [OF assms, of summaryErrorsReportFileName z "Bytes buf"] by (auto simp: merge_summary_def)

lemma merge_entries_calm:
  assumes "calm w" and "\<forall>(p, es)\<in>set archives. fs_get w p = Some (File (Zip es)) \<and> real_comp (archive_name p) \<and> plain_names es"
  shows "\<exists>w'. merge_entries report (map fst archives) w = (None, merged_archive w report archives, w') \<and> same_except {} w w'"
proof -
  let ?w1 = "tick (tick w)"
  have rp: "merge_report report w = (None, [(reportFileName, ReportDoc report)], ?w1)"
    using zip_add_calm [OF assms(1), of reportFileName "[]" "ReportDoc report"] by (auto simp: merge_report_def)
  have c1: "calm ?w1" using assms(1) by simp
  from merge_loop_calm [OF c1, of archives "[(reportFileName, ReportDoc report)]" "[]"] assms(2) obtain w2 where
    ml: "merge_loop [(reportFileName, ReportDoc report)] (map fst archives) [] ?w1 =
      (Inr (concat (map (\<lambda>(p, es). summary_from w [] es) archives)),
       (reportFileName, ReportDoc report) # concat (map (\<lambda>(p, es). node_entries (archive_name p) es) archives), w2)"
    and fr: "same_except {} ?w1 w2"
    by auto
  have c2: "calm w2" using calm_same [OF fr] c1 by simp
  have fw: "same_except {} w w2" using fr by (auto dest!: same_except_tick_left)
  let ?buf = "concat (map (\<lambda>(p, es). summary_from w [] es) archives)"
  let ?z = "(reportFileName, ReportDoc report) # concat (map (\<lambda>(p, es). node_entries (archive_name p) es) archives)"
  obtain w3 where ms: "merge_summary ?buf ?z w2 = (None, merged_archive w report archives, w3)"
    and f3: "same_except {} w2 w3"
    using merge_summary_calm [OF c2, of ?buf ?z] unfolding merged_archive_def Let_def by (metis append_Cons)
  have "merge_entries report (map fst archives) w = (None, merged_archive w report archives, w3)"
    using rp ml ms by (simp add: merge_entries_def)
  then show ?thesis using same_except_chain [OF fw f3] by blast
qed

text \<open>
  A merge without faults of archives with plain names succeeds and produces the reference archive.
\<close>

lemma mergeZips_calm:
  assumes "calm w" and "\<forall>(p, es)\<in>set archives. fs_get w p = Some (File (Zip es)) \<and>
      real_comp (archive_name p) \<and> plain_names es \<and> p \<noteq> merged_path workDir (rep_id report)"
    and "fs_get w (merged_path workDir (rep_id report)) \<noteq> Some Dir"
    and "is_dir w (parent (merged_path workDir (rep_id report)))"
  shows "\<exists>w'. mergeZips report (map fst archives) workDir w = (Inr (merged_path workDir (rep_id report)), w') \<and>
    fs_get w' (merged_path workDir (rep_id report)) = Some (File (Zip (merged_archive w report archives))) \<and>
    same_except {merged_path workDir (rep_id report)} w w'"
proof -
  let ?p = "merged_path workDir (rep_id report)"
  define w1 where "w1 = fs_put ?p (File (Bytes [])) (tick w)"
  have cr: "sys_create ?p w = (None, w1)"
    using assms(1,3,4) by (simp add: sys_create_def calm_failing w1_def)
  have c1: "calm w1" using assms(1) by (simp add: w1_def calm_def)
  have "\<forall>(p, es)\<in>set archives. fs_get w1 p = Some (File (Zip es)) \<and> real_comp (archive_name p) \<and> plain_names es"
    using assms(2) by (auto simp: w1_def)
  from merge_entries_calm [OF c1 this] obtain w2 where
    me: "merge_entries report (map fst archives) w1 = (None, merged_archive w1 report archives, w2)"
    and fr: "same_except {} w1 w2" by blast
  have ma: "merged_archive w1 report archives = merged_archive w report archives"
    unfolding merged_archive_def using summary_from_oracle [of w1 w] by (simp only: w1_def oracle_simps)
  have f: "is_file (tick w2) ?p" using fr by (simp add: is_file_def same_except_def w1_def)
  have nf: "failing w2 = None" "failing (flush_zip q b (tick w2)) = None" for q b
    using c1 calm_same [OF fr] by (simp_all add: calm_def failing_def)
  have "mergeZips report (map fst archives) workDir w =
      (Inr ?p, tick (flush_zip ?p (Zip (merged_archive w report archives)) (tick w2)))"
    using cr me ma nf by (simp add: mergeZips_def close_all_def Let_def)
  moreover have "same_except {?p} w (tick (flush_zip ?p (Zip (merged_archive w report archives)) (tick w2)))"
    using fr by (auto simp: same_except_def flush_zip_get w1_def)
  ultimately show ?thesis using f by (auto simp: flush_zip_get)
qed

section \<open>Properties\<close>

text \<open>Concrete inputs for the witnesses: one downloaded archive with an entry and an error summary.\<close>

definition sample_report :: report_doc where
  "sample_report = \<lparr>rep_id = ''b'', rep_nodes = [(''10.0.0.1'', \<lparr>nr_status = Done, nr_err = []\<rparr>)]\<rparr>"

definition sample_archives :: "(string \<times> (string \<times> blob) list) list" where
  "sample_archives = [(''/t/10.0.0.1_master.zip'', [(''ps.output'', Bytes ''p''), (summaryErrorsReportFileName, Bytes ''e'')])]"

definition sample_downloads :: world where
  "sample_downloads = sample_world ((''/t'', Dir) # map (\<lambda>(p, es). (p, File (Zip es))) sample_archives)"

text \<open>
  C19. No zip slip. Whatever the archives of the nodes contain, every entry of a merged archive is the
  report, the error summary, or lies inside the directory named after the node's archive: its name is
  that directory followed by path components none of which is empty, \<^verbatim>\<open>.\<close>, \<^verbatim>\<open>..\<close> or has a slash.
\<close>

theorem no_zip_slip:
  assumes "mergeZips report ps workDir w = (Inr path, w')" and "\<forall>p\<in>set ps. real_comp (archive_name p)"
    and "fs_get w' path = Some (File (Zip z)) \<or> fs_get w' path = Some (File (Torn (Zip z)))" and "n \<in> fst ` set z"
  shows "n = reportFileName \<or> n = summaryErrorsReportFileName \<or> (\<exists>p\<in>set ps. inside (archive_name p) n)"
proof -
  obtain w1 where cr: "sys_create path w = (None, w1)" and pth: "path = merged_path workDir (rep_id report)"
    using assms(1) by (auto simp: mergeZips_def Let_def split: prod.splits option.splits)
  obtain e z2 w2 where me: "merge_entries report ps w1 = (e, z2, w2)" by (metis prod_cases3)
  obtain ig w3 where cl: "close_all path [] z2 w2 = (ig, w3)" by fastforce
  have w': "w' = w3" using assms(1) cr me cl pth by (auto simp: mergeZips_def Let_def)
  have f1: "fs_get w1 path = Some (File (Bytes []))" using cr by (rule create_ok)
  have "fs_get w2 path = Some (File (Bytes []))"
    using f1 same_except_get [OF merge_entries_frame [OF me], of path] by simp
  then have "fs_get w3 path = Some (File (Zip z2)) \<or> fs_get w3 path = Some (File (Torn (Zip z2)))"
    using cl by (auto simp: close_all_def flush_zip_get is_file_def split: option.splits)
  then have "z = z2" using assms(3) w' by auto
  then show ?thesis
    using merge_entries_names [OF me] assms(2,4) by (simp add: archive_name_def)
qed

theorem no_zip_slip_witness:
  "\<exists>w' z. mergeZips sample_report (map fst sample_archives) ''/t'' sample_downloads = (Inr ''/t/bundle-b.zip'', w') \<and>
     fs_get w' ''/t/bundle-b.zip'' = Some (File (Zip z)) \<and>
     (\<forall>n\<in>fst ` set z. n = reportFileName \<or> n = summaryErrorsReportFileName \<or> inside ''10.0.0.1_master'' n)"
proof -
  let ?r = "mergeZips sample_report (map fst sample_archives) ''/t'' sample_downloads"
  have 1: "fst ?r = Inr ''/t/bundle-b.zip''" by code_simp
  have 2: "\<forall>p\<in>set (map fst sample_archives). real_comp (archive_name p)" by code_simp
  have 3: "archive_name ''/t/10.0.0.1_master.zip'' = ''10.0.0.1_master''" by code_simp
  obtain z where 4: "fs_get (snd ?r) ''/t/bundle-b.zip'' = Some (File (Zip z))"
  proof -
    have "(case fs_get (snd ?r) ''/t/bundle-b.zip'' of Some (File (Zip z)) \<Rightarrow> True | _ \<Rightarrow> False)" by code_simp
    then show ?thesis using that by (auto split: option.splits inode.splits blob.splits)
  qed
  have eq: "?r = (Inr ''/t/bundle-b.zip'', snd ?r)" using 1 by (metis prod.collapse)
  have "\<forall>n\<in>fst ` set z. n = reportFileName \<or> n = summaryErrorsReportFileName \<or> inside ''10.0.0.1_master'' n"
    using no_zip_slip [OF eq 2, of z] 4 3 by (auto simp: sample_archives_def)
  then show ?thesis using eq 4 by blast
qed

text \<open>
  The error of closing the merged archive is dropped. Whenever the entries are written but the call
  that closes the zip writer fails, \<^verbatim>\<open>mergeZips\<close> still reports success, and the file it names is an
  incomplete archive.
\<close>

theorem merge_ignores_close_error:
  assumes "sys_create (merged_path workDir (rep_id report)) w = (None, w1)"
    and "merge_entries report ps w1 = (None, z, w2)" and "failing w2 = Some e"
  shows "\<exists>w'. mergeZips report ps workDir w = (Inr (merged_path workDir (rep_id report)), w') \<and>
    fs_get w' (merged_path workDir (rep_id report)) = Some (File (Torn (Zip z)))"
proof -
  let ?p = "merged_path workDir (rep_id report)"
  have "is_file w2 ?p"
    using create_ok [OF assms(1)] same_except_get [OF merge_entries_frame [OF assms(2)], of ?p] by (simp add: is_file_def)
  then show ?thesis
    using assms by (auto simp: mergeZips_def close_all_def flush_zip_get Let_def split: option.splits)
qed

theorem merge_ignores_close_error_witness:
  "\<exists>w' z. mergeZips sample_report [] ''/t'' (sample_downloads\<lparr>fault := (\<lambda>n. if n = 3 then Some ''disk full'' else None)\<rparr>) =
     (Inr (merged_path ''/t'' ''b''), w') \<and> fs_get w' (merged_path ''/t'' ''b'') = Some (File (Torn (Zip z)))"
proof -
  let ?w = "sample_downloads\<lparr>fault := (\<lambda>n. if n = 3 then Some ''disk full'' else None)\<rparr>"
  let ?p = "merged_path ''/t'' (rep_id sample_report)"
  have 1: "sys_create ?p ?w = (None, snd (sys_create ?p ?w))"
  proof -
    have "fst (sys_create ?p ?w) = None" by code_simp
    then show ?thesis by (metis prod.collapse)
  qed
  let ?m = "merge_entries sample_report [] (snd (sys_create ?p ?w))"
  have 2: "?m = (None, fst (snd ?m), snd (snd ?m))"
  proof -
    have "fst ?m = None" by code_simp
    then show ?thesis by (metis prod.collapse)
  qed
  have 3: "failing (snd (snd ?m)) = Some ''disk full''" by code_simp
  from merge_ignores_close_error [OF 1 2 3] show ?thesis by (simp add: sample_report_def) blast
qed

end
