(* ===== verification/Dcos_Nodes.thy ===== *)
theory Dcos_Nodes
  imports Filesystem
begin

text \<open>
  The \<^verbatim>\<open>dcos\<close> and \<^verbatim>\<open>util\<close> packages: the data about nodes and units (\<^verbatim>\<open>dcos/interfaces.go\<close>), how a
  node's URL is built (\<^verbatim>\<open>dcos/url_builder.go\<close>, \<^verbatim>\<open>util/utils.go\<close>), and how the masters and agents of the
  cluster are found (\<^verbatim>\<open>dcos/finder.go\<close>, \<^verbatim>\<open>dcos/tools.go\<close>). The network is a parameter: the HTTP
  function, the DNS lookup, and what \<^verbatim>\<open>net/url\<close> makes of a URL whose scheme is set to https.
\<close>

section \<open>Nodes and units\<close>

type_synonym Health = int

definition Healthy :: Health where "Healthy = 0"
definition Unhealthy :: Health where "Unhealthy = 1"
definition UnknownHealth :: Health where "UnknownHealth = 3"

definition MasterRole :: string where "MasterRole = ''master''"
definition AgentRole :: string where "AgentRole = ''agent''"
definition AgentPublicRole :: string where "AgentPublicRole = ''agent_public''"

datatype Unit =
    Unit (UnitName: string) (UnitNodes: "Node list") (UnitHealth: Health) (UnitTitle: string)
      (UnitTimestamp: time) (UnitPrettyName: string)
and Node =
    Node (Leader: bool) (Role: string) (IP: string) (Host: string) (NodeHealth: Health)
      (Output: "(string \<times> string) list") (NodeUnits: "Unit list") (MesosID: string)

text \<open>A composite literal of \<^verbatim>\<open>Node\<close> that sets only these fields.\<close>

definition plain_Node :: "bool \<Rightarrow> string \<Rightarrow> string \<Rightarrow> Node" where
  "plain_Node l r ip = Node l r ip [] Healthy [] [] []"

lemma role_distinct [simp]:
  "MasterRole \<noteq> AgentRole" "AgentRole \<noteq> MasterRole" "MasterRole \<noteq> AgentPublicRole" "AgentPublicRole \<noteq> MasterRole"
  "AgentRole \<noteq> AgentPublicRole" "AgentPublicRole \<noteq> AgentRole"
  by (simp_all add: MasterRole_def AgentRole_def AgentPublicRole_def)

section \<open>Utilities\<close>

text \<open>\<open>https url\<close> is \<^verbatim>\<open>url.Parse\<close>, the assignment of the scheme, and \<^verbatim>\<open>String\<close>.\<close>

definition UseTLSScheme :: "(string \<Rightarrow> string result) \<Rightarrow> string \<Rightarrow> bool \<Rightarrow> string result" where
  "UseTLSScheme https url use =
     (if url = [] then Inl ''empty URL''
      else if use then https url
      else Inr url)"

fun IsInList :: "string \<Rightarrow> string list \<Rightarrow> bool" where
  "IsInList item [] = False"
| "IsInList item (x # xs) = (if item = x then True else IsInList item xs)"

lemma IsInList_iff [simp]: "IsInList item l \<longleftrightarrow> item \<in> set l"
  by (induction l) auto

text \<open>
  \<^verbatim>\<open>SanitizeString\<close> works on runes; \<open>isDigit\<close> and \<open>isLetter\<close> are the predicates of package \<^verbatim>\<open>unicode\<close>.
\<close>

type_synonym rune = nat

definition SanitizeString :: "(rune \<Rightarrow> bool) \<Rightarrow> (rune \<Rightarrow> bool) \<Rightarrow> rune list \<Rightarrow> rune list" where
  "SanitizeString isDigit isLetter s =
     map (\<lambda>r. if r = 0x5F \<or> r = 0x2D then r
              else if \<not> isDigit r \<and> \<not> isLetter r then 0x5F
              else r) (dropWhile (\<lambda>r. r = 0x2F) s)"

section \<open>URLs of nodes\<close>

record URLBuilder =
  agentPort :: int
  masterPort :: int
  forceTLS :: bool

definition NewURLBuilder :: "int \<Rightarrow> int \<Rightarrow> bool \<Rightarrow> URLBuilder" where
  "NewURLBuilder agent_port master_port force_tls = \<lparr>agentPort = agent_port, masterPort = master_port, forceTLS = force_tls\<rparr>"

definition port :: "URLBuilder \<Rightarrow> string \<Rightarrow> int result" where
  "port n role =
     (if role = AgentRole \<or> role = AgentPublicRole then Inr (agentPort n)
      else if role = MasterRole then Inr (masterPort n)
      else Inl (msg [''incorrect role given '', role]))"

definition BaseURL :: "(string \<Rightarrow> string result) \<Rightarrow> URLBuilder \<Rightarrow> string \<Rightarrow> string \<Rightarrow> string result" where
  "BaseURL https n ip role =
     (case port n role of
        Inl e \<Rightarrow> Inl e
      | Inr p \<Rightarrow> UseTLSScheme https (msg [''http://'', ip, '':'', itoa p]) (forceTLS n))"

section \<open>Finding nodes\<close>

record exhibitorNodeResponse =
  ex_Hostname :: string
  ex_IsLeader :: bool

record agentResponse =
  ag_hostname :: string
  ag_public_ip :: string

text \<open>
  The bodies the finders decode: the list of Exhibitor, the object with Mesos' agents, or bytes that
  are neither. \<open>fe_text\<close> gives the bytes of a body.
\<close>

datatype find_body = ExhibitorNodes "exhibitorNodeResponse list" | MesosAgents "agentResponse list" | RawBody string

record find_env =
  fe_get :: "(string \<Rightarrow> find_body \<times> int \<times> string option) option"
  fe_lookup :: "string \<Rightarrow> string list result"
  fe_https :: "string \<Rightarrow> string result"
  fe_text :: "find_body \<Rightarrow> string"

fun decode_exhibitor :: "find_body \<Rightarrow> exhibitorNodeResponse list result" where
  "decode_exhibitor (ExhibitorNodes ns) = Inr ns"
| "decode_exhibitor (MesosAgents as) = Inl ''json: cannot unmarshal object into Go value''"
| "decode_exhibitor (RawBody s) = Inl ''invalid character''"

fun decode_agents :: "find_body \<Rightarrow> agentResponse list result" where
  "decode_agents (MesosAgents as) = Inr as"
| "decode_agents (ExhibitorNodes ns) = Inl ''json: cannot unmarshal array into Go value''"
| "decode_agents (RawBody s) = Inl ''invalid character''"

definition findMesosMasters :: "find_env \<Rightarrow> string \<Rightarrow> Node list result" where
  "findMesosMasters env url =
     (case fe_get env of
        None \<Rightarrow> Inl ''could not initialize HTTP GET function. Make sure you set getFn in the constructor''
      | Some get \<Rightarrow>
          (case get url of
             (body, statusCode, Some e) \<Rightarrow> Inl e
           | (body, statusCode, None) \<Rightarrow>
               if statusCode \<noteq> StatusOK then
                 Inl (msg [''GET '', url, '' failed, status code: '', itoa statusCode, '', body: '', fe_text env body])
               else
                 (case decode_exhibitor body of
                    Inl e \<Rightarrow> Inl e
                  | Inr [] \<Rightarrow> Inl ''master nodes not found in exhibitor''
                  | Inr ns \<Rightarrow> Inr (map (\<lambda>n. plain_Node (ex_IsLeader n) MasterRole (ex_Hostname n)) ns))))"

text \<open>Both finders hand an error to the next one in the chain, if there is one.\<close>

definition Find_chain :: "Node list result \<Rightarrow> Node list result option \<Rightarrow> Node list result" where
  "Find_chain r next = (case r of Inr ns \<Rightarrow> Inr ns | Inl e \<Rightarrow> (case next of Some r' \<Rightarrow> r' | None \<Rightarrow> Inl e))"

record findNodesInDNS =
  fd_forceTLS :: bool
  fd_dnsRecord :: string
  fd_role :: string

definition getMesosMasters :: "find_env \<Rightarrow> findNodesInDNS \<Rightarrow> Node list result" where
  "getMesosMasters env f =
     (case fe_lookup env (fd_dnsRecord f) of
        Inl e \<Rightarrow> Inl e
      | Inr [] \<Rightarrow> Inl (msg [''Could not resolve '', fd_dnsRecord f])
      | Inr ips \<Rightarrow> Inr (map (plain_Node False MasterRole) ips))"

definition agent_role :: "agentResponse \<Rightarrow> string" where
  "agent_role a = (if ag_public_ip a = ''true'' then AgentPublicRole else AgentRole)"

definition getMesosAgents :: "find_env \<Rightarrow> findNodesInDNS \<Rightarrow> Node list result" where
  "getMesosAgents env f =
     (case fe_get env of
        None \<Rightarrow> Inl ''Could not initialize HTTP GET function. Make sure you set getFn in constractor''
      | Some get \<Rightarrow>
          (case fe_lookup env (fd_dnsRecord f) of
             Inl e \<Rightarrow> Inl e
           | Inr [] \<Rightarrow> Inl (msg [''Could not resolve '', fd_dnsRecord f])
           | Inr (leader # ips) \<Rightarrow>
               (case UseTLSScheme (fe_https env) (msg [''http://'', leader, '':5050/slaves'']) (fd_forceTLS f) of
                  Inl e \<Rightarrow> Inl e
                | Inr url \<Rightarrow>
                    (case get url of
                       (body, statusCode, Some e) \<Rightarrow> Inl e
                     | (body, statusCode, None) \<Rightarrow>
                         if statusCode \<noteq> StatusOK then
                           Inl (msg [''GET '', url, '' failed, status code '', itoa statusCode, '', body: '', fe_text env body])
                         else
                           (case decode_agents body of
                              Inl e \<Rightarrow> Inl e
                            | Inr as \<Rightarrow> Inr (map (\<lambda>a. plain_Node False (agent_role a) (ag_hostname a)) as))))))"

definition dispatchGetNodesByRole :: "find_env \<Rightarrow> findNodesInDNS \<Rightarrow> Node list result" where
  "dispatchGetNodesByRole env f =
     (if fd_role f = MasterRole then getMesosMasters env f
      else if fd_role f \<noteq> AgentRole then
        Inl (msg [fd_role f, '' role is incorrect, must be '', MasterRole, '' or '', AgentRole])
      else getMesosAgents env f)"

text \<open>The tools of a node: the finders as \<^verbatim>\<open>dcos/tools.go\<close> configures them.\<close>

record Tools =
  ExhibitorURL :: string
  ToolsRole :: string
  ToolsForceTLS :: bool

definition GetMasterNodes :: "find_env \<Rightarrow> Tools \<Rightarrow> Node list result" where
  "GetMasterNodes env st =
     Find_chain (findMesosMasters env (ExhibitorURL st))
       (Some (Find_chain (dispatchGetNodesByRole (env\<lparr>fe_get := None\<rparr>)
          \<lparr>fd_forceTLS = ToolsForceTLS st, fd_dnsRecord = ''master.mesos'', fd_role = MasterRole\<rparr>) None))"

definition GetAgentNodes :: "find_env \<Rightarrow> Tools \<Rightarrow> Node list result" where
  "GetAgentNodes env st =
     Find_chain (dispatchGetNodesByRole env
       \<lparr>fd_forceTLS = ToolsForceTLS st, fd_dnsRecord = ''leader.mesos'', fd_role = AgentRole\<rparr>) None"

definition GetNodeRole :: "Tools \<Rightarrow> string result" where
  "GetNodeRole st =
     (if ToolsRole st = [] then
        Inl ''Could not determine a role, no /etc/mesosphere/roles/{master,slave,slave_public} file found''
      else Inr (ToolsRole st))"

text \<open>The cached hostname: \<open>os\<close> is \<^verbatim>\<open>os.Hostname\<close>; the first component is the new cache.\<close>

definition GetHostname :: "string result \<Rightarrow> string \<Rightarrow> string \<times> string result" where
  "GetHostname os hostname =
     (if hostname \<noteq> [] then (hostname, Inr hostname)
      else (case os of Inl e \<Rightarrow> ([], Inl e) | Inr h \<Rightarrow> (h, Inr h)))"

text \<open>
  \<^verbatim>\<open>doRequest\<close>: the read error of the body is dropped. \<open>new\<close> is the error of \<^verbatim>\<open>http.NewRequest\<close>, \<open>act\<close> the
  client's call, which gives the status code and the body with its read error.
\<close>

definition doRequest ::
  "(string \<Rightarrow> string result) \<Rightarrow> (string \<Rightarrow> string option) \<Rightarrow> (string \<Rightarrow> (int \<times> 'b \<times> string option) result) \<Rightarrow> 'b \<Rightarrow>
     Tools \<Rightarrow> string \<Rightarrow> 'b \<times> int \<times> string option" where
  "doRequest https new act nobody st url =
     (case (if url \<noteq> ExhibitorURL st then UseTLSScheme https url (ToolsForceTLS st) else Inr url) of
        Inl e \<Rightarrow> (nobody, StatusBadRequest, Some e)
      | Inr url1 \<Rightarrow>
          (case new url1 of
             Some e \<Rightarrow> (nobody, StatusBadRequest, Some e)
           | None \<Rightarrow>
               (case act url1 of
                  Inl e \<Rightarrow> (nobody, StatusBadRequest, Some e)
                | Inr (code, body, readErr) \<Rightarrow> (body, code, None))))"

section \<open>Properties\<close>

text \<open>
  The interface \<^verbatim>\<open>nodeFinder\<close>: a finder returns an error or nodes that are as asked for, at least one. Two finders in a chain are a
  finder again, which fails only if both fail.
\<close>

locale node_finder =
  fixes found :: "Node list result"
    and wanted :: "Node \<Rightarrow> bool"
  assumes found_some: "found = Inr ns \<Longrightarrow> ns \<noteq> [] \<and> (\<forall>n\<in>set ns. wanted n)"

locale finder_chain = first: node_finder found wanted + second: node_finder fallback wanted
  for found fallback :: "Node list result" and wanted :: "Node \<Rightarrow> bool"
begin

lemma chain_fails: "Find_chain found (Some fallback) = Inl e \<longleftrightarrow> (\<exists>e1. found = Inl e1) \<and> fallback = Inl e"
  by (auto simp: Find_chain_def split: sum.splits)

end

sublocale finder_chain \<subseteq> node_finder "Find_chain found (Some fallback)" wanted
  by unfold_locales (auto simp: Find_chain_def first.found_some second.found_some split: sum.splits)

lemma Find_chain_last [simp]: "Find_chain r None = r"
  by (simp add: Find_chain_def split: sum.splits)

definition dns_masters :: "find_env \<Rightarrow> Tools \<Rightarrow> Node list result" where
  "dns_masters env st = Find_chain (dispatchGetNodesByRole (env\<lparr>fe_get := None\<rparr>)
     \<lparr>fd_forceTLS = ToolsForceTLS st, fd_dnsRecord = ''master.mesos'', fd_role = MasterRole\<rparr>) None"

interpretation master_finders: finder_chain "findMesosMasters env (ExhibitorURL st)" "dns_masters env st" "\<lambda>n. Role n = MasterRole"
  for env st
proof
  fix ns
  assume "findMesosMasters env (ExhibitorURL st) = Inr ns"
  then show "ns \<noteq> [] \<and> (\<forall>n\<in>set ns. Role n = MasterRole)"
    by (auto simp: findMesosMasters_def plain_Node_def split: sum.splits option.splits prod.splits if_splits list.splits)
next
  fix ns
  assume "dns_masters env st = Inr ns"
  then show "ns \<noteq> [] \<and> (\<forall>n\<in>set ns. Role n = MasterRole)"
    by (auto simp: dns_masters_def dispatchGetNodesByRole_def getMesosMasters_def plain_Node_def
        split: sum.splits list.splits)
qed

lemma GetMasterNodes_chain: "GetMasterNodes env st = Find_chain (findMesosMasters env (ExhibitorURL st)) (Some (dns_masters env st))"
  by (simp add: GetMasterNodes_def dns_masters_def)

text \<open>
  The masters found are masters: the list is not empty and every node in it has the master role,
  whether it comes from Exhibitor or from DNS; and finding masters fails only if both sources fail.
\<close>

theorem masters_found:
  "(\<forall>ns. GetMasterNodes env st = Inr ns \<longrightarrow> ns \<noteq> [] \<and> (\<forall>n\<in>set ns. Role n = MasterRole)) \<and>
   (\<forall>e. GetMasterNodes env st = Inl e \<longrightarrow>
      (\<exists>e1. findMesosMasters env (ExhibitorURL st) = Inl e1) \<and>
      (\<forall>ips. fe_lookup env ''master.mesos'' = Inr ips \<longrightarrow> ips = []))"
  using master_finders.found_some [of env st] master_finders.chain_fails [of env st]
  by (auto simp: GetMasterNodes_chain dns_masters_def dispatchGetNodesByRole_def
      getMesosMasters_def split: sum.splits list.splits)

definition sample_find :: find_env where
  "sample_find = \<lparr>fe_get = Some (\<lambda>url. (RawBody [], 503, None)), fe_lookup = (\<lambda>d. Inr [''10.0.0.1'']),
     fe_https = (\<lambda>u. Inr u), fe_text = (\<lambda>_. [])\<rparr>"

theorem masters_found_witness:
  "\<exists>ns. GetMasterNodes sample_find \<lparr>ExhibitorURL = ''e'', ToolsRole = [], ToolsForceTLS = False\<rparr> = Inr ns \<and> ns \<noteq> [] \<and>
     (\<forall>n\<in>set ns. Role n = MasterRole)"
proof -
  let ?st = "\<lparr>ExhibitorURL = ''e'', ToolsRole = [], ToolsForceTLS = False\<rparr>"
  have "GetMasterNodes sample_find ?st = Inr [plain_Node False MasterRole ''10.0.0.1'']"
    by (simp add: GetMasterNodes_def Find_chain_def findMesosMasters_def dispatchGetNodesByRole_def
        getMesosMasters_def sample_find_def)
  then show ?thesis using masters_found [of sample_find ?st] by blast
qed

text \<open>
  The URL of a node: when \<^verbatim>\<open>net/url\<close> replaces the scheme of an http URL as documented, \<^verbatim>\<open>BaseURL\<close> of a
  known role is the scheme the cluster requires, the node's address and the port configured for the
  role; for any other role it is an error and no URL is made.
\<close>

theorem base_url_of_role:
  assumes "\<And>r. https (''http://'' @ r) = Inr (''https://'' @ r)"
  shows "BaseURL https n ip role =
    (if role \<in> {AgentRole, AgentPublicRole, MasterRole} then
       Inr ((if forceTLS n then ''https://'' else ''http://'') @ ip @ '':'' @
         itoa (if role = MasterRole then masterPort n else agentPort n))
     else Inl (msg [''incorrect role given '', role]))"
proof -
  have "msg [''http://'', ip, '':'', itoa p] = ''http://'' @ ip @ '':'' @ itoa p" for p by (simp add: msg_def)
  then show ?thesis
    using assms by (auto simp: BaseURL_def port_def UseTLSScheme_def)
qed

theorem base_url_of_role_witness:
  "BaseURL (\<lambda>u. Inr (''https'' @ drop 4 u)) \<lparr>agentPort = 61001, masterPort = 1050, forceTLS = True\<rparr> ''10.0.0.1'' MasterRole =
     Inr (''https://10.0.0.1:'' @ itoa 1050)"
proof -
  have "(\<lambda>u. Inr (''https'' @ drop 4 u)) (''http://'' @ r) = (Inr (''https://'' @ r) :: string result)" for r by simp
  from base_url_of_role [of "\<lambda>u. Inr (''https'' @ drop 4 u)", OF this] show ?thesis by simp
qed

end
