(* ===== verification/Fetcher.thy ===== *)
theory Fetcher
  imports Zip_Merge Dcos_Nodes Transitions "HOL-Library.Multiset"
begin

text \<open>
  The fetchers of the legacy diagnostics job, \<^verbatim>\<open>fetcher/fetcher.go\<close>, and the way \<^verbatim>\<open>collectDataFromNodes\<close> of
  \<^verbatim>\<open>api/diagnostics.go\<close> drives them: a closed channel of requests, an unbuffered channel of status updates
  and an unbuffered channel of results. One fetcher is a function; the interplay of the fetchers with the
  receiving loops is a step relation.
\<close>

section \<open>One request\<close>

record EndpointRequest =
  er_URL :: string
  er_Node :: Node
  er_FileName :: string
  er_Optional :: bool

record StatusUpdate =
  su_URL :: string
  su_Error :: "string option"

record BulkResponse =
  br_ZipFilePath :: string
  br_Error :: "string option"

text \<open>\<open>ft_request\<close> is the error of \<^verbatim>\<open>http.NewRequest\<close>, \<open>ft_do\<close> is \<^verbatim>\<open>client.Do\<close>, \<open>ft_gunzip\<close> is \<^verbatim>\<open>gzip.NewReader\<close> on a
  body, read to its end.\<close>

record fetch_env =
  ft_request :: "string \<Rightarrow> string option"
  ft_do :: "string \<Rightarrow> http_resp result"
  ft_gunzip :: "stream \<Rightarrow> stream result"

definition is_gzip :: "http_resp \<Rightarrow> bool" where
  "is_gzip resp = (map_of (h_headers resp) ''Content-Encoding'' = Some ''gzip'')"

definition fetch_get :: "fetch_env \<Rightarrow> string \<Rightarrow> http_resp result" where
  "fetch_get env url =
     (case ft_request env url of
        Some e \<Rightarrow> Inl (msg [''could not create a new HTTP request: '', e])
      | None \<Rightarrow>
          (case ft_do env url of
             Inl e \<Rightarrow> Inl (msg [''could not fetch url '', url, '': '', e])
           | Inr resp \<Rightarrow>
               if h_status resp \<noteq> StatusOK then
                 (let errMsg = msg [''unable to fetch '', url, ''. Return code '', itoa (h_status resp), ''.''] in
                  if is_gzip resp then
                    (case ft_gunzip env (h_body resp) of
                       Inl e \<Rightarrow> Inl (msg [errMsg, '' Could not read compressed body: '', e])
                     | Inr (b, Some e) \<Rightarrow> Inl (msg [errMsg, '' Could not uncompress body: '', e])
                     | Inr (b, None) \<Rightarrow> Inl (msg [errMsg, '' Body: '', b]))
                  else
                    (case h_body resp of
                       (b, Some e) \<Rightarrow> Inl (msg [errMsg, '' Could not read body: '', e])
                     | (b, None) \<Rightarrow> Inl (msg [errMsg, '' Body: '', b])))
               else Inr resp))"

definition entry_name :: "EndpointRequest \<Rightarrow> http_resp \<Rightarrow> string" where
  "entry_name r resp =
     join [msg [IP (er_Node r), ''_'', Role (er_Node r)],
           er_FileName r @ (if is_gzip resp then ''.gz'' else [])]"

definition getDataToZip :: "fetch_env \<Rightarrow> EndpointRequest \<Rightarrow> zip \<Rightarrow> world \<Rightarrow> string option \<times> zip \<times> world" where
  "getDataToZip env r z w =
     (case fetch_get env (er_URL r) of
        Inl e \<Rightarrow>
          (if \<not> er_Optional r then Some (msg [''could not get from url '', er_URL r, '': '', e]) else None, z, w)
      | Inr resp \<Rightarrow>
          (case zip_Create (entry_name r resp) z w of
             (Some e, z1, w1) \<Rightarrow> (Some (msg [''could not create a '', entry_name r resp, '' in the zip: '', e]), z1, w1)
           | (None, z1, w1) \<Rightarrow>
               (case zip_Copy (h_body resp) z1 w1 of
                  (Some e, z2, w2) \<Rightarrow> (Some (msg [''could not copy data to zip: '', e]), z2, w2)
                | (None, z2, w2) \<Rightarrow> (None, z2, w2))))"

section \<open>One fetcher\<close>

text \<open>
  The loop over the requests it takes from the channel: \<open>stop k\<close> says whether the \<open>k\<close>-th look at the
  context finds it done. Closing the file reports its error only when the zip writer failed before.
\<close>

fun workOffRequests ::
  "fetch_env \<Rightarrow> (nat \<Rightarrow> bool) \<Rightarrow> nat \<Rightarrow> EndpointRequest list \<Rightarrow> zip \<Rightarrow> world \<Rightarrow> StatusUpdate list \<times> zip \<times> world" where
  "workOffRequests env stop k [] z w = ([], z, w)"
| "workOffRequests env stop k (r # rs) z w =
     (if stop k then ([], z, w)
      else
        (case getDataToZip env r z w of
           (err, z1, w1) \<Rightarrow>
             if stop (Suc k) then ([], z1, w1)
             else
               (case workOffRequests env stop (k + 2) rs z1 w1 of
                  (us, z2, w2) \<Rightarrow> (\<lparr>su_URL = er_URL r, su_Error = err\<rparr> # us, z2, w2))))"

definition fetcher_close :: "string \<Rightarrow> zip \<Rightarrow> world \<Rightarrow> BulkResponse \<times> world" where
  "fetcher_close path z w =
     (let (err, w1) =
            (case failing w of
               Some e \<Rightarrow> (Some (msg [''could not close zip writer '', path, '': '', e]), flush_zip path (Torn (Zip z)) (tick w))
             | None \<Rightarrow> (None, flush_zip path (Zip z) (tick w)));
          closeErr = (case failing w1 of Some e \<Rightarrow> e | None \<Rightarrow> ''%!s(<nil>)'');
          err1 = (case err of Some x \<Rightarrow> Some (msg [''could not close zip file '', path, '': '', closeErr, '': '', x]) | None \<Rightarrow> None)
      in (\<lparr>br_ZipFilePath = path, br_Error = err1\<rparr>, tick w1))"

definition fetcher_Run ::
  "fetch_env \<Rightarrow> (nat \<Rightarrow> bool) \<Rightarrow> string \<Rightarrow> EndpointRequest list \<Rightarrow> world \<Rightarrow> StatusUpdate list \<times> BulkResponse \<times> world" where
  "fetcher_Run env stop path rs w =
     (case workOffRequests env stop 0 rs [] w of
        (us, z, w1) \<Rightarrow> (case fetcher_close path z w1 of (resp, w2) \<Rightarrow> (us, resp, w2)))"

section \<open>Fetchers and receiver\<close>

datatype fetcher_state = Selecting | Fetching EndpointRequest | Reporting StatusUpdate | Closing | Ended

text \<open>\<^verbatim>\<open>waitForStatusUpdates\<close> has received so many updates, then \<^verbatim>\<open>gatherAllResults\<close> so many results.\<close>

datatype receiver = Waiting nat | Gathering nat | Gathered

record fetching =
  f_ctx :: bool
  f_queue :: "EndpointRequest list"
  f_fetchers :: "fetcher_state list"
  f_receiver :: receiver
  f_seen :: "StatusUpdate list"

definition fetch_init :: "nat \<Rightarrow> EndpointRequest list \<Rightarrow> fetching" where
  "fetch_init numberOfWorkers reqs =
     \<lparr>f_ctx = False, f_queue = reqs, f_fetchers = replicate numberOfWorkers Selecting, f_receiver = Waiting 0, f_seen = []\<rparr>"

text \<open>\<open>n\<close> requests, \<open>m\<close> fetchers. A send on an unbuffered channel happens together with its receive.\<close>

inductive fetch_step :: "nat \<Rightarrow> nat \<Rightarrow> fetching \<Rightarrow> fetching \<Rightarrow> bool" for n m :: nat where
  pick: "f_queue s = r # rs \<Longrightarrow> f_fetchers s = us @ Selecting # vs \<Longrightarrow>
    fetch_step n m s (s\<lparr>f_queue := rs, f_fetchers := us @ Fetching r # vs\<rparr>)"
| drained: "f_queue s = [] \<Longrightarrow> f_fetchers s = us @ Selecting # vs \<Longrightarrow>
    fetch_step n m s (s\<lparr>f_fetchers := us @ Closing # vs\<rparr>)"
| stopped: "f_ctx s \<Longrightarrow> f_fetchers s = us @ Selecting # vs \<Longrightarrow>
    fetch_step n m s (s\<lparr>f_fetchers := us @ Closing # vs\<rparr>)"
| fetched: "\<not> f_ctx s \<Longrightarrow> f_fetchers s = us @ Fetching r # vs \<Longrightarrow>
    fetch_step n m s (s\<lparr>f_fetchers := us @ Reporting \<lparr>su_URL = er_URL r, su_Error = err\<rparr> # vs\<rparr>)"
| abandoned: "f_ctx s \<Longrightarrow> f_fetchers s = us @ Fetching r # vs \<Longrightarrow>
    fetch_step n m s (s\<lparr>f_fetchers := us @ Closing # vs\<rparr>)"
| report: "f_fetchers s = us @ Reporting u # vs \<Longrightarrow> f_receiver s = Waiting k \<Longrightarrow> k < n \<Longrightarrow>
    fetch_step n m s (s\<lparr>f_fetchers := us @ Selecting # vs, f_receiver := Waiting (Suc k), f_seen := f_seen s @ [u]\<rparr>)"
| all_seen: "f_receiver s = Waiting k \<Longrightarrow> \<not> k < n \<Longrightarrow> fetch_step n m s (s\<lparr>f_receiver := Gathering 0\<rparr>)"
| give_up: "f_ctx s \<Longrightarrow> f_receiver s = Waiting k \<Longrightarrow> k < n \<Longrightarrow> fetch_step n m s (s\<lparr>f_receiver := Gathering 0\<rparr>)"
| gather: "f_fetchers s = us @ Closing # vs \<Longrightarrow> f_receiver s = Gathering k \<Longrightarrow> k < m \<Longrightarrow>
    fetch_step n m s (s\<lparr>f_fetchers := us @ Ended # vs, f_receiver := Gathering (Suc k)\<rparr>)"
| gathered: "f_receiver s = Gathering k \<Longrightarrow> \<not> k < m \<Longrightarrow> fetch_step n m s (s\<lparr>f_receiver := Gathered\<rparr>)"

inductive fetch_reach :: "nat \<Rightarrow> EndpointRequest list \<Rightarrow> fetching \<Rightarrow> bool" for m :: nat and reqs :: "EndpointRequest list" where
  init: "fetch_reach m reqs (fetch_init m reqs)"
| step: "fetch_reach m reqs s \<Longrightarrow> fetch_step (length reqs) m s s' \<Longrightarrow> fetch_reach m reqs s'"
| cancelled: "fetch_reach m reqs s \<Longrightarrow> fetch_reach m reqs (s\<lparr>f_ctx := True\<rparr>)"

section \<open>Invariant\<close>

text \<open>The URLs a fetcher still owes a status for.\<close>

fun owed :: "fetcher_state \<Rightarrow> string multiset" where
  "owed (Fetching r) = {#er_URL r#}"
| "owed (Reporting u) = {#su_URL u#}"
| "owed f = {#}"

definition all_owed :: "fetcher_state list \<Rightarrow> string multiset" where
  "all_owed fs = sum_list (map owed fs)"

definition ended :: "fetcher_state list \<Rightarrow> nat" where
  "ended fs = count_list fs Ended"

definition urls :: "fetching \<Rightarrow> string multiset" where
  "urls s = mset (map er_URL (f_queue s)) + all_owed (f_fetchers s) + mset (map su_URL (f_seen s))"

fun gathered_count :: "nat \<Rightarrow> receiver \<Rightarrow> nat" where
  "gathered_count m (Waiting k) = 0"
| "gathered_count m (Gathering k) = k"
| "gathered_count m Gathered = m"

definition fetch_inv :: "nat \<Rightarrow> EndpointRequest list \<Rightarrow> fetching \<Rightarrow> bool" where
  "fetch_inv m reqs s =
     (length (f_fetchers s) = m \<and> ended (f_fetchers s) = gathered_count m (f_receiver s) \<and>
      (\<forall>k. f_receiver s = Waiting k \<longrightarrow> k = length (f_seen s)) \<and>
      urls s \<subseteq># mset (map er_URL reqs) \<and>
      (\<not> f_ctx s \<longrightarrow> urls s = mset (map er_URL reqs) \<and>
        (Closing \<in> set (f_fetchers s) \<or> Ended \<in> set (f_fetchers s) \<longrightarrow> f_queue s = []) \<and>
        ((\<forall>k. f_receiver s \<noteq> Waiting k) \<longrightarrow> length (f_seen s) = length reqs)))"

lemma all_owed_simps [simp]:
  "all_owed [] = {#}" "all_owed (f # fs) = owed f + all_owed fs" "all_owed (fs @ gs) = all_owed fs + all_owed gs"
  by (simp_all add: all_owed_def)

lemma ended_simps [simp]:
  "ended [] = 0" "ended (f # fs) = (if f = Ended then 1 else 0) + ended fs" "ended (fs @ gs) = ended fs + ended gs"
  by (simp_all add: ended_def)

lemma ended_le: "ended fs \<le> length fs"
  by (induction fs) simp_all

lemma ended_less: "f \<in> set fs \<Longrightarrow> f \<noteq> Ended \<Longrightarrow> ended fs < length fs"
  by (induction fs) (auto simp: less_Suc_eq_le ended_le)

lemma ended_all: "\<forall>f\<in>set fs. f = Ended \<Longrightarrow> ended fs = length fs"
  by (induction fs) simp_all

lemma owed_subset: "f \<in> set fs \<Longrightarrow> owed f \<subseteq># all_owed fs"
  by (induction fs) (auto intro: subset_mset.order_trans)

lemma fetch_inv_init: "fetch_inv m reqs (fetch_init m reqs)"
proof -
  have "all_owed (replicate k Selecting) = {#}" "ended (replicate k Selecting) = 0" for k by (induction k) simp_all
  then show ?thesis by (auto simp: fetch_inv_def fetch_init_def urls_def)
qed

lemma urls_le_seen: "fetch_inv m reqs s \<Longrightarrow> length (f_seen s) \<le> length reqs"
  using size_mset_mono [of "urls s" "mset (map er_URL reqs)"] by (simp add: fetch_inv_def urls_def)

lemma fetch_inv_step:
  assumes "fetch_step (length reqs) m s s'" and "fetch_inv m reqs s"
  shows "fetch_inv m reqs s'"
  using assms
proof (induction rule: fetch_step.induct)
  case (abandoned s us r vs)
  then have "urls (s\<lparr>f_fetchers := us @ Closing # vs\<rparr>) \<subseteq># urls s" by (simp add: urls_def)
  with abandoned show ?case by (auto simp: fetch_inv_def intro: subset_mset.order_trans)
next
  case (all_seen s k)
  then show ?case using urls_le_seen [of m reqs s] by (auto simp: fetch_inv_def urls_def)
next
  case (gathered s k)
  then have "k = m" using ended_le [of "f_fetchers s"] by (auto simp: fetch_inv_def)
  with gathered show ?case by (auto simp: fetch_inv_def urls_def)
qed (auto simp: fetch_inv_def urls_def ac_simps)

lemma fetch_reach_inv: "fetch_reach m reqs s \<Longrightarrow> fetch_inv m reqs s"
proof (induction rule: fetch_reach.induct)
  case (cancelled s)
  then show ?case by (auto simp: fetch_inv_def urls_def)
qed (simp_all add: fetch_inv_init fetch_inv_step)

section \<open>Termination\<close>

fun fetcher_weight :: "fetcher_state \<Rightarrow> nat" where
  "fetcher_weight Selecting = 2"
| "fetcher_weight (Fetching r) = 5"
| "fetcher_weight (Reporting u) = 4"
| "fetcher_weight Closing = 1"
| "fetcher_weight Ended = 0"

fun receiver_weight :: "nat \<Rightarrow> receiver \<Rightarrow> nat" where
  "receiver_weight m (Waiting k) = m + 2"
| "receiver_weight m (Gathering k) = m - k + 1"
| "receiver_weight m Gathered = 0"

definition fetch_measure :: "nat \<Rightarrow> fetching \<Rightarrow> nat" where
  "fetch_measure m s = 4 * length (f_queue s) + sum_list (map fetcher_weight (f_fetchers s)) + receiver_weight m (f_receiver s)"

lemma fetch_step_measure: "fetch_step n m s s' \<Longrightarrow> fetch_measure m s' < fetch_measure m s"
  by (induction rule: fetch_step.induct) (auto simp: fetch_measure_def)

lemma fetch_step_ctx: "fetch_step n m s s' \<Longrightarrow> f_ctx s' = f_ctx s"
  by (induction rule: fetch_step.induct) simp_all

text \<open>What the fetchers do in a state without steps.\<close>

lemma stuck_fetchers:
  assumes "\<nexists>s'. fetch_step n m s s'" and "f \<in> set (f_fetchers s)"
  shows "f = Ended \<or> f = Closing \<or> (\<exists>u. f = Reporting u)"
proof -
  obtain us vs where f: "f_fetchers s = us @ f # vs" using assms(2) by (meson split_list)
  show ?thesis
  proof (cases f)
    case Selecting
    then show ?thesis using assms(1) f by (cases "f_queue s") (blast intro: fetch_step.pick fetch_step.drained)+
  next
    case (Fetching r)
    then show ?thesis using assms(1) f by (cases "f_ctx s") (blast intro: fetch_step.fetched fetch_step.abandoned)+
  qed simp_all
qed

lemma stuck_receiver:
  assumes "\<nexists>s'. fetch_step n m s s'" and "fetch_inv m reqs s" and "n = length reqs"
  shows "f_receiver s = Gathered \<or>
    (\<exists>k. f_receiver s = Waiting k \<and> k < n \<and> \<not> f_ctx s \<and> (\<forall>f\<in>set (f_fetchers s). f = Closing)) \<or>
    (\<exists>k. f_receiver s = Gathering k \<and> k < m \<and> (\<exists>u. Reporting u \<in> set (f_fetchers s)))"
proof (cases "f_receiver s")
  case (Waiting k)
  have k: "k < n" using assms(1) Waiting by (blast intro: fetch_step.all_seen)
  have c: "\<not> f_ctx s" using assms(1) Waiting k by (blast intro: fetch_step.give_up)
  have "f = Closing" if fs: "f \<in> set (f_fetchers s)" for f
  proof -
    obtain us vs where f: "f_fetchers s = us @ f # vs" using fs by (meson split_list)
    have "ended (f_fetchers s) = 0" using assms(2) Waiting by (simp add: fetch_inv_def)
    then have "f \<noteq> Ended" using f by auto
    moreover have "f \<noteq> Reporting u" for u using assms(1) Waiting k f by (blast intro: fetch_step.report)
    ultimately show ?thesis using stuck_fetchers [OF assms(1) fs] by blast
  qed
  then show ?thesis using Waiting k c by blast
next
  case (Gathering k)
  have k: "k < m" using assms(1) Gathering by (blast intro: fetch_step.gathered)
  have e: "ended (f_fetchers s) = k" "length (f_fetchers s) = m" using assms(2) Gathering by (simp_all add: fetch_inv_def)
  have "\<exists>f\<in>set (f_fetchers s). f \<noteq> Ended"
  proof (rule ccontr)
    assume "\<not> ?thesis"
    then have "ended (f_fetchers s) = length (f_fetchers s)" by (intro ended_all) blast
    then show False using e k by simp
  qed
  then obtain f where f: "f \<in> set (f_fetchers s)" "f \<noteq> Ended" by blast
  obtain us vs where "f_fetchers s = us @ f # vs" using f(1) by (meson split_list)
  then have "f \<noteq> Closing" using assms(1) Gathering k by (blast intro: fetch_step.gather)
  then show ?thesis using stuck_fetchers [OF assms(1) f(1)] f Gathering k by blast
qed simp

section \<open>Hanging\<close>

text \<open>A fetcher that sends a status when nobody receives statuses any more is never gathered.\<close>

definition hung :: "nat \<Rightarrow> fetching \<Rightarrow> bool" where
  "hung m s = (length (f_fetchers s) = m \<and> (\<exists>u. Reporting u \<in> set (f_fetchers s)) \<and>
     (\<exists>k. f_receiver s = Gathering k \<and> k = ended (f_fetchers s)))"

lemma hung_step: "fetch_step n m s s' \<Longrightarrow> hung m s \<Longrightarrow> hung m s'"
proof (induction rule: fetch_step.induct)
  case (gathered s k)
  then show ?case by (auto simp: hung_def dest: ended_less)
qed (auto simp: hung_def)

interpretation hanging: invariant_system "fetch_step n m" "hung m" for n m
  by unfold_locales (rule hung_step)

lemma hung_forever: "(fetch_step n m)\<^sup>*\<^sup>* s s' \<Longrightarrow> hung m s \<Longrightarrow> f_receiver s' \<noteq> Gathered"
  by (auto simp: hung_def dest!: hanging.steps_inv)

section \<open>Completion\<close>

text \<open>The states of a job that is not cancelled, and the state it is to end in.\<close>

definition fetch_alive :: "nat \<Rightarrow> EndpointRequest list \<Rightarrow> fetching \<Rightarrow> bool" where
  "fetch_alive m reqs s = (fetch_inv m reqs s \<and> 0 < m \<and> \<not> f_ctx s)"

definition fetch_complete :: "EndpointRequest list \<Rightarrow> fetching \<Rightarrow> bool" where
  "fetch_complete reqs s = (f_receiver s = Gathered \<and> (\<forall>f\<in>set (f_fetchers s). f = Ended) \<and>
     mset (map su_URL (f_seen s)) = mset (map er_URL reqs))"

lemma fetch_rest_complete:
  assumes "fetch_alive m reqs s" and "\<nexists>s'. fetch_step (length reqs) m s s'"
  shows "fetch_complete reqs s"
proof -
  have I: "fetch_inv m reqs s" and m: "0 < m" and nc: "\<not> f_ctx s" using assms(1) by (simp_all add: fetch_alive_def)
  have u: "urls s = mset (map er_URL reqs)" and len: "length (f_fetchers s) = m" using I nc by (simp_all add: fetch_inv_def)
  have full: "all_owed (f_fetchers s) = {#} \<and> f_queue s = []" if "length (f_seen s) = length reqs"
    using arg_cong [OF u, of size] that by (simp add: urls_def)
  have g: "f_receiver s = Gathered"
    using stuck_receiver [OF assms(2) I refl]
  proof (elim disjE exE conjE)
    fix k assume k: "f_receiver s = Waiting k" "k < length reqs" and cl: "\<forall>f\<in>set (f_fetchers s). f = Closing"
    have "f_queue s = []" using I m nc cl len by (cases "f_fetchers s") (auto simp: fetch_inv_def)
    moreover have "all_owed fs = {#}" if "\<forall>f\<in>set fs. f = Closing" for fs using that by (induction fs) simp_all
    ultimately have "urls s = mset (map su_URL (f_seen s))" using cl by (simp add: urls_def)
    then have "length (f_seen s) = length reqs" using u by (metis size_mset length_map)
    then show ?thesis using I k by (simp add: fetch_inv_def)
  next
    fix k u assume k: "f_receiver s = Gathering k" and r: "Reporting u \<in> set (f_fetchers s)"
    have "length (f_seen s) = length reqs" using I nc k by (simp add: fetch_inv_def)
    then show ?thesis using full owed_subset [OF r] by simp
  qed simp
  then have e: "ended (f_fetchers s) = m" and n: "length (f_seen s) = length reqs" using I nc by (simp_all add: fetch_inv_def)
  have "\<forall>f\<in>set (f_fetchers s). f = Ended" using e ended_less len by fastforce
  then show ?thesis using g u full [OF n] by (simp add: fetch_complete_def urls_def)
qed

interpretation fetch_run: settling_system "fetch_step (length reqs) m" "fetch_alive m reqs" "fetch_measure m" "fetch_complete reqs" for m reqs
  by unfold_locales
    (auto simp: fetch_alive_def fetch_step_ctx intro: fetch_inv_step fetch_step_measure fetch_rest_complete [unfolded fetch_alive_def])

section \<open>One fetcher without faults\<close>

text \<open>What a request adds to the archive and the error it reports.\<close>

definition fetch_entries :: "fetch_env \<Rightarrow> EndpointRequest \<Rightarrow> zip" where
  "fetch_entries env r =
     (case fetch_get env (er_URL r) of
        Inl e \<Rightarrow> []
      | Inr resp \<Rightarrow> [(entry_name r resp, Bytes (fst (h_body resp)))])"

definition fetch_error :: "fetch_env \<Rightarrow> EndpointRequest \<Rightarrow> string option" where
  "fetch_error env r =
     (case fetch_get env (er_URL r) of
        Inl e \<Rightarrow> if er_Optional r then None else Some (msg [''could not get from url '', er_URL r, '': '', e])
      | Inr resp \<Rightarrow> map_option (\<lambda>e. msg [''could not copy data to zip: '', e]) (snd (h_body resp)))"

lemma getDataToZip_calm:
  assumes "calm w"
  shows "\<exists>w'. getDataToZip env r z w = (fetch_error env r, z @ fetch_entries env r, w') \<and> calm w' \<and> files w' = files w"
  using assms
  by (auto simp: getDataToZip_def fetch_error_def fetch_entries_def zip_Create_def zip_Copy_def failing_def calm_def tick_def
      split: sum.splits option.splits)

lemma workOff_calm:
  assumes "calm w"
  shows "\<exists>w'. workOffRequests env (\<lambda>_. False) k rs z w =
      (map (\<lambda>r. \<lparr>su_URL = er_URL r, su_Error = fetch_error env r\<rparr>) rs, z @ concat (map (fetch_entries env) rs), w') \<and>
    calm w' \<and> files w' = files w"
  using assms
proof (induction rs arbitrary: k z w)
  case (Cons r rs)
  obtain w1 where g: "getDataToZip env r z w = (fetch_error env r, z @ fetch_entries env r, w1)"
    and w1: "calm w1" "files w1 = files w" using getDataToZip_calm [OF Cons.prems] by blast
  obtain w2 where "workOffRequests env (\<lambda>_. False) (k + 2) rs (z @ fetch_entries env r) w1 =
      (map (\<lambda>r. \<lparr>su_URL = er_URL r, su_Error = fetch_error env r\<rparr>) rs,
       (z @ fetch_entries env r) @ concat (map (fetch_entries env) rs), w2)" "calm w2" "files w2 = files w1"
    using Cons.IH [OF w1(1)] by blast
  then show ?case using g w1 by simp
qed simp

lemma fetcher_run_calm:
  assumes "calm w" and "is_file w path"
  shows "\<exists>w'. fetcher_Run env (\<lambda>_. False) path rs w =
      (map (\<lambda>r. \<lparr>su_URL = er_URL r, su_Error = fetch_error env r\<rparr>) rs, \<lparr>br_ZipFilePath = path, br_Error = None\<rparr>, w') \<and>
    calm w' \<and> fs_get w' = (fs_get w)(path \<mapsto> File (Zip (concat (map (fetch_entries env) rs))))"
proof -
  obtain w1 where wo: "workOffRequests env (\<lambda>_. False) 0 rs [] w =
      (map (\<lambda>r. \<lparr>su_URL = er_URL r, su_Error = fetch_error env r\<rparr>) rs, concat (map (fetch_entries env) rs), w1)"
    and c: "calm w1" and f: "files w1 = files w" using workOff_calm [OF assms(1), of env 0 rs "[]"] by auto
  have "is_file w1 path" "fs_get w1 = fs_get w" using assms(2) f by (simp_all add: is_file_def fs_get_def fun_eq_iff)
  moreover from this have "calm (tick (flush_zip path (Zip z) (tick w1)))" for z using c by (simp add: calm_def flush_zip_def)
  ultimately show ?thesis
    using wo c by (simp add: fetcher_Run_def fetcher_close_def flush_zip_get calm_failing fun_eq_iff)
qed

section \<open>Properties\<close>

definition sample_request :: EndpointRequest where
  "sample_request = \<lparr>er_URL = ''http://10.0.0.1:1050/logs'', er_Node = plain_Node False MasterRole ''10.0.0.1'',
     er_FileName = ''health.json'', er_Optional = False\<rparr>"

text \<open>
  A fetcher delivers what it fetches. Without I/O faults and cancellation a fetcher reports one status per
  request, in order and with the request's error if it has one, and its archive holds exactly the bodies of
  the requests that were answered, under the directory of their node; the result names that archive and
  carries no error.
\<close>

theorem fetcher_delivers:
  assumes "calm w" and "is_file w path"
  shows "\<exists>w'. fetcher_Run env (\<lambda>_. False) path rs w =
      (map (\<lambda>r. \<lparr>su_URL = er_URL r, su_Error = fetch_error env r\<rparr>) rs, \<lparr>br_ZipFilePath = path, br_Error = None\<rparr>, w') \<and>
    fs_get w' path = Some (File (Zip (concat (map (fetch_entries env) rs))))"
  using fetcher_run_calm [OF assms, of env rs] by auto

theorem fetcher_delivers_witness:
  "\<exists>w'. fetcher_Run \<lparr>ft_request = (\<lambda>_. None), ft_do = (\<lambda>_. Inr \<lparr>h_status = 200, h_headers = [], h_body = (''ok'', None)\<rparr>), ft_gunzip = Inr\<rparr>
       (\<lambda>_. False) ''/t'' [sample_request] (sample_world [(''/t'', File (Bytes []))]) =
     ([\<lparr>su_URL = er_URL sample_request, su_Error = None\<rparr>], \<lparr>br_ZipFilePath = ''/t'', br_Error = None\<rparr>, w') \<and>
   fs_get w' ''/t'' = Some (File (Zip [(''10.0.0.1_master/health.json'', Bytes ''ok'')]))"
proof -
  let ?e = "\<lparr>ft_request = (\<lambda>_. None), ft_do = (\<lambda>_. Inr \<lparr>h_status = 200, h_headers = [], h_body = (''ok'', None)\<rparr>), ft_gunzip = Inr\<rparr>"
  have 1: "calm (sample_world [(''/t'', File (Bytes []))])" by (simp add: calm_def sample_world_def)
  have 2: "is_file (sample_world [(''/t'', File (Bytes []))]) ''/t''"
    and e: "fetch_error ?e sample_request = None"
      "fetch_entries ?e sample_request = [(''10.0.0.1_master/health.json'', Bytes ''ok'')]" by code_simp+
  from fetcher_delivers [OF 1 2, of ?e "[sample_request]"] e show ?thesis by simp
qed

text \<open>
  C14. Fetching ends. If the job is not cancelled and there is a fetcher, then from every reachable state a course of
  events has at most as many steps as the measure of that state; it can be brought to the state in which all results
  are gathered, every fetcher has ended and one status has been received for every request; and every course
  that cannot go on has come to that state.
\<close>

theorem fetching_completes:
  assumes "fetch_reach m reqs s" and "0 < m" and "\<not> f_ctx s"
  shows "(\<forall>k t. (fetch_step (length reqs) m ^^ k) s t \<longrightarrow> k \<le> fetch_measure m s) \<and>
    (\<exists>t. (fetch_step (length reqs) m)\<^sup>*\<^sup>* s t \<and> fetch_complete reqs t) \<and>
    (\<forall>t. (fetch_step (length reqs) m)\<^sup>*\<^sup>* s t \<and> (\<nexists>u. fetch_step (length reqs) m t u) \<longrightarrow> fetch_complete reqs t)"
  by (rule fetch_run.settles) (use assms fetch_reach_inv in \<open>simp add: fetch_alive_def\<close>)

theorem fetching_completes_witness:
  "\<exists>t. (fetch_step 1 1)\<^sup>*\<^sup>* (fetch_init 1 [sample_request]) t \<and> fetch_complete [sample_request] t"
proof -
  have "\<not> f_ctx (fetch_init 1 [sample_request])" by (simp add: fetch_init_def)
  with fetching_completes [OF fetch_reach.init, of 1 "[sample_request]"] show ?thesis by simp
qed

text \<open>
  C35. A cancelled job can hang. For every job with a request and a fetcher there is a course of events in which
  the context ends while a fetcher is about to report: the fetcher has seen the context alive and sends, the
  receiver has left, and from then on no course of events ever gathers all results, so the job never ends.
\<close>

theorem cancelled_fetching_hangs:
  assumes "reqs \<noteq> []" and "0 < m"
  shows "\<exists>s. fetch_reach m reqs s \<and> f_ctx s \<and>
    (\<forall>s'. (fetch_step (length reqs) m)\<^sup>*\<^sup>* s s' \<longrightarrow> f_receiver s' \<noteq> Gathered)"
proof -
  obtain r rs where rs: "reqs = r # rs" using assms(1) by (cases reqs) auto
  obtain j where m: "m = Suc j" using assms(2) by (cases m) auto
  let ?n = "length reqs" and ?v = "replicate j Selecting" and ?u = "\<lparr>su_URL = er_URL r, su_Error = None\<rparr>"
  let ?s0 = "fetch_init m reqs"
  let ?s1 = "?s0\<lparr>f_queue := rs, f_fetchers := [] @ Fetching r # ?v\<rparr>"
  let ?s2 = "?s1\<lparr>f_fetchers := [] @ Reporting ?u # ?v\<rparr>"
  let ?s3 = "?s2\<lparr>f_ctx := True\<rparr>"
  let ?s4 = "?s3\<lparr>f_receiver := Gathering 0\<rparr>"
  have "fetch_step ?n m ?s0 ?s1" by (rule fetch_step.pick) (simp_all add: fetch_init_def rs m)
  then have 1: "fetch_reach m reqs ?s1" by (rule fetch_reach.step [OF fetch_reach.init])
  have "fetch_step ?n m ?s1 ?s2" by (rule fetch_step.fetched) (simp_all add: fetch_init_def)
  then have "fetch_reach m reqs ?s2" by (rule fetch_reach.step [OF 1])
  then have 3: "fetch_reach m reqs ?s3" by (rule fetch_reach.cancelled)
  have "fetch_step ?n m ?s3 ?s4" by (rule fetch_step.give_up [where k = 0]) (simp_all add: fetch_init_def rs)
  then have 4: "fetch_reach m reqs ?s4" by (rule fetch_reach.step [OF 3])
  have "ended ?v = 0" by (induction j) simp_all
  then have "hung m ?s4" by (auto simp: hung_def m)
  with 4 show ?thesis using hung_forever by (intro exI [of _ ?s4]) auto
qed

theorem cancelled_fetching_hangs_witness:
  "\<exists>s. fetch_reach 1 [sample_request] s \<and> f_ctx s \<and>
    (\<forall>s'. (fetch_step 1 1)\<^sup>*\<^sup>* s s' \<longrightarrow> f_receiver s' \<noteq> Gathered)"
  using cancelled_fetching_hangs [of "[sample_request]" 1] by simp

end
