(* ===== verification/Config.thy ===== *)
theory Config
  imports Prelude
begin

text \<open>
  The configuration of the daemon, \<^verbatim>\<open>config/config.go\<close>.
\<close>

record Config =
  SystemdUnits :: "string list"
  FlagCACertFile :: string
  FlagPull :: bool
  FlagVerbose :: bool
  FlagPort :: int
  FlagDisableUnixSocket :: bool
  FlagMasterPort :: int
  FlagAgentPort :: int
  FlagPullInterval :: int
  FlagPullTimeoutSec :: int
  FlagUpdateHealthReportInterval :: int
  FlagExhibitorClusterStatusURL :: string
  FlagForceTLS :: bool
  FlagDebug :: bool
  FlagRole :: string
  FlagIAMConfig :: string
  FlagHostname :: string
  FlagIPDiscoveryCommandLocation :: string
  FlagDiagnosticsBundleDir :: string
  FlagDiagnosticsBundleEndpointsConfigFiles :: "string list"
  FlagDiagnosticsBundleUnitsLogsSinceString :: string
  FlagDiagnosticsJobTimeoutMinutes :: int
  FlagDiagnosticsJobGetSingleURLTimeoutMinutes :: int
  FlagCommandExecTimeoutSec :: int
  FlagDiagnosticsBundleFetchersCount :: int

definition zero_Config :: Config where
  "zero_Config =
     \<lparr>SystemdUnits = [], FlagCACertFile = [], FlagPull = False, FlagVerbose = False, FlagPort = 0, FlagDisableUnixSocket = False,
      FlagMasterPort = 0, FlagAgentPort = 0, FlagPullInterval = 0, FlagPullTimeoutSec = 0, FlagUpdateHealthReportInterval = 0,
      FlagExhibitorClusterStatusURL = [], FlagForceTLS = False, FlagDebug = False, FlagRole = [], FlagIAMConfig = [],
      FlagHostname = [], FlagIPDiscoveryCommandLocation = [], FlagDiagnosticsBundleDir = [],
      FlagDiagnosticsBundleEndpointsConfigFiles = [], FlagDiagnosticsBundleUnitsLogsSinceString = [],
      FlagDiagnosticsJobTimeoutMinutes = 0, FlagDiagnosticsJobGetSingleURLTimeoutMinutes = 0, FlagCommandExecTimeoutSec = 0,
      FlagDiagnosticsBundleFetchersCount = 0\<rparr>"

text \<open>Nanoseconds, as every duration.\<close>

definition GetSingleEntryTimeout :: "Config \<Rightarrow> int" where
  "GetSingleEntryTimeout c = FlagDiagnosticsJobGetSingleURLTimeoutMinutes c * 60000000000"

end
