(* ===== verification/Utf8.thy ===== *)
theory Utf8
  imports Dcos_Nodes
begin

text \<open>
  The text of strings: Go's \<^verbatim>\<open>range\<close> and \<^verbatim>\<open>strings.Map\<close> decode a string's bytes to runes, bytes that are
  not UTF-8 one by one to the replacement rune, and encode the runes of the result. With them
  \<^verbatim>\<open>util.SanitizeString\<close> is a function on strings.
\<close>

section \<open>Decoding\<close>

abbreviation RuneError :: rune where "RuneError \<equiv> 0xFFFD"

definition cont_in :: "nat \<Rightarrow> nat \<Rightarrow> nat list \<Rightarrow> nat \<Rightarrow> bool" where
  "cont_in lo hi bs k =
     (k < length bs \<and> lo \<le> bs ! 1 \<and> bs ! 1 \<le> hi \<and> (\<forall>i\<in>set [2..<Suc k]. 0x80 \<le> bs ! i \<and> bs ! i \<le> 0xBF))"

text \<open>The rune at the head of a list of bytes and its width.\<close>

definition decode_rune :: "nat list \<Rightarrow> rune \<times> nat" where
  "decode_rune bs =
     (let b = bs ! 0 in
      if b < 0x80 then (b, 1)
      else if 0xC2 \<le> b \<and> b \<le> 0xDF \<and> cont_in 0x80 0xBF bs 1 then
        (b mod 0x20 * 0x40 + bs ! 1 mod 0x40, 2)
      else if 0xE0 \<le> b \<and> b \<le> 0xEF \<and>
          cont_in (if b = 0xE0 then 0xA0 else 0x80) (if b = 0xED then 0x9F else 0xBF) bs 2 then
        (b mod 0x10 * 0x1000 + bs ! 1 mod 0x40 * 0x40 + bs ! 2 mod 0x40, 3)
      else if 0xF0 \<le> b \<and> b \<le> 0xF4 \<and>
          cont_in (if b = 0xF0 then 0x90 else 0x80) (if b = 0xF4 then 0x8F else 0xBF) bs 3 then
        (b mod 0x08 * 0x40000 + bs ! 1 mod 0x40 * 0x1000 + bs ! 2 mod 0x40 * 0x40 + bs ! 3 mod 0x40, 4)
      else (RuneError, 1))"

fun decode_runes :: "nat list \<Rightarrow> rune list" where
  "decode_runes [] = []"
| "decode_runes (b # bs) = (case decode_rune (b # bs) of (r, n) \<Rightarrow> r # decode_runes (drop (n - 1) bs))"

definition runes :: "string \<Rightarrow> rune list" where
  "runes s = decode_runes (map of_char s)"

section \<open>Encoding\<close>

definition encode_rune :: "rune \<Rightarrow> nat list" where
  "encode_rune r =
     (if r < 0x80 then [r]
      else if r < 0x800 then [0xC0 + r div 0x40, 0x80 + r mod 0x40]
      else if 0x10FFFF < r \<or> 0xD800 \<le> r \<and> r \<le> 0xDFFF then [0xEF, 0xBF, 0xBD]
      else if r < 0x10000 then [0xE0 + r div 0x1000, 0x80 + r div 0x40 mod 0x40, 0x80 + r mod 0x40]
      else [0xF0 + r div 0x40000, 0x80 + r div 0x1000 mod 0x40, 0x80 + r div 0x40 mod 0x40, 0x80 + r mod 0x40])"

definition text_of :: "rune list \<Rightarrow> string" where
  "text_of rs = map char_of (concat (map encode_rune rs))"

definition sanitize :: "(rune \<Rightarrow> bool) \<Rightarrow> (rune \<Rightarrow> bool) \<Rightarrow> string \<Rightarrow> string" where
  "sanitize isDigit isLetter s = text_of (SanitizeString isDigit isLetter (runes s))"

section \<open>Plain text\<close>

text \<open>An encoded rune holds a byte below 128 only if it is that byte, and every byte is a byte.\<close>

lemma encode_rune_ascii: "b \<in> set (encode_rune r) \<Longrightarrow> b < 0x80 \<Longrightarrow> r = b"
  by (auto simp: encode_rune_def split: if_splits)

lemma encode_rune_byte: "b \<in> set (encode_rune r) \<Longrightarrow> b < 0x100"
  unfolding encode_rune_def by (auto split: if_splits)

lemma text_of_ascii:
  assumes "c \<in> set (text_of rs)" and "(of_char c :: nat) < 0x80"
  shows "of_char c \<in> set rs"
proof -
  from assms(1) obtain r b where r: "r \<in> set rs" and b: "b \<in> set (encode_rune r)" and c: "c = char_of b"
    by (auto simp: text_of_def)
  have "of_char c = b" using encode_rune_byte [OF b] c by simp
  with encode_rune_ascii [OF b] assms(2) r show ?thesis by simp
qed

lemma decode_rune_ascii: "b < 0x80 \<Longrightarrow> decode_rune (b # bs) = (b, 1)"
  by (simp add: decode_rune_def)

lemma decode_runes_ascii: "\<forall>b\<in>set bs. b < 0x80 \<Longrightarrow> decode_runes bs = bs"
  by (induction bs) (simp_all add: decode_rune_ascii)

lemma text_of_ascii_id: "\<forall>r\<in>set rs. r < 0x80 \<Longrightarrow> text_of rs = map char_of rs"
  by (induction rs) (simp_all add: text_of_def encode_rune_def)

text \<open>On ASCII strings decoding and encoding undo each other.\<close>

lemma runes_text_of: "\<forall>c\<in>set s. (of_char c :: nat) < 0x80 \<Longrightarrow> text_of (runes s) = s"
  by (simp add: runes_def decode_runes_ascii text_of_ascii_id comp_def map_idI)

section \<open>Sanitised names\<close>

lemma SanitizeString_no:
  assumes "\<not> isDigit r" and "\<not> isLetter r" and "r \<noteq> 0x5F" and "r \<noteq> 0x2D"
  shows "r \<notin> set (SanitizeString isDigit isLetter s)"
  using assms by (auto simp: SanitizeString_def)

lemma SanitizeString_idem:
  assumes "\<not> isDigit 0x2F" and "\<not> isLetter 0x2F"
  shows "SanitizeString isDigit isLetter (SanitizeString isDigit isLetter s) = SanitizeString isDigit isLetter s"
proof -
  let ?t = "SanitizeString isDigit isLetter s"
  have "0x2F \<notin> set ?t" using assms by (intro SanitizeString_no) auto
  then have d: "dropWhile (\<lambda>r. r = 0x2F) ?t = ?t" by (cases ?t) auto
  have "\<forall>r\<in>set ?t. r = 0x5F \<or> r = 0x2D \<or> isDigit r \<or> isLetter r" by (auto simp: SanitizeString_def)
  then show ?thesis by (subst SanitizeString_def, subst d) (rule map_idI, auto)
qed

text \<open>
  A sanitised string is a harmless file name: if neither a slash nor a dot counts as a letter or digit,
  the result of \<^verbatim>\<open>SanitizeString\<close> on any string of bytes holds neither of them, so unless it is empty it is a single
  path component that is not \<^verbatim>\<open>.\<close> or \<^verbatim>\<open>..\<close>; and sanitising the text again changes nothing.
\<close>

theorem sanitized_is_harmless:
  assumes "\<not> isDigit 0x2F" and "\<not> isLetter 0x2F" and "\<not> isDigit 0x2E" and "\<not> isLetter 0x2E"
  shows "(sanitize isDigit isLetter s = [] \<or> real_comp (sanitize isDigit isLetter s)) \<and>
    CHR ''.'' \<notin> set (sanitize isDigit isLetter s) \<and>
    SanitizeString isDigit isLetter (SanitizeString isDigit isLetter (runes s)) = SanitizeString isDigit isLetter (runes s)"
proof -
  let ?t = "SanitizeString isDigit isLetter (runes s)"
  have no: "CHR ''/'' \<notin> set (sanitize isDigit isLetter s)" "CHR ''.'' \<notin> set (sanitize isDigit isLetter s)"
    using text_of_ascii [where c = "CHR ''/''" and rs = ?t] text_of_ascii [where c = "CHR ''.''" and rs = ?t] assms
      SanitizeString_no [where r = 47 and s = "runes s" and isDigit = isDigit and isLetter = isLetter]
      SanitizeString_no [where r = 46 and s = "runes s" and isDigit = isDigit and isLetter = isLetter]
    by (auto simp: sanitize_def)
  then have "sanitize isDigit isLetter s = [] \<or> real_comp (sanitize isDigit isLetter s)"
    by (auto simp: real_comp_def)
  with no(2) SanitizeString_idem [of isDigit isLetter] assms(1,2) show ?thesis by blast
qed

theorem sanitized_is_harmless_witness:
  "real_comp (sanitize (\<lambda>r. 0x30 \<le> r \<and> r \<le> 0x39) (\<lambda>r. 0x61 \<le> r \<and> r \<le> 0x7A) ''/a./1'') \<and>
   sanitize (\<lambda>r. 0x30 \<le> r \<and> r \<le> 0x39) (\<lambda>r. 0x61 \<le> r \<and> r \<le> 0x7A) ''/a./1'' = ''a__1''"
proof -
  let ?d = "\<lambda>r :: rune. 0x30 \<le> r \<and> r \<le> 0x39" and ?l = "\<lambda>r :: rune. 0x61 \<le> r \<and> r \<le> 0x7A"
  have "sanitize ?d ?l ''/a./1'' = ''a__1''" by code_simp
  with sanitized_is_harmless [of ?d ?l "''/a./1''"] show ?thesis by simp
qed

end
