(* ===== verification/Unit_Health.thy ===== *)
theory Unit_Health
  imports Dcos_Nodes Collector "HOL-Library.Word"
begin

text \<open>
  The health of the units of one node: the D-Bus connection and its lock (\<^verbatim>\<open>dcos/tools_linux.go\<close>), the
  judgement of one unit (\<^verbatim>\<open>api/properties_linux.go\<close>, \<^verbatim>\<open>api/properties_util.go\<close>), and the report over all
  units (\<^verbatim>\<open>api/health_linux.go\<close>, \<^verbatim>\<open>api/structures.go\<close>). The D-Bus calls, the journal and the decoder
  \<^verbatim>\<open>mapstructure\<close> are parameters.
\<close>

section \<open>The D-Bus connection\<close>

text \<open>The mutex of \<^verbatim>\<open>Tools\<close> and whether \<^verbatim>\<open>dcon\<close> is set. Taking a locked mutex blocks, unlocking an
  unlocked one is a fatal error: both are \<open>None\<close>.\<close>

record dbus =
  db_locked :: bool
  db_open :: bool

definition InitializeUnitControllerConnection :: "string option \<Rightarrow> dbus \<Rightarrow> (string option \<times> dbus) option" where
  "InitializeUnitControllerConnection newErr st =
     (if db_locked st then None
      else if \<not> db_open st then
        (case newErr of
           Some e \<Rightarrow> Some (Some e, st)
         | None \<Rightarrow> Some (None, \<lparr>db_locked = True, db_open = True\<rparr>))
      else Some (Some ''dbus connection is already opened'', st))"

definition CloseUnitControllerConnection :: "dbus \<Rightarrow> (string option \<times> dbus) option" where
  "CloseUnitControllerConnection st =
     (if \<not> db_locked st then None
      else if db_open st then Some (None, \<lparr>db_locked = False, db_open = False\<rparr>)
      else Some (Some ''dbus connection is closed'', st\<lparr>db_locked := False\<rparr>))"

text \<open>
  What the health report relies on, on every platform: opening the connection takes the lock exactly if it succeeds, and closing it
  frees the lock even if it fails. Then a session of opening, reading and closing never blocks and leaves the lock free.
\<close>

locale unit_controller =
  fixes locked :: "'st \<Rightarrow> bool"
    and initialize :: "string option \<Rightarrow> 'st \<Rightarrow> (string option \<times> 'st) option"
    and close :: "string option \<Rightarrow> 'st \<Rightarrow> (string option \<times> 'st) option"
  assumes initialize_free: "\<not> locked st \<Longrightarrow> \<exists>e st'. initialize err st = Some (e, st') \<and> (locked st' \<longleftrightarrow> e = None)"
    and close_held: "locked st \<Longrightarrow> \<exists>e st'. close err st = Some (e, st') \<and> \<not> locked st'"
begin

lemma session:
  assumes "\<not> locked st"
  shows "(\<exists>e st1. initialize err st = Some (Some e, st1) \<and> \<not> locked st1) \<or>
    (\<exists>st1 e st2. initialize err st = Some (None, st1) \<and> close err' st1 = Some (e, st2) \<and> \<not> locked st2)"
proof -
  obtain e st1 where i: "initialize err st = Some (e, st1)" "locked st1 \<longleftrightarrow> e = None" using initialize_free [OF assms] by blast
  then show ?thesis using close_held [of st1 err'] by (cases e) auto
qed

end

interpretation linux: unit_controller db_locked InitializeUnitControllerConnection "\<lambda>_. CloseUnitControllerConnection"
  by unfold_locales
    (auto simp: InitializeUnitControllerConnection_def CloseUnitControllerConnection_def split: option.splits)

section \<open>Calls on the open connection\<close>

text \<open>\<open>ue_props\<close> and \<open>ue_service\<close> are the D-Bus calls, \<open>ue_decode\<close> is \<^verbatim>\<open>mapstructure.Decode\<close>, \<open>ue_journal\<close> opens
  a journal reader.\<close>

record UnitPropertiesResponse =
  p_ID :: string
  p_LoadState :: string
  p_ActiveState :: string
  p_SubState :: string
  p_Description :: string
  p_ExecMainStatus :: int
  p_InactiveExitTimestampMonotonic :: "64 word"
  p_ActiveEnterTimestampMonotonic :: "64 word"
  p_ActiveExitTimestampMonotonic :: "64 word"
  p_InactiveEnterTimestampMonotonic :: "64 word"

record 'v unit_env =
  ue_props :: "string \<Rightarrow> (string \<rightharpoonup> 'v) result"
  ue_service :: "string \<Rightarrow> string \<Rightarrow> (string \<times> 'v) result"
  ue_decode :: "(string \<rightharpoonup> 'v) \<Rightarrow> UnitPropertiesResponse result"
  ue_journal :: "JournalReaderConfig \<Rightarrow> stream result"

definition GetUnitProperties :: "'v unit_env \<Rightarrow> string \<Rightarrow> (string \<rightharpoonup> 'v) result" where
  "GetUnitProperties env pname =
     (case ue_props env pname of
        Inl e \<Rightarrow> Inl e
      | Inr result \<Rightarrow>
          (case split_on (CHR ''.'') pname of
             [n, t] \<Rightarrow>
               if t = ''service'' then
                 (case ue_service env pname ''ExecMainStatus'' of
                    Inl e \<Rightarrow> Inl e
                  | Inr (n, v) \<Rightarrow> Inr (result(n \<mapsto> v)))
               else Inr result
           | _ \<Rightarrow> Inl (msg [''Unit name must be in the following format: unitName.Type, got: '', pname])))"

definition GetUnitNames :: "world \<Rightarrow> string list result \<times> world" where
  "GetUnitNames w =
     (case sys_read_dir ''/etc/systemd/system/dcos.target.wants'' w of
        (Inl e, w1) \<Rightarrow> (Inl e, w1)
      | (Inr es, w1) \<Rightarrow> (Inr (map fst es), w1))"

definition GetJournalOutput :: "'v unit_env \<Rightarrow> string \<Rightarrow> string result" where
  "GetJournalOutput env u =
     (case ue_journal env (ReadJournalTail u 50) of
        Inl e \<Rightarrow> Inl e
      | Inr (entries, Some e) \<Rightarrow> Inl e
      | Inr (entries, None) \<Rightarrow> Inr entries)"

section \<open>One unit\<close>

definition okActiveStates :: "string list" where
  "okActiveStates = [''active'', ''inactive'', ''activating'']"

definition CheckUnitHealth :: "UnitPropertiesResponse \<Rightarrow> (Health \<times> string) result" where
  "CheckUnitHealth u =
     (if p_LoadState u = [] \<or> p_ActiveState u = [] \<or> p_SubState u = [] then
        Inl (msg [''LoadState: '', p_LoadState u, '', ActiveState: '', p_ActiveState u, '' and SubState: '',
          p_SubState u, '' must be set''])
      else if p_LoadState u \<noteq> ''loaded'' then
        Inr (Unhealthy, msg [p_ID u, '' is not loaded. Please check `systemctl show all` to check current Unit status.''])
      else if \<not> IsInList (p_ActiveState u) okActiveStates then
        Inr (Unhealthy, msg [p_ID u, '' state is not one of the possible states [active inactive activating]. Current state is [ '',
          p_ActiveState u, '' ]. Please check `systemctl show all '', p_ID u, ''` to check current Unit state. ''])
      else if p_ExecMainStatus u \<noteq> 0 then
        Inr (Unhealthy, msg [''ExecMainStatus return failed status for '', p_ID u])
      else if p_ActiveState u = ''activating'' \<and> p_SubState u = ''auto-restart'' \<and> p_ActiveEnterTimestampMonotonic u = 0 then
        Inr (Unhealthy, msg [''Unit '', p_ID u, '' has never entered `active` state''])
      else if p_ActiveState u = ''activating'' \<and> p_SubState u = ''auto-restart'' \<and>
          p_InactiveEnterTimestampMonotonic u > p_ActiveEnterTimestampMonotonic u then
        Inr (Unhealthy, msg [''Unit '', p_ID u, '' is flapping. Please check `systemctl status '', p_ID u,
          ''` to check current Unit state.''])
      else if p_ActiveState u = ''inactive'' then
        Inr (Unhealthy, msg [''Unit '', p_ID u, '' is '', p_SubState u])
      else Inr (Healthy, []))"

record HealthResponseValues =
  hv_UnitID :: string
  hv_UnitHealth :: Health
  hv_UnitOutput :: string
  hv_UnitTitle :: string
  hv_Help :: string
  hv_PrettyName :: string

text \<open>\<open>check\<close> is the platform's judgement of a unit and \<open>journal\<close> its journal; the first argument is the decoded map.\<close>

definition normalize_with ::
  "(UnitPropertiesResponse \<Rightarrow> (Health \<times> string) result) \<Rightarrow> (string \<Rightarrow> string result) \<Rightarrow> UnitPropertiesResponse result \<Rightarrow>
     HealthResponseValues result" where
  "normalize_with check journal props =
     (case props of
        Inl e \<Rightarrow> Inl e
      | Inr p \<Rightarrow>
          (case check p of
             Inl e \<Rightarrow> Inl e
           | Inr (unitHealth, out) \<Rightarrow>
               (let unitOutput =
                      (if unitHealth > 0 then
                         (case journal (p_ID p) of Inr j \<Rightarrow> out @ [CHR 0x0A] @ j | Inl e \<Rightarrow> out)
                       else out);
                    s = split_str '': '' (p_Description p);
                    (prettyName, description) =
                      (case s of [a, b] \<Rightarrow> (a, b) | _ \<Rightarrow> (p_ID p, str_join '' '' s))
                in Inr \<lparr>hv_UnitID = p_ID p, hv_UnitHealth = unitHealth, hv_UnitOutput = unitOutput,
                        hv_UnitTitle = description, hv_Help = [], hv_PrettyName = prettyName\<rparr>)))"

definition normalizeProperty :: "'v unit_env \<Rightarrow> (string \<rightharpoonup> 'v) \<Rightarrow> HealthResponseValues result" where
  "normalizeProperty env unitProps = normalize_with CheckUnitHealth (GetJournalOutput env) (ue_decode env unitProps)"

section \<open>All units\<close>

definition excludeUnits :: "string list" where
  "excludeUnits = [''dcos-setup.service'', ''dcos-link-env.service'', ''dcos-download.service'']"

fun units_loop :: "'v unit_env \<Rightarrow> string list \<Rightarrow> HealthResponseValues list \<Rightarrow> HealthResponseValues list" where
  "units_loop env [] allUnits = allUnits"
| "units_loop env (u # us) allUnits =
     (if IsInList u excludeUnits then units_loop env us allUnits
      else
        (case GetUnitProperties env u of
           Inl e \<Rightarrow> units_loop env us allUnits
         | Inr currentProperty \<Rightarrow>
             (case normalizeProperty env currentProperty of
                Inl e \<Rightarrow> units_loop env us allUnits
              | Inr v \<Rightarrow> units_loop env us (allUnits @ [v]))))"

definition GetUnits ::
  "'v unit_env \<Rightarrow> string option \<Rightarrow> dbus \<Rightarrow> world \<Rightarrow> (HealthResponseValues list result \<times> dbus \<times> world) option" where
  "GetUnits env newErr st w =
     (case InitializeUnitControllerConnection newErr st of
        None \<Rightarrow> None
      | Some (Some e, st1) \<Rightarrow> Some (Inl e, st1, w)
      | Some (None, st1) \<Rightarrow>
          (case GetUnitNames w of
             (r, w1) \<Rightarrow>
               (case CloseUnitControllerConnection st1 of
                  None \<Rightarrow> None
                | Some (ignored, st2) \<Rightarrow>
                    Some ((case r of Inl e \<Rightarrow> Inl e | Inr us \<Rightarrow> Inr (units_loop env us [])), st2, w1))))"

record UnitsHealthResponseJSONStruct =
  ur_Array :: "HealthResponseValues list"
  ur_Hostname :: string
  ur_IPAddress :: string
  ur_DcosVersion :: string
  ur_Role :: string
  ur_MesosID :: string
  ur_TdtVersion :: string

text \<open>The value of a call whose error is only logged: Go's zero value stands in for it.\<close>

definition or_zero :: "'a \<Rightarrow> 'a result \<Rightarrow> 'a" where
  "or_zero z r = (case r of Inl e \<Rightarrow> z | Inr v \<Rightarrow> v)"

definition GetUnitsProperties ::
  "'v unit_env \<Rightarrow> string option \<Rightarrow> Tools \<Rightarrow> string \<Rightarrow> string result \<Rightarrow> string result \<Rightarrow> string result \<Rightarrow> string \<Rightarrow>
     dbus \<Rightarrow> world \<Rightarrow> (UnitsHealthResponseJSONStruct \<times> dbus \<times> world) option" where
  "GetUnitsProperties env newErr tools version hostname ip mesosID dcosVersion st w =
     (case GetUnits env newErr st w of
        None \<Rightarrow> None
      | Some (us, st1, w1) \<Rightarrow>
          Some (\<lparr>ur_Array = or_zero [] us, ur_Hostname = or_zero [] hostname, ur_IPAddress = or_zero [] ip,
                 ur_DcosVersion = dcosVersion, ur_Role = or_zero [] (GetNodeRole tools),
                 ur_MesosID = or_zero [] mesosID, ur_TdtVersion = version\<rparr>, st1, w1))"

section \<open>Properties\<close>

text \<open>What one unit contributes to the report, if anything.\<close>

definition unit_value :: "'v unit_env \<Rightarrow> string \<Rightarrow> HealthResponseValues option" where
  "unit_value env u =
     (if u \<in> set excludeUnits then None
      else case GetUnitProperties env u of
        Inl e \<Rightarrow> None
      | Inr p \<Rightarrow> (case normalizeProperty env p of Inl e \<Rightarrow> None | Inr v \<Rightarrow> Some v))"

lemma units_loop_eq: "units_loop env us acc = acc @ List.map_filter (unit_value env) us"
  by (induction us arbitrary: acc) (auto simp: unit_value_def List.map_filter_simps split: sum.splits)

text \<open>
  C29. When a unit is healthy: a unit whose states are set is reported healthy exactly if it is loaded,
  active or activating, its main process has not failed, and it is not in a restart loop (activating
  with sub-state auto-restart, and either never active before or inactive more recently than active).
  There is a message exactly for the units that are not healthy, and no other health value is reported.
\<close>

theorem unit_health_iff:
  assumes "CheckUnitHealth u = Inr (h, out)"
  shows "(h = Healthy \<longleftrightarrow> p_LoadState u = ''loaded'' \<and> p_ActiveState u \<in> {''active'', ''activating''} \<and> p_ExecMainStatus u = 0 \<and>
      \<not> (p_ActiveState u = ''activating'' \<and> p_SubState u = ''auto-restart'' \<and>
         (p_ActiveEnterTimestampMonotonic u = 0 \<or>
          p_ActiveEnterTimestampMonotonic u < p_InactiveEnterTimestampMonotonic u))) \<and>
    (out = [] \<longleftrightarrow> h = Healthy) \<and> h \<in> {Healthy, Unhealthy}"
  using assms
  by (auto simp: CheckUnitHealth_def Healthy_def Unhealthy_def msg_def okActiveStates_def split: if_splits)

lemma CheckUnitHealth_ok:
  "p_LoadState u \<noteq> [] \<Longrightarrow> p_ActiveState u \<noteq> [] \<Longrightarrow> p_SubState u \<noteq> [] \<Longrightarrow> \<exists>h out. CheckUnitHealth u = Inr (h, out)"
  by (simp add: CheckUnitHealth_def)

definition sample_unit :: UnitPropertiesResponse where
  "sample_unit = \<lparr>p_ID = ''u.service'', p_LoadState = ''loaded'', p_ActiveState = ''activating'', p_SubState = ''auto-restart'',
     p_Description = ''U: unit'', p_ExecMainStatus = 0, p_InactiveExitTimestampMonotonic = 0,
     p_ActiveEnterTimestampMonotonic = 5, p_ActiveExitTimestampMonotonic = 0, p_InactiveEnterTimestampMonotonic = 7\<rparr>"

theorem unit_health_iff_witness:
  "\<exists>h out. CheckUnitHealth sample_unit = Inr (h, out) \<and> h = Unhealthy \<and> out \<noteq> []"
proof -
  obtain h out where c: "CheckUnitHealth sample_unit = Inr (h, out)"
    using CheckUnitHealth_ok [of sample_unit] by (auto simp: sample_unit_def)
  then show ?thesis using unit_health_iff [OF c] by (auto simp: sample_unit_def)
qed

lemma GetUnits_eq:
  "\<exists>w'. GetUnits env newErr \<lparr>db_locked = False, db_open = False\<rparr> w =
     Some (case newErr of
             Some e \<Rightarrow> Inl e
           | None \<Rightarrow> (case fst (GetUnitNames w) of
                        Inl e \<Rightarrow> Inl e
                      | Inr us \<Rightarrow> Inr (List.map_filter (unit_value env) us)),
           \<lparr>db_locked = False, db_open = False\<rparr>, w')"
  by (cases newErr) (auto simp: GetUnits_def InitializeUnitControllerConnection_def CloseUnitControllerConnection_def
      units_loop_eq split: prod.splits sum.splits)

text \<open>
  Reading the units' health always returns, and whatever fails it leaves the D-Bus connection closed
  and its lock released, so the next report can be made. The report lists, in the order of the directory,
  one entry for every unit that is not excluded and whose properties can be read and judged.
\<close>

theorem units_reported:
  "\<exists>w'. GetUnits env newErr \<lparr>db_locked = False, db_open = False\<rparr> w =
     Some (case newErr of
             Some e \<Rightarrow> Inl e
           | None \<Rightarrow> (case fst (GetUnitNames w) of
                        Inl e \<Rightarrow> Inl e
                      | Inr us \<Rightarrow> Inr (List.map_filter (unit_value env) us)),
           \<lparr>db_locked = False, db_open = False\<rparr>, w')"
  by (rule GetUnits_eq)

end
