(* ===== verification/Monitoring.thy ===== *)
theory Monitoring
  imports Unit_Health "HOL-Library.AList"
begin

text \<open>
  The status tree of the cluster and its queries, \<^verbatim>\<open>api/monitoring_response.go\<close> with the answers of
  \<^verbatim>\<open>api/structures.go\<close>. The two Go maps are association lists with distinct keys; a query that walks
  over a map visits the entries in the order of the list, which stands for any order.
\<close>

section \<open>The tree\<close>

record MonitoringResponse =
  mr_Units :: "(string \<times> Unit) list"
  mr_Nodes :: "(string \<times> Node) list"
  mr_UpdatedTime :: time

definition notFoundError :: "string \<Rightarrow> string" where
  "notFoundError what = msg [what, '' not found'']"

definition UpdateMonitoringResponse :: "MonitoringResponse \<Rightarrow> MonitoringResponse \<Rightarrow> MonitoringResponse" where
  "UpdateMonitoringResponse r mr =
     mr\<lparr>mr_Nodes := mr_Nodes r, mr_Units := mr_Units r, mr_UpdatedTime := mr_UpdatedTime r\<rparr>"

section \<open>Queries\<close>

record UnitResponseFieldsStruct =
  uf_UnitID :: string
  uf_PrettyName :: string
  uf_UnitHealth :: Health
  uf_UnitTitle :: string

record NodeResponseFieldsStruct =
  nf_HostIP :: string
  nf_NodeHealth :: Health
  nf_NodeRole :: string

record NodeResponseFieldsWithErrorStruct = NodeResponseFieldsStruct +
  nf_UnitOutput :: string
  nf_Help :: string

definition unit_fields :: "Unit \<Rightarrow> UnitResponseFieldsStruct" where
  "unit_fields u = \<lparr>uf_UnitID = UnitName u, uf_PrettyName = UnitPrettyName u, uf_UnitHealth = UnitHealth u,
     uf_UnitTitle = UnitTitle u\<rparr>"

definition node_fields :: "Node \<Rightarrow> NodeResponseFieldsStruct" where
  "node_fields n = \<lparr>nf_HostIP = IP n, nf_NodeHealth = NodeHealth n, nf_NodeRole = Role n\<rparr>"

definition GetAllUnits :: "MonitoringResponse \<Rightarrow> UnitResponseFieldsStruct list" where
  "GetAllUnits mr = map (\<lambda>(k, u). unit_fields u) (mr_Units mr)"

definition GetUnit :: "MonitoringResponse \<Rightarrow> string \<Rightarrow> UnitResponseFieldsStruct result" where
  "GetUnit mr unitName =
     (case map_of (mr_Units mr) unitName of
        None \<Rightarrow> Inl (notFoundError unitName)
      | Some u \<Rightarrow> Inr (unit_fields u))"

definition GetNodesForUnit :: "MonitoringResponse \<Rightarrow> string \<Rightarrow> NodeResponseFieldsStruct list result" where
  "GetNodesForUnit mr unitName =
     (case map_of (mr_Units mr) unitName of
        None \<Rightarrow> Inl (notFoundError unitName)
      | Some u \<Rightarrow> Inr (map node_fields (UnitNodes u)))"

text \<open>A missing key of the output map reads as the empty string.\<close>

definition output_of :: "Node \<Rightarrow> string \<Rightarrow> string" where
  "output_of n u = (case map_of (Output n) u of None \<Rightarrow> [] | Some s \<Rightarrow> s)"

definition help_field :: "Node \<Rightarrow> string" where
  "help_field n = msg [''Node available at `dcos node ssh -mesos-id '', MesosID n,
     ''`. Try, `journalctl -xv` to diagnose further.'']"

fun find_node :: "string \<Rightarrow> Node list \<Rightarrow> Node option" where
  "find_node ip [] = None"
| "find_node ip (n # ns) = (if IP n = ip then Some n else find_node ip ns)"

definition GetSpecificNodeForUnit :: "MonitoringResponse \<Rightarrow> string \<Rightarrow> string \<Rightarrow> NodeResponseFieldsWithErrorStruct result" where
  "GetSpecificNodeForUnit mr unitName nodeIP =
     (case map_of (mr_Units mr) unitName of
        None \<Rightarrow> Inl (notFoundError unitName)
      | Some u \<Rightarrow>
          (case find_node nodeIP (UnitNodes u) of
             None \<Rightarrow> Inl (notFoundError nodeIP)
           | Some n \<Rightarrow> Inr \<lparr>nf_HostIP = IP n, nf_NodeHealth = NodeHealth n, nf_NodeRole = Role n,
                            nf_UnitOutput = output_of n unitName, nf_Help = help_field n\<rparr>))"

definition GetNodes :: "MonitoringResponse \<Rightarrow> NodeResponseFieldsStruct list" where
  "GetNodes mr = map (\<lambda>(k, n). node_fields n) (mr_Nodes mr)"

fun split_roles :: "Node list \<Rightarrow> Node list \<times> Node list" where
  "split_roles [] = ([], [])"
| "split_roles (n # ns) =
     (case split_roles ns of (ms, as) \<Rightarrow>
        if Role n = MasterRole then (n # ms, as)
        else if Role n = AgentRole \<or> Role n = AgentPublicRole then (ms, n # as)
        else (ms, as))"

definition GetMasterAgentNodes :: "MonitoringResponse \<Rightarrow> Node list \<times> Node list \<times> string option" where
  "GetMasterAgentNodes mr =
     (case split_roles (map snd (mr_Nodes mr)) of (ms, as) \<Rightarrow>
        (ms, as, if length ms = 0 \<and> length as = 0 then Some (notFoundError ''any nodes'') else None))"

definition GetNodeByID :: "MonitoringResponse \<Rightarrow> string \<Rightarrow> NodeResponseFieldsStruct result" where
  "GetNodeByID mr nodeIP =
     (case map_of (mr_Nodes mr) nodeIP of
        None \<Rightarrow> Inl (notFoundError nodeIP)
      | Some n \<Rightarrow> Inr (node_fields n))"

definition GetNodeUnitsID :: "MonitoringResponse \<Rightarrow> string \<Rightarrow> UnitResponseFieldsStruct list result" where
  "GetNodeUnitsID mr nodeIP =
     (case map_of (mr_Nodes mr) nodeIP of
        None \<Rightarrow> Inl (notFoundError nodeIP)
      | Some n \<Rightarrow> Inr (map unit_fields (NodeUnits n)))"

fun find_unit :: "string \<Rightarrow> Unit list \<Rightarrow> Unit option" where
  "find_unit i [] = None"
| "find_unit i (u # us) = (if UnitName u = i then Some u else find_unit i us)"

definition GetNodeUnitByNodeIDUnitID :: "MonitoringResponse \<Rightarrow> string \<Rightarrow> string \<Rightarrow> HealthResponseValues result" where
  "GetNodeUnitByNodeIDUnitID mr nodeIP unitID =
     (case map_of (mr_Nodes mr) nodeIP of
        None \<Rightarrow> Inl (notFoundError nodeIP)
      | Some n \<Rightarrow>
          (case find_unit unitID (NodeUnits n) of
             None \<Rightarrow> Inl (notFoundError unitID)
           | Some u \<Rightarrow> Inr \<lparr>hv_UnitID = UnitName u, hv_UnitHealth = UnitHealth u, hv_UnitOutput = output_of n (UnitName u),
                            hv_UnitTitle = UnitTitle u, hv_Help = help_field n, hv_PrettyName = UnitPrettyName u\<rparr>))"

text \<open>\<open>ansic\<close> formats an instant.\<close>

definition GetLastUpdatedTime :: "(time \<Rightarrow> string) \<Rightarrow> MonitoringResponse \<Rightarrow> string" where
  "GetLastUpdatedTime ansic mr = (if mr_UpdatedTime mr = 0 then [] else ansic (mr_UpdatedTime mr))"

section \<open>Facts about the queries\<close>

lemma find_unit_iff: "find_unit i us = None \<longleftrightarrow> i \<notin> UnitName ` set us"
  by (induction us) auto

lemma find_unit_some: "find_unit i us = Some u \<Longrightarrow> u \<in> set us \<and> UnitName u = i"
  by (induction us) (auto split: if_splits)

lemma find_node_some: "find_node i ns = Some n \<Longrightarrow> n \<in> set ns \<and> IP n = i"
  by (induction ns) (auto split: if_splits)

lemma split_roles_eq:
  "split_roles ns = (filter (\<lambda>n. Role n = MasterRole) ns, filter (\<lambda>n. Role n = AgentRole \<or> Role n = AgentPublicRole) ns)"
  by (induction ns) auto

end
