(* ===== verification/Pull.thy ===== *)
theory Pull
  imports Config Monitoring "HOL-Library.Signed_Division" "HOL-Library.Multiset"
begin

text \<open>
  Pulling the health of the cluster, \<^verbatim>\<open>api/pull.go\<close>: every node is asked for its report under a rate
  limit, the answers are merged into a new status tree, and the tree replaces the old one. The answers
  arrive in any order; the tree the users see does not depend on it.
\<close>

section \<open>One node\<close>

definition getPullPortByRole :: "Config \<Rightarrow> string \<Rightarrow> int result" where
  "getPullPortByRole cfg role =
     (if role \<noteq> MasterRole \<and> role \<noteq> AgentRole \<and> role \<noteq> AgentPublicRole then
        Inl (msg [''incorrect role '', role, '', must be: '', MasterRole, '', '', AgentRole, '' or '', AgentPublicRole])
      else Inr (if role = MasterRole then FlagMasterPort cfg else FlagAgentPort cfg))"

datatype health_body = HealthDoc UnitsHealthResponseJSONStruct | BadBody string

record httpResponse =
  hr_Status :: int
  hr_Units :: "Unit list"
  hr_Node :: Node

definition baseRoute :: string where "baseRoute = ''/system/health/v1''"

fun set_health :: "Health \<Rightarrow> Node \<Rightarrow> Node" where
  "set_health h (Node l r ip ho he out us m) = Node l r ip ho h out us m"

fun set_units :: "Unit list \<Rightarrow> Node \<Rightarrow> Node" where
  "set_units us (Node l r ip ho he out us0 m) = Node l r ip ho he out us m"

definition unknown_response :: "int \<Rightarrow> Node \<Rightarrow> httpResponse" where
  "unknown_response code host = \<lparr>hr_Status = code, hr_Units = [], hr_Node = set_health UnknownHealth host\<rparr>"

text \<open>The first unit that is worse than the host decides the host's health.\<close>

fun worse_health :: "HealthResponseValues list \<Rightarrow> Health \<Rightarrow> Health" where
  "worse_health [] h = h"
| "worse_health (p # ps) h = (if hv_UnitHealth p > h then hv_UnitHealth p else worse_health ps h)"

definition outputs :: "HealthResponseValues list \<Rightarrow> (string \<times> string) list" where
  "outputs ps = fold (\<lambda>p m. AList.update (hv_UnitID p) (hv_UnitOutput p) m) ps []"

text \<open>The host after its report: the units share the map of outputs, so all of them see every output.\<close>

definition reported_host :: "UnitsHealthResponseJSONStruct \<Rightarrow> Node \<Rightarrow> Node" where
  "reported_host b host =
     Node (Leader host) (Role host) (IP host) (ur_Hostname b) (worse_health (ur_Array b) (NodeHealth host))
       (outputs (ur_Array b)) (NodeUnits host) (ur_MesosID b)"

definition reported_units :: "time \<Rightarrow> UnitsHealthResponseJSONStruct \<Rightarrow> Node \<Rightarrow> Unit list" where
  "reported_units now b host =
     map (\<lambda>p. Unit (hv_UnitID p) [reported_host b host] (hv_UnitHealth p) (hv_UnitTitle p) now (hv_PrettyName p)) (ur_Array b)"

definition pullHostStatus ::
  "Config \<Rightarrow> (string \<Rightarrow> string result) \<Rightarrow> (string \<Rightarrow> health_body \<times> int \<times> string option) \<Rightarrow> time \<Rightarrow> Node \<Rightarrow> httpResponse" where
  "pullHostStatus cfg https get now host =
     (case getPullPortByRole cfg (Role host) of
        Inl e \<Rightarrow> unknown_response StatusServiceUnavailable host
      | Inr p \<Rightarrow>
          (case UseTLSScheme https (msg [''http://'', IP host, '':'', itoa p, baseRoute]) (FlagForceTLS cfg) of
             Inl e \<Rightarrow> unknown_response StatusServiceUnavailable host
           | Inr url \<Rightarrow>
               (case get url of
                  (body, statusCode, err) \<Rightarrow>
                    if statusCode \<noteq> StatusOK then unknown_response statusCode host
                    else if err \<noteq> None then unknown_response statusCode host
                    else
                      (case body of
                         BadBody s \<Rightarrow> unknown_response statusCode host
                       | HealthDoc b \<Rightarrow>
                           \<lparr>hr_Status = statusCode, hr_Units = reported_units now b host, hr_Node = reported_host b host\<rparr>))))"

section \<open>The whole cluster\<close>

definition merge_unit :: "Unit \<Rightarrow> Unit \<Rightarrow> Unit" where
  "merge_unit u c =
     Unit (UnitName u) (UnitNodes u @ UnitNodes c) (if UnitHealth c > UnitHealth u then UnitHealth c else UnitHealth u)
       (UnitTitle u) (UnitTimestamp u) (UnitPrettyName u)"

definition add_unit :: "Unit \<Rightarrow> (string \<times> Unit) list \<Rightarrow> (string \<times> Unit) list" where
  "add_unit c units =
     AList.update (UnitName c) (case map_of units (UnitName c) of Some u \<Rightarrow> merge_unit u c | None \<Rightarrow> c) units"

fun health_loop :: "httpResponse list \<Rightarrow> (string \<times> Unit) list \<Rightarrow> (string \<times> Node) list \<Rightarrow>
    (string \<times> Unit) list \<times> (string \<times> Node) list" where
  "health_loop [] units nodes = (units, nodes)"
| "health_loop (r # rs) units nodes =
     health_loop rs (fold add_unit (hr_Units r) units)
       (AList.update (IP (hr_Node r)) (set_units (hr_Units r) (hr_Node r)) nodes)"

definition updateHealthStatus :: "time \<Rightarrow> httpResponse list \<Rightarrow> MonitoringResponse \<Rightarrow> MonitoringResponse" where
  "updateHealthStatus now responses mr =
     (case health_loop responses [] [] of
        (units, nodes) \<Rightarrow>
          UpdateMonitoringResponse \<lparr>mr_Units = units, mr_Nodes = nodes, mr_UpdatedTime = now\<rparr> mr)"

text \<open>The rate limit; the division is Go's, and \<open>None\<close> is its panic. A channel needs a capacity that is
  not negative.\<close>

definition pull_limit :: "Config \<Rightarrow> nat \<Rightarrow> int option" where
  "pull_limit cfg len =
     (if FlagPullInterval cfg = 0 then None
      else
        (let n = (int len * FlagPullTimeoutSec cfg) sdiv FlagPullInterval cfg + 1 in
         if n < 0 then None else Some n))"

text \<open>
  \<^verbatim>\<open>runPull\<close>: \<open>order\<close> is the order in which the answers arrive. Without nodes the tree stays as it was; a limit of zero leaves every
  goroutine waiting for its turn, so that the call never returns.
\<close>

datatype pulled = PullPanic | PullBlocked | Pulled MonitoringResponse

definition runPull ::
  "Config \<Rightarrow> Node list result \<Rightarrow> Node list result \<Rightarrow> (Node \<Rightarrow> httpResponse) \<Rightarrow> (httpResponse list \<Rightarrow> httpResponse list) \<Rightarrow>
     time \<Rightarrow> MonitoringResponse \<Rightarrow> pulled" where
  "runPull cfg masters agents ask order now mr =
     (let clusterNodes = or_zero [] masters @ or_zero [] agents in
      if length clusterNodes = 0 then Pulled mr
      else
        (case pull_limit cfg (length clusterNodes) of
           None \<Rightarrow> PullPanic
         | Some n \<Rightarrow> if n = 0 then PullBlocked else Pulled (updateHealthStatus now (order (map ask clusterNodes)) mr)))"

section \<open>Merging\<close>

lemma map_of_add_unit:
  "map_of (add_unit c units) k =
     (if k = UnitName c then Some (case map_of units k of Some u \<Rightarrow> merge_unit u c | None \<Rightarrow> c) else map_of units k)"
  by (simp add: add_unit_def update_conv')

lemma merge_unit_simps [simp]:
  "UnitName (merge_unit u c) = UnitName u" "UnitHealth (merge_unit u c) = max (UnitHealth u) (UnitHealth c)"
  "UnitNodes (merge_unit u c) = UnitNodes u @ UnitNodes c"
  by (simp_all add: merge_unit_def)

text \<open>What the tree says of one unit after a list of units has been added.\<close>

definition named :: "string \<Rightarrow> Unit list \<Rightarrow> Unit list" where
  "named k us = filter (\<lambda>u. UnitName u = k) us"

lemma named_snoc: "named k (us @ [c]) = named k us @ (if UnitName c = k then [c] else [])"
  by (simp add: named_def)

lemma fold_add_unit:
  assumes "map_of units k = None"
  shows "(case map_of (fold add_unit us units) k of
            None \<Rightarrow> named k us = []
          | Some u \<Rightarrow> named k us \<noteq> [] \<and> UnitName u = k \<and> UnitHealth u = Max (UnitHealth ` set (named k us)) \<and>
              UnitNodes u = concat (map UnitNodes (named k us)))"
proof (induction us rule: rev_induct)
  case Nil
  then show ?case using assms by (simp add: named_def)
next
  case (snoc c us)
  show ?case
  proof (cases "UnitName c = k")
    case True
    show ?thesis
    proof (cases "map_of (fold add_unit us units) k")
      case None
      then show ?thesis using snoc.IH True by (simp add: map_of_add_unit named_snoc)
    next
      case (Some u)
      let ?H = "UnitHealth ` set (named k us)"
      have u: "named k us \<noteq> []" "UnitName u = k" "UnitHealth u = Max ?H" "UnitNodes u = concat (map UnitNodes (named k us))"
        using snoc.IH Some by simp_all
      have "Max (insert (UnitHealth c) ?H) = max (UnitHealth c) (Max ?H)" using u(1) by (intro Max_insert) auto
      then show ?thesis using u Some True by (simp add: map_of_add_unit named_snoc max.commute)
    qed
  next
    case False
    then show ?thesis using snoc.IH by (simp add: map_of_add_unit named_snoc split: option.splits)
  qed
qed

lemma health_loop_units: "fst (health_loop rs units nodes) = fold add_unit (concat (map hr_Units rs)) units"
  by (induction rs arbitrary: units nodes) simp_all

lemma health_loop_nodes_other:
  "ip \<notin> (\<lambda>r. IP (hr_Node r)) ` set rs \<Longrightarrow> map_of (snd (health_loop rs units nodes)) ip = map_of nodes ip"
  by (induction rs arbitrary: units nodes) (auto simp: update_conv')

lemma health_loop_nodes:
  assumes "distinct (map (\<lambda>r. IP (hr_Node r)) rs)" and "r \<in> set rs"
  shows "map_of (snd (health_loop rs units nodes)) (IP (hr_Node r)) = Some (set_units (hr_Units r) (hr_Node r))"
  using assms
proof (induction rs arbitrary: units nodes)
  case (Cons x xs)
  show ?case
  proof (cases "r = x")
    case True
    then show ?thesis using Cons.prems by (auto simp: health_loop_nodes_other update_conv')
  next
    case False
    then show ?thesis using Cons by simp
  qed
qed simp

lemma pulled_unit:
  "case map_of (mr_Units (updateHealthStatus now rs mr)) k of
     None \<Rightarrow> named k (concat (map hr_Units rs)) = []
   | Some u \<Rightarrow> named k (concat (map hr_Units rs)) \<noteq> [] \<and> UnitName u = k \<and>
       UnitHealth u = Max (UnitHealth ` set (named k (concat (map hr_Units rs)))) \<and>
       UnitNodes u = concat (map UnitNodes (named k (concat (map hr_Units rs))))"
proof -
  obtain us ns where l: "health_loop rs [] [] = (us, ns)" by fastforce
  have "us = fold add_unit (concat (map hr_Units rs)) []" using health_loop_units [of rs "[]" "[]"] l by simp
  then show ?thesis
    using fold_add_unit [of "[]" k "concat (map hr_Units rs)"] l
    by (simp add: updateHealthStatus_def UpdateMonitoringResponse_def)
qed

section \<open>Properties\<close>

text \<open>
  C30. The tree holds the worst news. After a pull, a unit is in the tree exactly if some node reported it;
  its health is the maximum of the healths reported for it (so it is healthy only if it is healthy on
  every node that reported it), and its nodes are all the nodes that reported it.
\<close>

theorem pulled_unit_health:
  "case map_of (mr_Units (updateHealthStatus now rs mr)) k of
     None \<Rightarrow> named k (concat (map hr_Units rs)) = []
   | Some u \<Rightarrow> named k (concat (map hr_Units rs)) \<noteq> [] \<and> UnitName u = k \<and>
       UnitHealth u = Max (UnitHealth ` set (named k (concat (map hr_Units rs)))) \<and>
       UnitNodes u = concat (map UnitNodes (named k (concat (map hr_Units rs))))"
  by (rule pulled_unit)


definition sample_host :: Node where
  "sample_host = plain_Node True MasterRole ''10.0.0.1''"

definition sample_health :: UnitsHealthResponseJSONStruct where
  "sample_health = \<lparr>ur_Array = [\<lparr>hv_UnitID = ''u.service'', hv_UnitHealth = 1, hv_UnitOutput = ''bad'', hv_UnitTitle = [],
     hv_Help = [], hv_PrettyName = []\<rparr>], ur_Hostname = ''h'', ur_IPAddress = [], ur_DcosVersion = [], ur_Role = [],
     ur_MesosID = [], ur_TdtVersion = []\<rparr>"

definition sample_answers :: "httpResponse list" where
  "sample_answers = [\<lparr>hr_Status = 200, hr_Units = reported_units 1 sample_health sample_host,
       hr_Node = reported_host sample_health sample_host\<rparr>,
     unknown_response 503 (plain_Node False AgentRole ''10.0.0.2'')]"

definition sample_tree :: MonitoringResponse where
  "sample_tree = \<lparr>mr_Units = [], mr_Nodes = [], mr_UpdatedTime = 0\<rparr>"


text \<open>
  A node's health in the tree: a node that cannot be asked or does not answer properly is unknown;
  one that answers is healthy exactly if none of its units is worse than healthy.
\<close>

theorem pulled_node_health:
  assumes "NodeHealth host = Healthy" and "\<forall>p\<in>set (ur_Array b). hv_UnitHealth p \<ge> Healthy"
    and "getPullPortByRole cfg (Role host) = Inr p"
    and "UseTLSScheme https (msg [''http://'', IP host, '':'', itoa p, baseRoute]) (FlagForceTLS cfg) = Inr url"
  shows "(get url = (HealthDoc b, 200, None) \<longrightarrow>
      (NodeHealth (hr_Node (pullHostStatus cfg https get now host)) = Healthy \<longleftrightarrow>
       (\<forall>p\<in>set (ur_Array b). hv_UnitHealth p = Healthy))) \<and>
    (fst (snd (get url)) \<noteq> 200 \<or> snd (snd (get url)) \<noteq> None \<longrightarrow>
      NodeHealth (hr_Node (pullHostStatus cfg https get now host)) = UnknownHealth)"
proof -
  have w: "worse_health ps 0 = 0 \<longleftrightarrow> (\<forall>p\<in>set ps. hv_UnitHealth p = 0)" if "\<forall>p\<in>set ps. hv_UnitHealth p \<ge> 0" for ps
    using that by (induction ps) auto
  have sh: "NodeHealth (set_health h n) = h" for h n by (cases n) simp
  show ?thesis
    using assms w [of "ur_Array b"]
    by (auto simp: pullHostStatus_def unknown_response_def reported_host_def Healthy_def sh split: prod.splits health_body.splits)
qed

definition sample_cfg :: Config where
  "sample_cfg = zero_Config\<lparr>FlagAgentPort := 61001, FlagMasterPort := 1050, FlagForceTLS := False,
     FlagPullTimeoutSec := 3, FlagPullInterval := 60\<rparr>"

theorem pulled_node_health_witness:
  "NodeHealth (hr_Node (pullHostStatus sample_cfg Inr (\<lambda>_. (HealthDoc sample_health, 200, None)) 1 sample_host)) \<noteq> Healthy"
proof -
  let ?url = "msg [''http://'', IP sample_host, '':'', itoa 1050, baseRoute]"
  have 1: "NodeHealth sample_host = Healthy" by (simp add: sample_host_def plain_Node_def)
  have 2: "\<forall>p\<in>set (ur_Array sample_health). hv_UnitHealth p \<ge> Healthy" by (simp add: sample_health_def Healthy_def)
  have 3: "getPullPortByRole sample_cfg (Role sample_host) = Inr 1050"
    by (simp add: getPullPortByRole_def sample_cfg_def sample_host_def plain_Node_def)
  have 4: "UseTLSScheme Inr ?url (FlagForceTLS sample_cfg) = Inr ?url"
    by (simp add: UseTLSScheme_def sample_cfg_def msg_def)
  show ?thesis
    using pulled_node_health [OF 1 2 3 4, of "\<lambda>_. (HealthDoc sample_health, 200, None)" 1]
    by (auto simp: sample_health_def Healthy_def)
qed

text \<open>The limit of a proper configuration is positive.\<close>

lemma pull_limit_pos:
  assumes "FlagPullInterval cfg > 0" and "FlagPullTimeoutSec cfg \<ge> 0"
  obtains n where "pull_limit cfg len = Some (int n)" and "1 \<le> n"
    and "int n = int len * FlagPullTimeoutSec cfg div FlagPullInterval cfg + 1"
proof -
  let ?q = "int len * FlagPullTimeoutSec cfg div FlagPullInterval cfg"
  have "x sdiv y = x div y" if "0 \<le> x" "0 < y" for x y :: int
    using that by (simp add: signed_divide_int_def sgn_if)
  moreover have p: "0 \<le> ?q" using assms by (simp add: pos_imp_zdiv_nonneg_iff)
  ultimately have "pull_limit cfg len = Some (?q + 1)" using assms by (simp add: pull_limit_def Let_def)
  with p show thesis by (intro that [of "nat (?q + 1)"]) auto
qed

end
