(* ===== verification/Providers.thy ===== *)
theory Providers
  imports Config Utf8 Pull Collector
begin

text \<open>
  What a node collects: the providers of \<^verbatim>\<open>api/providers.go\<close>, read from the configuration files and the
  list of systemd units, the collectors made from them for the bundle API, and the tables of the legacy
  job in \<^verbatim>\<open>api/diagnostics.go\<close>, with the list of endpoints a node publishes and the dispatcher that serves
  them. The Go maps are association lists with distinct keys.
\<close>

section \<open>Providers\<close>

record HTTPProvider =
  hp_Port :: int
  hp_URI :: string
  hp_FileName :: string
  hp_Role :: "string list"
  hp_Optional :: bool

record FileProvider =
  fp_Location :: string
  fp_Role :: "string list"
  fp_Optional :: bool

record CommandProvider =
  cp_Command :: "string list"
  cp_Role :: "string list"
  cp_Optional :: bool

record LogProviders =
  HTTPEndpoints :: "HTTPProvider list"
  LocalFiles :: "FileProvider list"
  LocalCommands :: "CommandProvider list"

definition no_providers :: LogProviders where
  "no_providers = \<lparr>HTTPEndpoints = [], LocalFiles = [], LocalCommands = []\<rparr>"

definition append_providers :: "LogProviders \<Rightarrow> LogProviders \<Rightarrow> LogProviders" where
  "append_providers a b =
     \<lparr>HTTPEndpoints = HTTPEndpoints a @ HTTPEndpoints b, LocalFiles = LocalFiles a @ LocalFiles b,
      LocalCommands = LocalCommands a @ LocalCommands b\<rparr>"

text \<open>
  The contents of a configuration file: providers in JSON, or bytes that cannot be parsed. \<open>pe_goos\<close> is
  \<^verbatim>\<open>runtime.GOOS\<close>, \<open>pe_read\<close> is \<^verbatim>\<open>ioutil.ReadFile\<close>, \<open>pe_duration\<close> is \<^verbatim>\<open>time.ParseDuration\<close>, \<open>pe_https\<close> the
  change of a URL's scheme, \<open>pe_isDigit\<close> and \<open>pe_isLetter\<close> the predicates of package \<^verbatim>\<open>unicode\<close>.
\<close>

datatype providers_file = ProvidersDoc LogProviders | BadProviders string

record provider_env =
  pe_goos :: string
  pe_read :: "string \<Rightarrow> providers_file result"
  pe_duration :: "string \<Rightarrow> int result"
  pe_https :: "string \<Rightarrow> string result"
  pe_isDigit :: "rune \<Rightarrow> bool"
  pe_isLetter :: "rune \<Rightarrow> bool"

fun external_loop :: "provider_env \<Rightarrow> string list \<Rightarrow> LogProviders \<Rightarrow> LogProviders result" where
  "external_loop env [] acc = Inr acc"
| "external_loop env (f # fs) acc =
     (case pe_read env f of
        Inl e \<Rightarrow> Inl (msg [''could not read '', f, '': '', e])
      | Inr (BadProviders e) \<Rightarrow> Inl (msg [''could not parse '', f, '': '', e])
      | Inr (ProvidersDoc p) \<Rightarrow> external_loop env fs (append_providers acc p))"

definition loadExternalProviders :: "provider_env \<Rightarrow> string list \<Rightarrow> LogProviders result" where
  "loadExternalProviders env fs = external_loop env fs no_providers"

text \<open>\<open>units\<close> and \<open>role\<close> are the results of \<^verbatim>\<open>GetUnitNames\<close> and \<^verbatim>\<open>GetNodeRole\<close>.\<close>

definition health_provider :: "int \<Rightarrow> HTTPProvider" where
  "health_provider p = \<lparr>hp_Port = p, hp_URI = baseRoute, hp_FileName = ''dcos-diagnostics-health.json'',
     hp_Role = [], hp_Optional = False\<rparr>"

definition unit_provider :: "int \<Rightarrow> string \<Rightarrow> HTTPProvider" where
  "unit_provider p u = \<lparr>hp_Port = p, hp_URI = msg [baseRoute, ''/logs/units/'', u], hp_FileName = u,
     hp_Role = [], hp_Optional = False\<rparr>"

definition loadInternalProviders :: "Config \<Rightarrow> string list result \<Rightarrow> string result \<Rightarrow> LogProviders result" where
  "loadInternalProviders cfg units role =
     (case units of
        Inl e \<Rightarrow> Inl e
      | Inr us \<Rightarrow>
          (case role of
             Inl e \<Rightarrow> Inl e
           | Inr r \<Rightarrow>
               (case getPullPortByRole cfg r of
                  Inl e \<Rightarrow> Inl e
                | Inr p \<Rightarrow>
                    Inr \<lparr>HTTPEndpoints = map (unit_provider p) (us @ SystemdUnits cfg) @ [health_provider p],
                         LocalFiles = [], LocalCommands = []\<rparr>)))"

definition loadProviders :: "provider_env \<Rightarrow> Config \<Rightarrow> string list result \<Rightarrow> string result \<Rightarrow> LogProviders result" where
  "loadProviders env cfg units role =
     (case loadInternalProviders cfg units role of
        Inl e \<Rightarrow> Inl (msg [''could not initialize internal log providers: '', e])
      | Inr internal \<Rightarrow>
          (case loadExternalProviders env (FlagDiagnosticsBundleEndpointsConfigFiles cfg) of
             Inl e \<Rightarrow> Inl (msg [''could not initialize external log providers: '', e])
           | Inr external \<Rightarrow> Inr (append_providers internal external)))"

definition roleMatched :: "string \<Rightarrow> string list \<Rightarrow> bool" where
  "roleMatched myRole roles = (if length roles = 0 then True else IsInList myRole roles)"

definition http_fileName :: "provider_env \<Rightarrow> HTTPProvider \<Rightarrow> string" where
  "http_fileName env p =
     (if hp_FileName p \<noteq> [] then hp_FileName p
      else msg [itoa (hp_Port p), ''-'', sanitize (pe_isDigit env) (pe_isLetter env) (hp_URI p), ''.json''])"

definition cmd_key :: "string list \<Rightarrow> string" where
  "cmd_key c = msg [replace_char slash [] (str_join ''_'' c), ''.output'']"

section \<open>Collectors of a node\<close>

definition loadSystemdCollectors :: "provider_env \<Rightarrow> Config \<Rightarrow> string list result \<Rightarrow> Collector list result" where
  "loadSystemdCollectors env cfg units =
     (if pe_goos env = ''windows'' \<or> pe_goos env = ''darwin'' then Inr []
      else
        (case units of
           Inl e \<Rightarrow> Inl (msg [''could not get unit names: '', e])
         | Inr us \<Rightarrow>
             (case pe_duration env (FlagDiagnosticsBundleUnitsLogsSinceString cfg) of
                Inl e \<Rightarrow> Inl (msg [''error parsing '', [CHR 0x27], FlagDiagnosticsBundleUnitsLogsSinceString cfg, [CHR 0x27], '': '', e])
              | Inr d \<Rightarrow> Inr (map (\<lambda>u. Systemd u False u d) (us @ SystemdUnits cfg)))))"

fun endpoint_collectors :: "provider_env \<Rightarrow> Config \<Rightarrow> string \<Rightarrow> HTTPProvider list \<Rightarrow> Collector list result" where
  "endpoint_collectors env cfg role [] = Inr []"
| "endpoint_collectors env cfg role (p # ps) =
     (if \<not> roleMatched role (hp_Role p) then endpoint_collectors env cfg role ps
      else
        (case UseTLSScheme (pe_https env) (msg [''http://'', FlagHostname cfg, '':'', itoa (hp_Port p), hp_URI p]) (FlagForceTLS cfg) of
           Inl e \<Rightarrow> Inl (msg [''could not initialize internal log providers: '', e])
         | Inr url \<Rightarrow>
             (case endpoint_collectors env cfg role ps of
                Inl e \<Rightarrow> Inl e
              | Inr cs \<Rightarrow> Inr (Endpoint (http_fileName env p) (hp_Optional p) url # cs))))"

definition file_collectors :: "string \<Rightarrow> FileProvider list \<Rightarrow> Collector list" where
  "file_collectors role ps =
     map (\<lambda>p. FileCollector (trim_left slash (fp_Location p)) (fp_Optional p) (fp_Location p))
       (filter (\<lambda>p. roleMatched role (fp_Role p)) ps)"

definition cmd_collectors :: "string \<Rightarrow> CommandProvider list \<Rightarrow> Collector list" where
  "cmd_collectors role ps =
     map (\<lambda>p. Cmd (cmd_key (cp_Command p)) (cp_Optional p) (cp_Command p)) (filter (\<lambda>p. roleMatched role (cp_Role p)) ps)"

definition LoadCollectors :: "provider_env \<Rightarrow> Config \<Rightarrow> string list result \<Rightarrow> string result \<Rightarrow> Collector list result" where
  "LoadCollectors env cfg units role =
     (case loadSystemdCollectors env cfg units of
        Inl e \<Rightarrow> Inl (msg [''could load systemd collectors: '', e])
      | Inr systemd \<Rightarrow>
          (case loadExternalProviders env (FlagDiagnosticsBundleEndpointsConfigFiles cfg) of
             Inl e \<Rightarrow> Inl (msg [''could not initialize external log providers: '', e])
           | Inr ps \<Rightarrow>
               (case role of
                  Inl e \<Rightarrow> Inl (msg [''could not get role: '', e])
                | Inr r \<Rightarrow>
                    (case getPullPortByRole cfg r of
                       Inl e \<Rightarrow> Inl e
                     | Inr p \<Rightarrow>
                         (case endpoint_collectors env cfg r (HTTPEndpoints ps @ [health_provider p]) of
                            Inl e \<Rightarrow> Inl e
                          | Inr eps \<Rightarrow>
                              Inr (systemd @ eps @ file_collectors r (LocalFiles ps) @ cmd_collectors r (LocalCommands ps)))))))"

section \<open>Tables of the legacy job\<close>

record logProviders =
  lp_HTTPEndpoints :: "(string \<times> HTTPProvider) list"
  lp_LocalFiles :: "(string \<times> FileProvider) list"
  lp_LocalCommands :: "(string \<times> CommandProvider) list"

definition file_key :: "string \<Rightarrow> string" where
  "file_key loc = replace_char slash ''_'' (trim_left slash loc)"

definition init_tables :: "provider_env \<Rightarrow> LogProviders \<Rightarrow> logProviders" where
  "init_tables env ps =
     \<lparr>lp_HTTPEndpoints = fold (\<lambda>p. AList.update (http_fileName env p) p) (HTTPEndpoints ps) [],
      lp_LocalFiles = fold (\<lambda>p. AList.update (file_key (fp_Location p)) p) (LocalFiles ps) [],
      lp_LocalCommands =
        fold (\<lambda>p. if length (cp_Command p) > 0 then AList.update (cmd_key (cp_Command p)) p else id) (LocalCommands ps) []\<rparr>"

definition Init_providers :: "provider_env \<Rightarrow> Config \<Rightarrow> string list result \<Rightarrow> string result \<Rightarrow> logProviders result" where
  "Init_providers env cfg units role =
     (case loadProviders env cfg units role of
        Inl e \<Rightarrow> Inl (msg [''could not init diagnostic job: '', e])
      | Inr ps \<Rightarrow> Inr (init_tables env ps))"

record endpointSpec =
  PortAndPath :: string
  SpecOptional :: bool

definition http_endpoints :: "string \<Rightarrow> (string \<times> HTTPProvider) list \<Rightarrow> (string \<times> endpointSpec) list \<Rightarrow> (string \<times> endpointSpec) list" where
  "http_endpoints role ps eps =
     fold (\<lambda>(fileName, p). AList.update fileName
         \<lparr>PortAndPath = msg ['':'', itoa (hp_Port p), hp_URI p], SpecOptional = hp_Optional p\<rparr>)
       (filter (\<lambda>(k, p). roleMatched role (hp_Role p)) ps) eps"

definition file_endpoints :: "string \<Rightarrow> int \<Rightarrow> (string \<times> FileProvider) list \<Rightarrow> (string \<times> endpointSpec) list \<Rightarrow> (string \<times> endpointSpec) list" where
  "file_endpoints role p fs eps =
     fold (\<lambda>(k, f). AList.update (fp_Location f)
         \<lparr>PortAndPath = msg ['':'', itoa p, baseRoute, ''/logs/files/'', k], SpecOptional = False\<rparr>)
       (filter (\<lambda>(k, f). roleMatched role (fp_Role f)) fs) eps"

definition cmd_endpoints :: "string \<Rightarrow> int \<Rightarrow> (string \<times> CommandProvider) list \<Rightarrow> (string \<times> endpointSpec) list \<Rightarrow> (string \<times> endpointSpec) list" where
  "cmd_endpoints role p cs eps =
     fold (\<lambda>(k, c). AList.update k
         \<lparr>PortAndPath = msg ['':'', itoa p, baseRoute, ''/logs/cmds/'', k], SpecOptional = False\<rparr>)
       (filter (\<lambda>(k, c). roleMatched role (cp_Role c) \<and> k \<noteq> []) cs) eps"

definition getLogsEndpoints :: "Config \<Rightarrow> logProviders \<Rightarrow> string result \<Rightarrow> (string \<times> endpointSpec) list result" where
  "getLogsEndpoints cfg lp role =
     (case role of
        Inl e \<Rightarrow> Inl (msg [''failed to get a current role for a cfg: '', e])
      | Inr r \<Rightarrow>
          (case getPullPortByRole cfg r of
             Inl e \<Rightarrow> Inl e
           | Inr p \<Rightarrow>
               Inr (cmd_endpoints r p (lp_LocalCommands lp)
                 (file_endpoints r p (lp_LocalFiles lp) (http_endpoints r (lp_HTTPEndpoints lp) [])))))"

text \<open>The dispatcher behind \<^verbatim>\<open>/logs/{provider}/{entity}\<close>: the reader it returns and its error.\<close>

definition dispatch_unit :: "provider_env \<Rightarrow> collect_env \<Rightarrow> Config \<Rightarrow> logProviders \<Rightarrow> string \<Rightarrow> string \<Rightarrow> collected" where
  "dispatch_unit env ce cfg lp role entity =
     (case map_of (lp_HTTPEndpoints lp) entity of
        None \<Rightarrow> Collected None (Some (msg [''Not found '', entity]))
      | Some p \<Rightarrow>
          if \<not> roleMatched role (hp_Role p) then Collected None (Some ''Only DC/OS systemd units are available'')
          else
            (case pe_duration env (FlagDiagnosticsBundleUnitsLogsSinceString cfg) of
               Inl e \<Rightarrow> Collected None (Some (msg [''error parsing '', [CHR 0x27], FlagDiagnosticsBundleUnitsLogsSinceString cfg, [CHR 0x27], '': '', e]))
             | Inr d \<Rightarrow>
                 (case ce_journal ce (ReadJournalOutputSince entity d) of
                    Inl e \<Rightarrow> Collected None (Some e)
                  | Inr rc \<Rightarrow> Collected (Some rc) None)))"

definition read_plain :: "(string option \<times> stream \<times> string option) list \<Rightarrow> stream" where
  "read_plain rs = plain_read_all (map (\<lambda>(before, inner, after). inner) rs)"

definition dispatch_file :: "collect_env \<Rightarrow> logProviders \<Rightarrow> string \<Rightarrow> string \<Rightarrow> collected" where
  "dispatch_file ce lp role entity =
     (case map_of (lp_LocalFiles lp) entity of
        None \<Rightarrow> Collected None (Some (msg [''Not found '', entity]))
      | Some p \<Rightarrow>
          if \<not> roleMatched role (fp_Role p) then Collected None (Some ''Not allowed to read a file'')
          else
            (case ce_open ce (fp_Location p) of
               Inl e \<Rightarrow> if fp_Optional p then Collected (Some (stream_of e)) None else Collected None (Some e)
             | Inr rs \<Rightarrow> Collected (Some (read_plain rs)) None))"

definition dispatch_cmd :: "collect_env \<Rightarrow> logProviders \<Rightarrow> string \<Rightarrow> string \<Rightarrow> collected" where
  "dispatch_cmd ce lp role entity =
     (case map_of (lp_LocalCommands lp) entity of
        None \<Rightarrow> Collected None (Some (msg [''Not found '', entity]))
      | Some p \<Rightarrow>
          if \<not> roleMatched role (cp_Role p) then Collected None (Some ''Not allowed to execute a command'')
          else
            (case cp_Command p of
               [] \<Rightarrow> CollectPanic ''index out of range''
             | prog # args \<Rightarrow>
                 (case ce_command ce prog args of
                    (out, Some e) \<Rightarrow>
                      if cp_Optional p then Collected (Some (stream_of (e @ [CHR 0x0A] @ out))) None
                      else Collected (Some (stream_of out)) (Some e)
                  | (out, None) \<Rightarrow> Collected (Some (stream_of out)) None)))"

definition dispatchLogs :: "provider_env \<Rightarrow> collect_env \<Rightarrow> Config \<Rightarrow> logProviders \<Rightarrow> string result \<Rightarrow> string \<Rightarrow> string \<Rightarrow> collected" where
  "dispatchLogs env ce cfg lp role provider entity =
     (case role of
        Inl e \<Rightarrow> Collected None (Some (msg [''could not get a node role: '', e]))
      | Inr r \<Rightarrow>
          if provider = ''units'' then dispatch_unit env ce cfg lp r entity
          else if provider = ''files'' then dispatch_file ce lp r entity
          else if provider = ''cmds'' then dispatch_cmd ce lp r entity
          else Collected None (Some (msg [''Unknown provider '', provider])))"

section \<open>Tables\<close>

text \<open>A table filled from a list of entries holds only entries of the list, and every key of the list.\<close>

lemma map_of_fold_update:
  "map_of (fold (\<lambda>p. AList.update (key p) (val p)) ps m) k = Some v \<Longrightarrow>
     (\<exists>p\<in>set ps. key p = k \<and> val p = v) \<or> map_of m k = Some v"
proof (induction ps arbitrary: m)
  case (Cons p ps)
  then have "map_of (fold (\<lambda>p. AList.update (key p) (val p)) ps (AList.update (key p) (val p) m)) k = Some v" by simp
  from Cons.IH [OF this] show ?case by (auto simp: update_conv' split: if_splits)
qed simp

lemma fold_update_keeps:
  "map_of m k \<noteq> None \<Longrightarrow> map_of (fold (\<lambda>p. AList.update (key p) (val p)) ps m) k \<noteq> None"
  by (induction ps arbitrary: m) (auto simp: update_conv')

lemma fold_update_dom:
  "p \<in> set ps \<Longrightarrow> map_of (fold (\<lambda>p. AList.update (key p) (val p)) ps m) (key p) \<noteq> None"
proof (induction ps arbitrary: m)
  case (Cons q ps)
  then show ?case
    using fold_update_keeps [of "AList.update (key q) (val q) m" "key q" key val ps]
    by (cases "p = q") (auto simp: update_conv')
qed simp

lemma distinct_fold_update:
  "distinct (map fst m) \<Longrightarrow> distinct (map fst (fold (\<lambda>p. AList.update (key p) (val p)) ps m))"
  by (induction ps arbitrary: m) (simp_all add: distinct_update)

text \<open>The three tables in this form; the commands without words are left out.\<close>

lemma init_cmds_eq:
  "lp_LocalCommands (init_tables env ps) =
     fold (\<lambda>p. AList.update (cmd_key (cp_Command p)) p) (filter (\<lambda>p. cp_Command p \<noteq> []) (LocalCommands ps)) []"
proof -
  have "fold (\<lambda>p. if length (cp_Command p) > 0 then AList.update (cmd_key (cp_Command p)) p else id) cs m =
      fold (\<lambda>p. AList.update (cmd_key (cp_Command p)) p) (filter (\<lambda>p. cp_Command p \<noteq> []) cs) m" for cs m
    by (induction cs arbitrary: m) simp_all
  then show ?thesis by (simp add: init_tables_def)
qed

lemma init_tables_distinct:
  "distinct (map fst (lp_HTTPEndpoints (init_tables env ps)))"
  "distinct (map fst (lp_LocalFiles (init_tables env ps)))"
  "distinct (map fst (lp_LocalCommands (init_tables env ps)))"
  by (simp_all add: init_cmds_eq distinct_fold_update) (simp_all add: init_tables_def distinct_fold_update)

lemma init_cmds_words: "map_of (lp_LocalCommands (init_tables env ps)) k = Some c \<Longrightarrow> cp_Command c \<noteq> []"
  using map_of_fold_update [where key = "\<lambda>p. cmd_key (cp_Command p)" and val = "\<lambda>p. p" and m = "[]"]
  by (fastforce simp: init_cmds_eq)

lemma Init_tables: "Init_providers env cfg units role = Inr lp \<Longrightarrow> \<exists>ps. lp = init_tables env ps"
  by (auto simp: Init_providers_def split: sum.splits)

lemma pairs_fold_update:
  "fold (\<lambda>(k, p). AList.update (key k p) (val k p)) ps m = fold (\<lambda>x. AList.update (key (fst x) (snd x)) (val (fst x) (snd x))) ps m"
  by (simp add: case_prod_unfold)

text \<open>Where an endpoint of the list comes from.\<close>

lemma listed_cases:
  assumes "map_of (cmd_endpoints r p cs (file_endpoints r p fs (http_endpoints r hs []))) n = Some spec"
  obtains (http) h where "(n, h) \<in> set hs" and "roleMatched r (hp_Role h)"
      and "spec = \<lparr>PortAndPath = msg ['':'', itoa (hp_Port h), hp_URI h], SpecOptional = hp_Optional h\<rparr>"
    | (plain) k fl where "(k, fl) \<in> set fs" and "fp_Location fl = n" and "roleMatched r (fp_Role fl)"
      and "PortAndPath spec = msg ['':'', itoa p, baseRoute, ''/logs/files/'', k]"
    | (cmd) c where "(n, c) \<in> set cs" and "roleMatched r (cp_Role c)"
      and "PortAndPath spec = msg ['':'', itoa p, baseRoute, ''/logs/cmds/'', n]"
proof -
  from assms show ?thesis
    unfolding cmd_endpoints_def file_endpoints_def http_endpoints_def pairs_fold_update
    by (auto dest!: map_of_fold_update intro: that)
qed

lemma dispatch_no_panic: "dispatchLogs env ce cfg (init_tables env ps) role provider entity \<noteq> CollectPanic e"
proof -
  have "dispatch_unit env ce cfg lp r entity \<noteq> CollectPanic e" "dispatch_file ce lp r entity \<noteq> CollectPanic e" for lp r
    by (simp_all add: dispatch_unit_def dispatch_file_def split: option.splits sum.splits)
  moreover have "dispatch_cmd ce (init_tables env ps) r entity \<noteq> CollectPanic e" for r
    using init_cmds_words [of env ps entity] by (auto simp: dispatch_cmd_def split: option.splits list.splits prod.splits)
  ultimately show ?thesis by (simp add: dispatchLogs_def split: sum.splits)
qed

lemma endpoint_collectors_from:
  "endpoint_collectors env cfg r ps = Inr cs \<Longrightarrow> c \<in> set cs \<Longrightarrow>
     \<exists>p\<in>set ps. roleMatched r (hp_Role p) \<and> (\<exists>url. c = Endpoint (http_fileName env p) (hp_Optional p) url)"
  by (induction ps arbitrary: cs) (fastforce split: if_splits sum.splits)+

lemma endpoint_collectors_all:
  "endpoint_collectors env cfg r ps = Inr cs \<Longrightarrow> p \<in> set ps \<Longrightarrow> roleMatched r (hp_Role p) \<Longrightarrow>
     \<exists>url. Endpoint (http_fileName env p) (hp_Optional p) url \<in> set cs"
  by (induction ps arbitrary: cs) (fastforce split: if_splits sum.splits)+

lemma roleMatched_Nil [simp]: "roleMatched r []"
  by (simp add: roleMatched_def)

section \<open>Properties\<close>


definition sample_providers :: provider_env where
  "sample_providers = \<lparr>pe_goos = ''linux'',
     pe_read = (\<lambda>_. Inr (ProvidersDoc (no_providers\<lparr>
       LocalFiles := [\<lparr>fp_Location = ''/etc/os-release'', fp_Role = [], fp_Optional = True\<rparr>],
       LocalCommands := [\<lparr>cp_Command = [], cp_Role = [''master''], cp_Optional = False\<rparr>]\<rparr>))),
     pe_duration = (\<lambda>_. Inr 3600), pe_https = Inr, pe_isDigit = (\<lambda>_. False), pe_isLetter = (\<lambda>_. False)\<rparr>"

definition sample_provider_cfg :: Config where
  "sample_provider_cfg = sample_cfg\<lparr>FlagDiagnosticsBundleEndpointsConfigFiles := [''/endpoints.json''], FlagHostname := ''127.0.0.1''\<rparr>"




end
