(* ===== verification/Diagnostics_Job.thy ===== *)
theory Diagnostics_Job
  imports Fetcher Providers Bundle_Contract
begin

text \<open>
  The legacy diagnostics job, \<^verbatim>\<open>api/diagnostics.go\<close>: starting, running, cancelling and deleting. What the
  tools return (role, nodes, addresses, HTTP answers) comes as arguments; the job's own fields are a record.
  The job's cancel function sets \<open>dj_cancelled\<close>. The progress in percent and the disk usage, which are
  floating-point numbers that nothing else depends on, are left out, and so are the locks: every operation
  on the fields is one step.
\<close>

section \<open>Requests and responses\<close>

definition APIVer :: int where "APIVer = 1"

record diagnosticsReportResponse =
  rr_ResponseCode :: int
  rr_Version :: int
  rr_Status :: string
  rr_Errors :: "string list"

record createResponse = diagnosticsReportResponse +
  cr_LastBundleFile :: string

definition prepareResponseWithErr :: "int \<Rightarrow> string option \<Rightarrow> diagnosticsReportResponse \<times> string option" where
  "prepareResponseWithErr code e =
     (\<lparr>rr_ResponseCode = code, rr_Version = APIVer, rr_Status = (case e of Some x \<Rightarrow> x | None \<Rightarrow> []), rr_Errors = []\<rparr>, e)"

definition prepareResponseOk :: "int \<Rightarrow> string \<Rightarrow> diagnosticsReportResponse" where
  "prepareResponseOk code okMsg = (fst (prepareResponseWithErr code None))\<lparr>rr_Status := okMsg\<rparr>"

definition prepareCreateResponseWithErr :: "int \<Rightarrow> string option \<Rightarrow> createResponse \<times> string option" where
  "prepareCreateResponseWithErr code e =
     (\<lparr>rr_ResponseCode = code, rr_Version = APIVer, rr_Status = (case e of Some x \<Rightarrow> x | None \<Rightarrow> []), rr_Errors = [],
       cr_LastBundleFile = []\<rparr>, e)"

record bundleReportStatus =
  bs_Running :: bool
  bs_Status :: string
  bs_Errors :: "string list"
  bs_LastBundlePath :: string
  bs_JobStarted :: string
  bs_JobEnded :: string
  bs_JobDuration :: string
  bs_BaseDir :: string
  bs_JobTimeoutMin :: int
  bs_UnitsLogsSince :: string
  bs_GetSingleURLTimeout :: int
  bs_CommandExecTimeoutSec :: int

record bundle_file =
  bf_File :: string
  bf_Size :: int

section \<open>The job\<close>

record DiagnosticsJob =
  dj_Cfg :: Config
  dj_Running :: bool
  dj_Status :: string
  dj_Errors :: "string list"
  dj_LastBundlePath :: string
  dj_JobStarted :: time
  dj_JobEnded :: time
  dj_cancelled :: bool

text \<open>
  \<open>je_get\<close> and \<open>je_post\<close> are \<^verbatim>\<open>Tools.Get\<close> and \<^verbatim>\<open>Tools.Post\<close>: body, status code and error; \<open>je_status\<close>, \<open>je_list\<close>,
  \<open>je_endpoints\<close> and \<open>je_response\<close> are \<^verbatim>\<open>json.Unmarshal\<close> into the types of the answers; \<open>je_date\<close>, \<open>je_unix\<close>,
  \<open>je_time\<close> and \<open>je_since\<close> format an instant as date, seconds and text, and the time between two instants.
\<close>

record job_env =
  je_get :: "string \<Rightarrow> string \<times> int \<times> string option"
  je_post :: "string \<Rightarrow> string \<times> int \<times> string option"
  je_status :: "string \<Rightarrow> bundleReportStatus result"
  je_list :: "string \<Rightarrow> bundle_file list result"
  je_endpoints :: "string \<Rightarrow> (string \<times> endpointSpec) list result"
  je_response :: "string \<Rightarrow> diagnosticsReportResponse result"
  je_date :: "time \<Rightarrow> string"
  je_unix :: "time \<Rightarrow> int"
  je_time :: "time \<Rightarrow> string"
  je_since :: "time \<Rightarrow> time \<Rightarrow> string"
  je_https :: "string \<Rightarrow> string result"

definition setStatus :: "string \<Rightarrow> DiagnosticsJob \<Rightarrow> DiagnosticsJob" where
  "setStatus st j = j\<lparr>dj_Status := st\<rparr>"

definition appendError :: "string \<Rightarrow> DiagnosticsJob \<Rightarrow> DiagnosticsJob" where
  "appendError e j = j\<lparr>dj_Errors := dj_Errors j @ [e]\<rparr>"

definition job_stop :: "DiagnosticsJob \<Rightarrow> world \<Rightarrow> DiagnosticsJob \<times> world" where
  "job_stop j w = (case sys_now w of (now, w1) \<Rightarrow> (j\<lparr>dj_Running := False, dj_JobEnded := now\<rparr>, w1))"

definition getBundleReportStatus :: "job_env \<Rightarrow> DiagnosticsJob \<Rightarrow> bundleReportStatus" where
  "getBundleReportStatus env j =
     \<lparr>bs_Running = dj_Running j, bs_Status = dj_Status j, bs_Errors = dj_Errors j, bs_LastBundlePath = dj_LastBundlePath j,
      bs_JobStarted = je_time env (dj_JobStarted j),
      bs_JobEnded = (if dj_Running j then [] else je_time env (dj_JobEnded j)),
      bs_JobDuration = (if dj_Running j then [] else je_since env (dj_JobStarted j) (dj_JobEnded j)),
      bs_BaseDir = FlagDiagnosticsBundleDir (dj_Cfg j), bs_JobTimeoutMin = FlagDiagnosticsJobTimeoutMinutes (dj_Cfg j),
      bs_UnitsLogsSince = FlagDiagnosticsBundleUnitsLogsSinceString (dj_Cfg j),
      bs_GetSingleURLTimeout = FlagDiagnosticsJobGetSingleURLTimeoutMinutes (dj_Cfg j),
      bs_CommandExecTimeoutSec = FlagCommandExecTimeoutSec (dj_Cfg j)\<rparr>"

section \<open>Is a job running in the cluster?\<close>

definition master_url :: "DiagnosticsJob \<Rightarrow> string \<Rightarrow> string \<Rightarrow> string" where
  "master_url j ip path = msg [''http://'', ip, '':'', itoa (FlagMasterPort (dj_Cfg j)), baseRoute, path]"

definition master_status :: "job_env \<Rightarrow> DiagnosticsJob \<Rightarrow> string \<Rightarrow> bundleReportStatus result" where
  "master_status env j ip =
     (let url = master_url j ip ''/report/diagnostics/status'' in
      case je_get env url of
        (body, code, err) \<Rightarrow>
          if code \<noteq> 200 then Inl (msg [''could not get data from '', url, '' got '', itoa code, '' status''])
          else
            (case err of
               Some e \<Rightarrow> Inl (msg [''could not get data from '', url, '': '', e])
             | None \<Rightarrow>
                 (case je_status env body of
                    Inl e \<Rightarrow> Inl (msg [''could not determine job status for master '', ip, '': '', e])
                  | Inr st \<Rightarrow> Inr st)))"

fun status_loop ::
  "job_env \<Rightarrow> DiagnosticsJob \<Rightarrow> string \<Rightarrow> Node list \<Rightarrow> (string \<times> bundleReportStatus) list \<Rightarrow> string list \<Rightarrow>
     (string \<times> bundleReportStatus) list \<times> string list" where
  "status_loop env j localIP [] statuses errs = (statuses, errs)"
| "status_loop env j localIP (n # ns) statuses errs =
     (if IP n = localIP then status_loop env j localIP ns statuses errs
      else
        (case master_status env j (IP n) of
           Inl e \<Rightarrow> status_loop env j localIP ns statuses (errs @ [e])
         | Inr st \<Rightarrow> status_loop env j localIP ns (AList.update (IP n) st statuses) errs))"

definition getStatusAll ::
  "job_env \<Rightarrow> Node list result \<Rightarrow> string result \<Rightarrow> DiagnosticsJob \<Rightarrow> (string \<times> bundleReportStatus) list result" where
  "getStatusAll env masters ip j =
     (case masters of
        Inl e \<Rightarrow> Inl e
      | Inr ns \<Rightarrow>
          if length ns = 0 then Inl ''could not find any master''
          else
            (let localIP = (case ip of Inl e \<Rightarrow> [] | Inr a \<Rightarrow> a);
                 start = (case ip of Inl e \<Rightarrow> [] | Inr a \<Rightarrow> [(a, getBundleReportStatus env j)])
             in case status_loop env j localIP ns start [] of
                  (statuses, errs) \<Rightarrow>
                    if length statuses = 0 \<or> length errs \<noteq> 0 then
                      Inl (msg [''could not determine whether the diagnostics job is running or not: ['', str_join '' '' errs, '']''])
                    else Inr statuses))"

fun find_running :: "(string \<times> bundleReportStatus) list \<Rightarrow> bool \<times> string" where
  "find_running [] = (False, [])"
| "find_running ((n, st) # sts) = (if bs_Running st then (True, n) else find_running sts)"

definition isRunning :: "job_env \<Rightarrow> Node list result \<Rightarrow> string result \<Rightarrow> DiagnosticsJob \<Rightarrow> (bool \<times> string) result" where
  "isRunning env masters ip j =
     (if dj_Running j then Inr (True, [])
      else (case getStatusAll env masters ip j of Inl e \<Rightarrow> Inl e | Inr sts \<Rightarrow> Inr (find_running sts)))"

section \<open>Requested nodes\<close>

definition match_one :: "string \<Rightarrow> Node list \<Rightarrow> Node list \<Rightarrow> Node list" where
  "match_one req masters agents =
     (if req = ''masters'' then masters else []) @ (if req = ''agents'' then agents else []) @
     filter (\<lambda>n. req = IP n \<or> req = MesosID n \<or> req = Host n) (masters @ agents)"

fun match_loop :: "string list \<Rightarrow> Node list \<Rightarrow> Node list \<Rightarrow> Node list \<Rightarrow> Node list" where
  "match_loop [] masters agents matched = matched"
| "match_loop (r # rs) masters agents matched =
     (if r = [] then match_loop rs masters agents matched
      else if r = ''all'' then masters @ agents
      else match_loop rs masters agents (matched @ match_one r masters agents))"

definition matchRequestedNodes :: "string list \<Rightarrow> Node list \<Rightarrow> Node list \<Rightarrow> Node list result" where
  "matchRequestedNodes req masters agents =
     (if length req = 0 then Inl ''no nodes were requested''
      else if length (masters @ agents) = 0 then Inl (msg [''can'', [CHR 0x27], ''t find any nodes''])
      else
        (let matched = match_loop req masters agents [] in
         if length matched > 0 then Inr matched
         else Inl (msg [''requested nodes: ['', str_join '' '' req, ''] not found''])))"

definition findRequestedNodes :: "string list \<Rightarrow> Node list result \<Rightarrow> Node list result \<Rightarrow> Node list result" where
  "findRequestedNodes req masters agents =
     (case masters of
        Inl e \<Rightarrow> Inl (msg [''could not get master nodes: '', e])
      | Inr ms \<Rightarrow>
          (case agents of
             Inl e \<Rightarrow> Inl (msg [''could not get agent nodes: '', e])
           | Inr as \<Rightarrow> matchRequestedNodes req ms as))"

section \<open>Starting\<close>

text \<open>
  \<^verbatim>\<open>run\<close>: the arguments are the node's role, the masters and the address found for the check that no job runs, and
  the masters and agents found for the request. The last component of the result are the nodes of the
  background job it has started.
\<close>

definition bundle_name :: "job_env \<Rightarrow> time \<Rightarrow> string" where
  "bundle_name env t = msg [''bundle-'', je_date env t, ''-'', itoa (je_unix env t), ''.zip'']"

type_synonym run_result = "(createResponse \<times> string option) \<times> DiagnosticsJob \<times> world \<times> Node list option"

definition refuse :: "int \<Rightarrow> string \<Rightarrow> DiagnosticsJob \<Rightarrow> world \<Rightarrow> run_result" where
  "refuse code e j w = (prepareCreateResponseWithErr code (Some e), j, w, None)"

definition start_job :: "job_env \<Rightarrow> Node list \<Rightarrow> DiagnosticsJob \<Rightarrow> world \<Rightarrow> run_result" where
  "start_job env foundNodes j w =
     (case sys_now w of (t, w1) \<Rightarrow>
      case sys_now w1 of (started, w2) \<Rightarrow>
        let bundleName = bundle_name env t;
            path = join [FlagDiagnosticsBundleDir (dj_Cfg j), bundleName];
            j1 = setStatus (msg [''Diagnostics job started, archive will be available at: '', path])
                   (j\<lparr>dj_Errors := [], dj_LastBundlePath := path\<rparr>)
        in ((\<lparr>rr_ResponseCode = StatusOK, rr_Version = APIVer, rr_Status = ''Job has been successfully started'',
              rr_Errors = [], cr_LastBundleFile = bundleName\<rparr>, None),
            j1\<lparr>dj_cancelled := False, dj_JobStarted := started, dj_JobEnded := 0, dj_Running := True\<rparr>, w2, Some foundNodes))"

definition dj_run ::
  "job_env \<Rightarrow> string result \<Rightarrow> Node list result \<Rightarrow> string result \<Rightarrow> Node list result \<Rightarrow> Node list result \<Rightarrow>
     string list \<Rightarrow> DiagnosticsJob \<Rightarrow> world \<Rightarrow> run_result" where
  "dj_run env role statusMasters ip masters agents reqNodes j w =
     (case role of
        Inl e \<Rightarrow> refuse StatusServiceUnavailable e j w
      | Inr r \<Rightarrow>
          if r = AgentRole \<or> r = AgentPublicRole then
            refuse StatusBadRequest ''running diagnostics job on agent node is not implemented'' j w
          else
            (case isRunning env statusMasters ip j of
               Inl e \<Rightarrow> refuse StatusServiceUnavailable e j w
             | Inr (True, node) \<Rightarrow> refuse StatusConflict ''Job is already running'' j w
             | Inr (False, node) \<Rightarrow>
                 (case findRequestedNodes reqNodes masters agents of
                    Inl e \<Rightarrow> refuse StatusServiceUnavailable e j w
                  | Inr foundNodes \<Rightarrow>
                      (case sys_stat (FlagDiagnosticsBundleDir (dj_Cfg j)) w of
                         (StatNotExist, w1) \<Rightarrow>
                           (case sys_mkdir_all (FlagDiagnosticsBundleDir (dj_Cfg j)) w1 of
                              (Some e, w2) \<Rightarrow>
                                (let e1 = msg [''could not create directory: '', FlagDiagnosticsBundleDir (dj_Cfg j)]
                                 in refuse StatusServiceUnavailable e1 (setStatus e1 j) w2)
                            | (None, w2) \<Rightarrow> start_job env foundNodes j w2)
                       | (st, w1) \<Rightarrow> start_job env foundNodes j w1))))"

section \<open>The background job\<close>

text \<open>The state the background job works on: the job, its two report buffers and the world.\<close>

record background =
  bg_job :: DiagnosticsJob
  bg_report :: string
  bg_errors :: string
  bg_world :: world

definition report_line :: "job_env \<Rightarrow> time \<Rightarrow> string \<Rightarrow> string \<Rightarrow> string" where
  "report_line env now pre err = msg [je_time env now, '' ['', pre, ''] '', err, '' '', [CHR 0x0A]]"

definition update_report :: "job_env \<Rightarrow> string \<Rightarrow> string \<Rightarrow> background \<Rightarrow> background" where
  "update_report env pre err b =
     (case sys_now (bg_world b) of
        (now, w1) \<Rightarrow> b\<lparr>bg_report := bg_report b @ report_line env now pre err, bg_world := w1\<rparr>)"

definition logError :: "job_env \<Rightarrow> string \<Rightarrow> string \<Rightarrow> background \<Rightarrow> background" where
  "logError env e m b =
     (case sys_now (bg_world b) of
        (now, w1) \<Rightarrow> b\<lparr>bg_job := appendError e (bg_job b), bg_errors := bg_errors b @ report_line env now m e, bg_world := w1\<rparr>)"

definition getNodeEndpoints :: "job_env \<Rightarrow> Config \<Rightarrow> Node \<Rightarrow> (string \<times> endpointSpec) list result" where
  "getNodeEndpoints env cfg n =
     (case getPullPortByRole cfg (Role n) of
        Inl e \<Rightarrow> Inl (msg [''used incorrect role: '', e])
      | Inr p \<Rightarrow>
          (let url = msg [''http://'', IP n, '':'', itoa p, baseRoute, ''/logs''] in
           case je_get env url of
             (body, code, Some e) \<Rightarrow>
               Inl (msg [''could not get a list of logs, url: '', url, '', status code '', itoa code, '': '', e])
           | (body, code, None) \<Rightarrow>
               (case je_endpoints env body of
                  Inl e \<Rightarrow> Inl (msg [''could not unmarshal a list of logs from '', url, '': '', e])
                | Inr eps \<Rightarrow> if length eps = 0 then Inl (msg [''no endpoints found, url '', url]) else Inr eps)))"

text \<open>The requests of one node: \<open>stop k\<close> says whether the context is done at the \<open>k\<close>-th look; \<open>None\<close> in the
  first component means that the whole function returns.\<close>

fun node_requests ::
  "job_env \<Rightarrow> Config \<Rightarrow> (nat \<Rightarrow> bool) \<Rightarrow> Node \<Rightarrow> (string \<times> endpointSpec) list \<Rightarrow> nat \<Rightarrow> EndpointRequest list \<Rightarrow> background \<Rightarrow>
     nat option \<times> EndpointRequest list \<times> background" where
  "node_requests env cfg stop n [] k reqs b = (Some k, reqs, b)"
| "node_requests env cfg stop n ((fileName, ep) # eps) k reqs b =
     (if stop k then (None, reqs, b)
      else
        (case UseTLSScheme (je_https env) (msg [''http://'', IP n, PortAndPath ep]) (FlagForceTLS cfg) of
           Inl e \<Rightarrow>
             node_requests env cfg stop n eps (Suc k) reqs (logError env (msg [''could prepare URL: '', e]) (IP n) b)
         | Inr url \<Rightarrow>
             node_requests env cfg stop n eps (Suc k)
               (reqs @ [\<lparr>er_URL = url, er_Node = n, er_FileName = fileName, er_Optional = SpecOptional ep\<rparr>]) b))"

fun requests_loop ::
  "job_env \<Rightarrow> Config \<Rightarrow> (nat \<Rightarrow> bool) \<Rightarrow> Node list \<Rightarrow> nat \<Rightarrow> EndpointRequest list \<Rightarrow> background \<Rightarrow>
     bool \<times> EndpointRequest list \<times> background" where
  "requests_loop env cfg stop [] k reqs b = (False, reqs, b)"
| "requests_loop env cfg stop (n # ns) k reqs b =
     (let b1 = update_report env (msg [''START collecting logs '', IP n]) [] b in
      case getNodeEndpoints env cfg n of
        Inl e \<Rightarrow> requests_loop env cfg stop ns k reqs (logError env e (IP n) b1)
      | Inr eps \<Rightarrow>
          (case node_requests env cfg stop n eps k reqs b1 of
             (None, reqs1, b2) \<Rightarrow> (True, reqs1, b2)
           | (Some k1, reqs1, b2) \<Rightarrow> requests_loop env cfg stop ns k1 reqs1 b2))"

definition getEndpointsToFetch ::
  "job_env \<Rightarrow> Config \<Rightarrow> (nat \<Rightarrow> bool) \<Rightarrow> (EndpointRequest list \<Rightarrow> EndpointRequest list) \<Rightarrow> Node list \<Rightarrow> background \<Rightarrow>
     EndpointRequest list \<times> background" where
  "getEndpointsToFetch env cfg stop shuffle nodes b =
     (case requests_loop env cfg stop nodes 0 [] b of
        (returned, reqs, b1) \<Rightarrow> (if returned then reqs else shuffle reqs, b1))"

definition on_update :: "job_env \<Rightarrow> StatusUpdate \<Rightarrow> background \<Rightarrow> background" where
  "on_update env u b =
     (let b1 = update_report env (msg [''GET '', su_URL u]) (case su_Error u of None \<Rightarrow> ''<nil>'' | Some e \<Rightarrow> e) b;
          b2 = b1\<lparr>bg_job := setStatus (msg [''GET '', su_URL u]) (bg_job b1)\<rparr>
      in case su_Error u of None \<Rightarrow> b2 | Some e \<Rightarrow> logError env e (su_URL u) b2)"

definition waitForStatusUpdates :: "job_env \<Rightarrow> StatusUpdate list \<Rightarrow> background \<Rightarrow> background" where
  "waitForStatusUpdates env us b = fold (on_update env) us b"

definition gatherAllResults :: "BulkResponse list \<Rightarrow> string list \<times> string list" where
  "gatherAllResults rs =
     (map br_ZipFilePath rs, concat (map (\<lambda>r. case br_Error r of None \<Rightarrow> [] | Some e \<Rightarrow> [e]) rs))"

text \<open>
  What the fetchers came to: one could not be made, or the updates and results that were received and the
  context's error at the end. \<open>fetch\<close> maps the requests and the world to it.
\<close>

datatype fetch_outcome = NoFetchers string | Fetched "StatusUpdate list" "BulkResponse list" "string option"

type_synonym fetchers = "EndpointRequest list \<Rightarrow> world \<Rightarrow> fetch_outcome \<times> world"

definition collectDataFromNodes ::
  "job_env \<Rightarrow> Config \<Rightarrow> (nat \<Rightarrow> bool) \<Rightarrow> (EndpointRequest list \<Rightarrow> EndpointRequest list) \<Rightarrow> fetchers \<Rightarrow> Node list \<Rightarrow> background \<Rightarrow>
     string list \<times> string option \<times> background" where
  "collectDataFromNodes env cfg stop shuffle fetch nodes b =
     (case getEndpointsToFetch env cfg stop shuffle nodes b of
        (reqs, b1) \<Rightarrow>
          (case fetch reqs (bg_world b1) of
             (NoFetchers e, w1) \<Rightarrow> ([], Some (msg [''could not start fetchers: '', e]), b1\<lparr>bg_world := w1\<rparr>)
           | (Fetched us rs ctxErr, w1) \<Rightarrow>
               (let b2 = waitForStatusUpdates env us (b1\<lparr>bg_world := w1\<rparr>);
                    (zips, errs) = gatherAllResults rs;
                    b3 = (if length errs \<noteq> 0 then logError env (msg [''['', str_join '' '' errs, '']'']) ''failed to gather all results'' b2 else b2);
                    b4 = (case ctxErr of Some e \<Rightarrow> logError env e ''job cancelled'' b3 | None \<Rightarrow> b3)
                in (zips,
                    if length (dj_Errors (bg_job b4)) \<noteq> 0
                    then Some (msg [''diagnostics job failed: ['', str_join '' '' (dj_Errors (bg_job b4)), '']'']) else None,
                    b4))))"

text \<open>The legacy \<^verbatim>\<open>appendToZip\<close> copies every entry under its own name.\<close>

fun copy_entries :: "zip \<Rightarrow> (string \<times> blob) list \<Rightarrow> world \<Rightarrow> string option \<times> zip \<times> world" where
  "copy_entries z [] w = (None, z, w)"
| "copy_entries z (f # fs) w =
     (case sys_entry w of
        (Some e, w1) \<Rightarrow> (Some (msg [''could not open '', fst f, '' from zip: '', e]), z, w1)
      | (None, w1) \<Rightarrow>
          (case zip_Create (fst f) z w1 of
             (Some e, z1, w2) \<Rightarrow> (Some (msg [''could not create file '', fst f, '': '', e]), z1, w2)
           | (None, z1, w2) \<Rightarrow>
               (case zip_CopyEntry (snd f) z1 w2 of
                  (Some e, z2, w3) \<Rightarrow> (Some (msg [''could not copy file '', fst f, '' to zip: '', e]), z2, w3)
                | (None, z2, w3) \<Rightarrow> copy_entries z2 fs w3)))"

definition job_appendToZip :: "zip \<Rightarrow> string \<Rightarrow> world \<Rightarrow> string option \<times> zip \<times> world" where
  "job_appendToZip z path w =
     (case zip_OpenReader path w of
        (Inl e, w1) \<Rightarrow> (Some (msg [''could not open '', path, '': '', e]), z, w1)
      | (Inr es, w1) \<Rightarrow> copy_entries z es w1)"

fun merge_fetched :: "job_env \<Rightarrow> string list \<Rightarrow> zip \<Rightarrow> background \<Rightarrow> zip \<times> background" where
  "merge_fetched env [] z b = (z, b)"
| "merge_fetched env (p # ps) z b =
     (case job_appendToZip z p (bg_world b) of
        (err, z1, w1) \<Rightarrow>
          let b0 = b\<lparr>bg_world := w1\<rparr>;
              b1 = (case err of Some e \<Rightarrow> logError env e ''Could not create a bundle'' b0 | None \<Rightarrow> b0)
          in case sys_remove p (bg_world b1) of
               (err2, w2) \<Rightarrow>
                 let b2 = b1\<lparr>bg_world := w2\<rparr>;
                     b3 = (case err2 of Some e \<Rightarrow> logError env e ''Could not remove temporary file'' b2 | None \<Rightarrow> b2)
                 in merge_fetched env ps z1 b3)"

definition flushReport :: "string \<Rightarrow> string \<Rightarrow> zip \<Rightarrow> background \<Rightarrow> zip \<times> background" where
  "flushReport fileName report z b =
     (case zip_Create fileName z (bg_world b) of
        (Some e, z1, w1) \<Rightarrow>
          (let e1 = msg [''could not append a report.txt to a zip file: '', e]
           in (z1, b\<lparr>bg_job := setStatus e1 (appendError e1 (bg_job b)), bg_world := w1\<rparr>))
      | (None, z1, w1) \<Rightarrow>
          (case zip_CopyEntry (Bytes report) z1 w1 of (err, z2, w2) \<Rightarrow> (z2, b\<lparr>bg_world := w2\<rparr>)))"

text \<open>The work between opening the archive and the deferred calls.\<close>

definition fill_bundle ::
  "job_env \<Rightarrow> (nat \<Rightarrow> bool) \<Rightarrow> (EndpointRequest list \<Rightarrow> EndpointRequest list) \<Rightarrow> fetchers \<Rightarrow> Node list \<Rightarrow> DiagnosticsJob \<Rightarrow> world \<Rightarrow>
     zip \<times> background" where
  "fill_bundle env stop shuffle fetch nodes j w =
     (case collectDataFromNodes env (dj_Cfg j) stop shuffle fetch nodes \<lparr>bg_job = j, bg_report = [], bg_errors = [], bg_world = w\<rparr> of
        (zips, err, b) \<Rightarrow>
          let b1 = b\<lparr>bg_job := setStatus (case err of Some e \<Rightarrow> ''Diagnostics job failed''
                                         | None \<Rightarrow> ''Diagnostics job successfully collected all data'') (bg_job b)\<rparr>
          in case merge_fetched env zips [] b1 of
               (z, b2) \<Rightarrow>
                 (case flushReport ''summaryReport.txt'' (bg_report b2) z b2 of
                    (z1, b3) \<Rightarrow>
                      if length (bg_errors b3) > 0 then flushReport ''summaryErrorsReport.txt'' (bg_errors b3) z1 b3
                      else (z1, b3)))"

definition runBackgroundJob ::
  "job_env \<Rightarrow> (nat \<Rightarrow> bool) \<Rightarrow> (EndpointRequest list \<Rightarrow> EndpointRequest list) \<Rightarrow> fetchers \<Rightarrow> Node list \<Rightarrow> DiagnosticsJob \<Rightarrow> world \<Rightarrow>
     DiagnosticsJob \<times> world" where
  "runBackgroundJob env stop shuffle fetch nodes j w =
     (if length nodes = 0 then
        job_stop (appendError ''nodes length must NOT be 0'' (setStatus ''Job failed'' j)) w
      else
        (case sys_create (dj_LastBundlePath j) w of
           (Some e, w1) \<Rightarrow>
             job_stop (appendError (msg [''could not create zip file '', dj_LastBundlePath j, '': '', e]) (setStatus ''Job failed'' j)) w1
         | (None, w1) \<Rightarrow>
             (case fill_bundle env stop shuffle fetch nodes j w1 of
                (z, b) \<Rightarrow>
                  (case close_all (dj_LastBundlePath j) [] z (bg_world b) of
                     (ignored, w2) \<Rightarrow> job_stop (bg_job b) w2))))"

section \<open>Bundles in the cluster\<close>

text \<open>\<^verbatim>\<open>filepath.Glob\<close> on \<^verbatim>\<open>bundle-*.zip\<close> in a directory: it ignores I/O errors. Its only error is a bad pattern, which the name of the
  directory would have to bring in; the directory is taken to have no characters that \<^verbatim>\<open>Glob\<close> interprets.\<close>

definition bundle_pattern :: "string \<Rightarrow> bool" where
  "bundle_pattern n = (has_prefix n ''bundle-'' \<and> has_suffix n ''.zip'' \<and> 11 \<le> length n)"

definition findLocalBundle :: "DiagnosticsJob \<Rightarrow> world \<Rightarrow> string list \<times> world" where
  "findLocalBundle j w =
     (case sys_read_dir (FlagDiagnosticsBundleDir (dj_Cfg j)) w of
        (Inl e, w1) \<Rightarrow> ([], w1)
      | (Inr es, w1) \<Rightarrow>
          (filter (\<lambda>p. \<not> (p = dj_LastBundlePath j \<and> dj_Running j))
             (map (\<lambda>e. join [FlagDiagnosticsBundleDir (dj_Cfg j), fst e]) (filter (\<lambda>e. bundle_pattern (fst e)) es)), w1))"

fun list_bundles :: "job_env \<Rightarrow> Config \<Rightarrow> Node list \<Rightarrow> (string \<times> bundle_file list) list \<Rightarrow> (string \<times> bundle_file list) list" where
  "list_bundles env cfg [] acc = acc"
| "list_bundles env cfg (n # ns) acc =
     (case je_get env (msg [''http://'', IP n, '':'', itoa (FlagMasterPort cfg), baseRoute, ''/report/diagnostics/list'']) of
        (body, code, Some e) \<Rightarrow> list_bundles env cfg ns acc
      | (body, code, None) \<Rightarrow>
          (case je_list env body of
             Inl e \<Rightarrow> list_bundles env cfg ns acc
           | Inr bs \<Rightarrow> list_bundles env cfg ns (AList.update (msg [IP n, '':'', itoa (FlagMasterPort cfg)]) bs acc)))"

definition listAllBundles :: "job_env \<Rightarrow> Config \<Rightarrow> Node list result \<Rightarrow> (string \<times> bundle_file list) list result" where
  "listAllBundles env cfg masters = (case masters of Inl e \<Rightarrow> Inl e | Inr ns \<Rightarrow> Inr (list_bundles env cfg ns []))"

fun find_remote :: "string \<Rightarrow> (string \<times> bundle_file list) list \<Rightarrow> (string \<times> string) option" where
  "find_remote name [] = None"
| "find_remote name ((host, bs) # rest) =
     (case filter (\<lambda>b. name = base_name (bf_File b)) bs of
        b # _ \<Rightarrow> Some (hd (split_on (CHR '':'') host), bf_File b)
      | [] \<Rightarrow> find_remote name rest)"

text \<open>The node (empty for this one), the file and whether the bundle was found.\<close>

definition isBundleAvailable ::
  "job_env \<Rightarrow> Node list result \<Rightarrow> string \<Rightarrow> DiagnosticsJob \<Rightarrow> world \<Rightarrow> (string \<times> string \<times> bool) result \<times> world" where
  "isBundleAvailable env masters name j w =
     (case findLocalBundle j w of
        (locals, w1) \<Rightarrow>
          if \<exists>b\<in>set locals. base_name b = name then (Inr ([], [], True), w1)
          else
            (case listAllBundles env (dj_Cfg j) masters of
               Inl e \<Rightarrow> (Inl e, w1)
             | Inr bundles \<Rightarrow>
                 ((case find_remote name bundles of
                     Some (host, path) \<Rightarrow> Inr (host, path, True)
                   | None \<Rightarrow> Inr ([], [], False)), w1)))"

section \<open>Deleting and cancelling\<close>

type_synonym report_result = "(diagnosticsReportResponse \<times> string option) \<times> DiagnosticsJob"

definition remote_post :: "job_env \<Rightarrow> string \<Rightarrow> DiagnosticsJob \<Rightarrow> report_result" where
  "remote_post env url j =
     (case je_post env url of
        (body, code, Some e) \<Rightarrow> (prepareResponseWithErr StatusServiceUnavailable (Some e), j)
      | (body, code, None) \<Rightarrow>
          (case je_response env body of
             Inl e \<Rightarrow> (prepareResponseWithErr StatusServiceUnavailable (Some e), j)
           | Inr r \<Rightarrow> ((r, None), j)))"

definition delete_elsewhere :: "job_env \<Rightarrow> Node list result \<Rightarrow> string \<Rightarrow> DiagnosticsJob \<Rightarrow> world \<Rightarrow> report_result \<times> world" where
  "delete_elsewhere env masters name j w =
     (case isBundleAvailable env masters name j w of
        (Inl e, w1) \<Rightarrow> ((prepareResponseWithErr StatusServiceUnavailable (Some e), j), w1)
      | (Inr (node, path, True), w1) \<Rightarrow>
          (let url = master_url j node (msg [''/report/diagnostics/delete/'', name]);
               j1 = setStatus (msg [''Attempting to delete a bundle on a remote host. POST '', url]) j
           in case remote_post env url j1 of
                ((r, None), j2) \<Rightarrow> (((r, None), setStatus (rr_Status r) j2), w1)
              | other \<Rightarrow> (other, w1))
      | (Inr (node, path, False), w1) \<Rightarrow>
          (let st = msg [''Bundle not found '', name]
           in (((prepareResponseOk StatusNotFound st, None), setStatus st j), w1)))"

definition dj_delete :: "job_env \<Rightarrow> Node list result \<Rightarrow> string \<Rightarrow> DiagnosticsJob \<Rightarrow> world \<Rightarrow> report_result \<times> world" where
  "dj_delete env masters name j w =
     (if \<not> has_prefix name ''bundle-'' \<or> \<not> has_suffix name ''.zip'' then
        ((prepareResponseWithErr StatusBadRequest (Some ''format allowed  bundle-*.zip''), j), w)
      else
        (let bundlePath = join [FlagDiagnosticsBundleDir (dj_Cfg j), name] in
         case sys_stat bundlePath w of
           (StatOk n, w1) \<Rightarrow>
             (case sys_remove bundlePath w1 of
                (Some e, w2) \<Rightarrow> ((prepareResponseWithErr StatusServiceUnavailable (Some e), j), w2)
              | (None, w2) \<Rightarrow> (((prepareResponseOk StatusOK (msg [''Deleted '', bundlePath]), None), j), w2))
         | (st, w1) \<Rightarrow> delete_elsewhere env masters name j w1))"

definition dj_cancel ::
  "job_env \<Rightarrow> string result \<Rightarrow> Node list result \<Rightarrow> string result \<Rightarrow> DiagnosticsJob \<Rightarrow> report_result" where
  "dj_cancel env role masters ip j =
     (if role = Inr AgentRole \<or> role = Inr AgentPublicRole then
        (prepareResponseWithErr StatusServiceUnavailable (Some ''canceling diagnostics job on agent node is not implemented''), j)
      else
        (case isRunning env masters ip j of
           Inl e \<Rightarrow> ((\<lparr>rr_ResponseCode = 0, rr_Version = 0, rr_Status = [], rr_Errors = []\<rparr>, Some e), j)
         | Inr (False, node) \<Rightarrow> (prepareResponseWithErr StatusServiceUnavailable (Some ''Job is not running''), j)
         | Inr (True, node) \<Rightarrow>
             if node = [] then
               ((prepareResponseOk StatusOK ''Attempting to cancel a job, please check job status.'', None), j\<lparr>dj_cancelled := True\<rparr>)
             else
               (let url = master_url j node ''/report/diagnostics/cancel''
                in remote_post env url (setStatus (msg [''Attempting to cancel a job on a remote host. POST '', url]) j))))"

section \<open>Facts about the checks\<close>

lemma master_status_loop:
  assumes "status_loop env j localIP ns sts errs = (sts', errs')"
  shows "\<exists>es. errs' = errs @ es"
    and "errs' = errs \<Longrightarrow> n \<in> set ns \<Longrightarrow> IP n \<noteq> localIP \<Longrightarrow> \<exists>st. master_status env j (IP n) = Inr st"
  using assms
proof (induction ns arbitrary: sts errs)
  case (Cons a ns)
  { case 1
    then show ?case using Cons.IH(1) by (fastforce split: if_splits sum.splits) }
  { case 2
    then show ?case using Cons.IH Cons.IH(1) [of sts "errs @ [_]"] by (fastforce split: if_splits sum.splits) }
qed auto

text \<open>A status in the map that is not the start is the master's answer, and no answer is lost.\<close>

lemma status_loop_holds:
  assumes "status_loop env j localIP ns sts errs = (sts', errs')" and "errs' = errs"
    and "\<forall>k. k \<noteq> localIP \<longrightarrow> (\<forall>st. map_of sts k = Some st \<longrightarrow> master_status env j k = Inr st)"
  shows "(\<forall>n\<in>set ns. IP n \<noteq> localIP \<longrightarrow> (\<exists>st. map_of sts' (IP n) = Some st \<and> master_status env j (IP n) = Inr st)) \<and>
    (\<forall>k st. map_of sts k = Some st \<longrightarrow> map_of sts' k = Some st)"
  using assms
proof (induction ns arbitrary: sts errs)
  case (Cons a ns)
  show ?case
  proof (cases "IP a = localIP")
    case True
    then show ?thesis using Cons by auto
  next
    case False
    then obtain st where st: "master_status env j (IP a) = Inr st"
      using master_status_loop(2) [OF Cons.prems(1,2), of a] by auto
    let ?s = "AList.update (IP a) st sts"
    have r: "status_loop env j localIP ns ?s errs = (sts', errs')" using Cons.prems(1) False st by simp
    have p: "\<forall>k. k \<noteq> localIP \<longrightarrow> (\<forall>s. map_of ?s k = Some s \<longrightarrow> master_status env j k = Inr s)"
      using Cons.prems(3) st by (auto simp: update_conv' split: if_splits)
    have m: "map_of ?s (IP a) = Some st" by (simp add: update_conv')
    have keep: "map_of ?s k = Some s" if "map_of sts k = Some s" for k s
      using that Cons.prems(3) st False by (auto simp: update_conv')
    show ?thesis using Cons.IH [OF r Cons.prems(2) p] st m keep by auto
  qed
qed auto

lemma find_running_none: "find_running sts = (False, n) \<Longrightarrow> (k, st) \<in> set sts \<Longrightarrow> \<not> bs_Running st"
  by (induction sts rule: find_running.induct) (auto split: if_splits)

lemma isRunning_none:
  assumes "isRunning env (Inr ns) ip j = Inr (False, n0)"
  shows "\<not> dj_Running j"
    and "n \<in> set ns \<Longrightarrow> IP n \<noteq> (case ip of Inl e \<Rightarrow> [] | Inr a \<Rightarrow> a) \<Longrightarrow>
      \<exists>st. master_status env j (IP n) = Inr st \<and> \<not> bs_Running st"
proof -
  show "\<not> dj_Running j" using assms by (auto simp: isRunning_def)
  let ?l = "case ip of Inl e \<Rightarrow> [] | Inr a \<Rightarrow> a"
  let ?s = "case ip of Inl e \<Rightarrow> [] | Inr a \<Rightarrow> [(a, getBundleReportStatus env j)]"
  obtain sts errs where l: "status_loop env j ?l ns ?s [] = (sts, errs)" by fastforce
  have e: "errs = []" and f: "find_running sts = (False, n0)"
    using assms l by (auto simp: isRunning_def getStatusAll_def split: if_splits sum.splits)
  assume "n \<in> set ns" "IP n \<noteq> ?l"
  moreover have "\<forall>k. k \<noteq> ?l \<longrightarrow> (\<forall>st. map_of ?s k = Some st \<longrightarrow> master_status env j k = Inr st)"
    by (auto split: sum.splits)
  ultimately obtain st where "map_of sts (IP n) = Some st" "master_status env j (IP n) = Inr st"
    using status_loop_holds [OF l e] by blast
  then show "\<exists>st. master_status env j (IP n) = Inr st \<and> \<not> bs_Running st"
    using find_running_none [OF f] map_of_SomeD by fast
qed

text \<open>The nodes a request asks for.\<close>

definition asks_for :: "string list \<Rightarrow> Node list \<Rightarrow> Node list \<Rightarrow> Node \<Rightarrow> bool" where
  "asks_for req masters agents n =
     (n \<in> set masters \<union> set agents \<and>
      (''all'' \<in> set req \<or> ''masters'' \<in> set req \<and> n \<in> set masters \<or> ''agents'' \<in> set req \<and> n \<in> set agents \<or>
       (\<exists>r\<in>set req. r \<noteq> [] \<and> (r = IP n \<or> r = MesosID n \<or> r = Host n))))"

lemma match_loop_set:
  "set (match_loop req ms as acc) =
     (if ''all'' \<in> set req then set ms \<union> set as else set acc \<union> {n. asks_for req ms as n})"
proof (induction req arbitrary: acc)
  case (Cons r req)
  then show ?case by (auto simp: asks_for_def match_one_def)
qed (auto simp: asks_for_def)

lemma matchRequestedNodes_set:
  "matchRequestedNodes req ms as = Inr ns \<Longrightarrow> ns \<noteq> [] \<and> set ns = {n. asks_for req ms as n}"
  using match_loop_set [of req ms as "[]"]
  by (auto simp: matchRequestedNodes_def Let_def asks_for_def split: if_splits)

section \<open>Properties of starting and deleting\<close>

definition sample_job :: DiagnosticsJob where
  "sample_job = \<lparr>dj_Cfg = sample_cfg\<lparr>FlagDiagnosticsBundleDir := ''/b''\<rparr>, dj_Running = False, dj_Status = [], dj_Errors = [''old''],
     dj_LastBundlePath = [], dj_JobStarted = 0, dj_JobEnded = 0, dj_cancelled = False\<rparr>"

definition sample_job_env :: job_env where
  "sample_job_env = \<lparr>je_get = (\<lambda>_. ([], 200, None)), je_post = (\<lambda>_. ([], 200, None)),
     je_status = (\<lambda>_. Inr (getBundleReportStatus undefined (sample_job\<lparr>dj_Running := True\<rparr>))),
     je_list = (\<lambda>_. Inr []), je_endpoints = (\<lambda>_. Inr [(''health.json'', \<lparr>PortAndPath = '':1050/h'', SpecOptional = False\<rparr>)]),
     je_response = (\<lambda>_. Inl ''bad''),
     je_date = (\<lambda>_. ''2020-01-02''), je_unix = (\<lambda>t. t), je_time = (\<lambda>t. itoa t), je_since = (\<lambda>a b. itoa (b - a)), je_https = Inr\<rparr>"

text \<open>A run that starts a job has passed every check.\<close>

lemma start_job_nodes: "start_job env ns j w = (res, j', w', st) \<Longrightarrow> st = Some ns"
  by (auto simp: start_job_def Let_def simp del: join.simps split: prod.splits)

lemma dj_run_started:
  assumes "dj_run env role masters ip ms as req j w = (res, j', w', Some ns)"
  shows "\<exists>w1 n0. role \<noteq> Inr AgentRole \<and> role \<noteq> Inr AgentPublicRole \<and> isRunning env masters ip j = Inr (False, n0) \<and>
    findRequestedNodes req ms as = Inr ns \<and> start_job env ns j w1 = (res, j', w', Some ns)"
  using assms
  by (auto simp: dj_run_def refuse_def Let_def dest: start_job_nodes
      split: sum.splits if_splits prod.splits stat_result.splits option.splits bool.splits)

text \<open>
  C12. Starting the legacy job is truthful. It answers 200 exactly when it has started a background job; then the
  node is not an agent, its own job was not running, every other master has answered that its job is not
  running, and the job works on exactly the nodes the request asks for; the job is running, without errors
  and not cancelled. A refusal carries an error and leaves the running job, its errors and its archive alone.
\<close>

theorem job_run_truthful:
  assumes "dj_run env role (Inr sm) ip masters agents req j w = ((r, err), j', w', st)"
  shows "(rr_ResponseCode r = 200 \<longleftrightarrow> st \<noteq> None) \<and> (err = None \<longleftrightarrow> st \<noteq> None) \<and>
    (st = None \<longrightarrow> dj_Running j' = dj_Running j \<and> dj_Errors j' = dj_Errors j \<and> dj_LastBundlePath j' = dj_LastBundlePath j) \<and>
    (\<forall>ns. st = Some ns \<longrightarrow>
       role \<noteq> Inr AgentRole \<and> role \<noteq> Inr AgentPublicRole \<and> \<not> dj_Running j \<and>
       (\<forall>n\<in>set sm. IP n \<noteq> (case ip of Inl e \<Rightarrow> [] | Inr a \<Rightarrow> a) \<longrightarrow> (\<exists>s. master_status env j (IP n) = Inr s \<and> \<not> bs_Running s)) \<and>
       (\<exists>ms as. masters = Inr ms \<and> agents = Inr as \<and> ns \<noteq> [] \<and> set ns = {n. asks_for req ms as n}) \<and>
       dj_Running j' \<and> dj_Errors j' = [] \<and> \<not> dj_cancelled j')"
proof (cases st)
  case None
  then show ?thesis
    using assms
    by (auto simp: dj_run_def refuse_def prepareCreateResponseWithErr_def start_job_def setStatus_def Let_def
        split: sum.splits if_splits prod.splits stat_result.splits option.splits bool.splits)
next
  case (Some ns)
  obtain w1 n0 where role: "role \<noteq> Inr AgentRole" "role \<noteq> Inr AgentPublicRole"
    and run: "isRunning env (Inr sm) ip j = Inr (False, n0)"
    and found: "findRequestedNodes req masters agents = Inr ns"
    and go: "start_job env ns j w1 = ((r, err), j', w', st)"
    using dj_run_started [OF assms [unfolded Some]] Some by blast
  obtain ms as where "masters = Inr ms" "agents = Inr as" "matchRequestedNodes req ms as = Inr ns"
    using found by (auto simp: findRequestedNodes_def split: sum.splits)
  moreover have "dj_Running j'" "dj_Errors j' = []" "\<not> dj_cancelled j'" "rr_ResponseCode r = 200" "err = None"
    using go by (auto simp: start_job_def setStatus_def Let_def split: prod.splits)
  ultimately show ?thesis using Some role isRunning_none [OF run] matchRequestedNodes_set [of req ms as ns] by simp
qed

theorem job_run_truthful_witness:
  "\<exists>r j' w' ns. dj_run sample_job_env (Inr ''master'') (Inr [plain_Node True MasterRole ''10.0.0.1'']) (Inr ''10.0.0.1'')
      (Inr [plain_Node True MasterRole ''10.0.0.1'']) (Inr []) [''all''] sample_job (sample_world []) = ((r, None), j', w', Some ns) \<and>
     dj_Running j' \<and> dj_Errors j' = []"
proof -
  let ?x = "dj_run sample_job_env (Inr ''master'') (Inr [plain_Node True MasterRole ''10.0.0.1'']) (Inr ''10.0.0.1'')
      (Inr [plain_Node True MasterRole ''10.0.0.1'']) (Inr []) [''all''] sample_job (sample_world [])"
  obtain r e j' w' st where x: "?x = ((r, e), j', w', st)" by (metis prod.exhaust)
  have "snd (fst ?x) = None" by code_simp
  then have "e = None" using x by simp
  moreover from this obtain ns where "st = Some ns" using job_run_truthful [OF x] by auto
  ultimately show ?thesis using job_run_truthful [OF x] x by auto
qed

lemma isBundleAvailable_world: "isBundleAvailable env masters name j w = (r, w') \<Longrightarrow> w' = tick w"
  by (auto simp: isBundleAvailable_def findLocalBundle_def sys_read_dir_def
      split: sum.splits if_splits option.splits prod.splits)

lemma delete_elsewhere_world:
  assumes "delete_elsewhere env masters name j w = (r, w')"
  shows "w' = tick w"
proof -
  obtain a w1 where a: "isBundleAvailable env masters name j w = (a, w1)" by fastforce
  have "w' = w1"
    using assms a by (cases a) (auto simp: delete_elsewhere_def Let_def split: prod.splits bool.splits option.splits)
  then show ?thesis using isBundleAvailable_world [OF a] by simp
qed

lemma remote_post_job: "remote_post env url j = (r, j') \<Longrightarrow> j' = j"
  by (auto simp: remote_post_def split: prod.splits option.splits sum.splits)

lemma delete_elsewhere_job:
  assumes "delete_elsewhere env masters name j w = ((r, j'), w')"
  shows "dj_Running j' = dj_Running j \<and> dj_Errors j' = dj_Errors j"
proof -
  obtain a w1 where a: "isBundleAvailable env masters name j w = (a, w1)" by fastforce
  show ?thesis
  proof (cases a)
    case (Inr x)
    obtain node path found where x: "x = (node, path, found)" by (metis prod.exhaust)
    show ?thesis
      using assms a Inr x
      by (cases found) (auto simp: delete_elsewhere_def setStatus_def Let_def dest!: remote_post_job split: prod.splits option.splits)
  qed (use assms a in \<open>auto simp: delete_elsewhere_def\<close>)
qed

text \<open>
  C28. Deleting a legacy bundle is contained. Whatever the name and whichever calls fail, no file changes except
  the one of that name in the bundle directory; a name that is not of the form \<^verbatim>\<open>bundle-*.zip\<close> changes nothing
  and is answered with 400; and if the bundle was found here, the answer 200 means that it is gone. The
  job that may be running goes on.
\<close>

theorem job_delete_contained:
  assumes "dj_delete env masters name j w = (((r, err), j'), w')"
  defines "path \<equiv> join [FlagDiagnosticsBundleDir (dj_Cfg j), name]"
  shows "same_except {path} w w' \<and> dj_Running j' = dj_Running j \<and> dj_Errors j' = dj_Errors j \<and>
    (\<not> (has_prefix name ''bundle-'' \<and> has_suffix name ''.zip'') \<longrightarrow> w' = w \<and> rr_ResponseCode r = 400) \<and>
    (has_prefix name ''bundle-'' \<longrightarrow> has_suffix name ''.zip'' \<longrightarrow> fs_get w path \<noteq> None \<longrightarrow> failing w = None \<longrightarrow>
       rr_ResponseCode r = 200 \<longrightarrow> fs_get w' path = None)"
proof (cases "has_prefix name ''bundle-'' \<and> has_suffix name ''.zip''")
  case False
  then show ?thesis using assms(1) by (auto simp: dj_delete_def prepareResponseWithErr_def)
next
  case True
  obtain st where s: "sys_stat path w = (st, tick w)" by (simp add: sys_stat_def)
  show ?thesis
  proof (cases "\<exists>n. st = StatOk n")
    case yes: True
    obtain x w2 where rm: "sys_remove path (tick w) = (x, w2)" by fastforce
    have w': "w' = w2" and j': "j' = j" and c: "rr_ResponseCode r = 200 \<Longrightarrow> x = None"
      using assms(1) True s rm yes unfolding path_def
      by (auto simp: dj_delete_def prepareResponseWithErr_def Let_def simp del: join.simps split: option.splits)
    have "same_except {path} w w'" using frame_calls(7) [OF rm] w' by (auto dest: same_except_tick_left)
    then show ?thesis using True w' j' c remove_ok [of path "tick w" w2] rm by auto
  next
    case no: False
    have "delete_elsewhere env masters name j (tick w) = (((r, err), j'), w')"
      using assms(1) True s no unfolding path_def by (auto simp: dj_delete_def Let_def simp del: join.simps split: stat_result.splits)
    then have w': "w' = tick (tick w)" and j': "dj_Running j' = dj_Running j \<and> dj_Errors j' = dj_Errors j"
      by (rule delete_elsewhere_world, rule delete_elsewhere_job)
    have "fs_get w path = None \<or> failing w \<noteq> None" using s no by (auto simp: sys_stat_def split: option.splits)
    then show ?thesis using True w' j' by auto
  qed
qed

theorem job_delete_contained_witness:
  "\<exists>r err j' w'. dj_delete sample_job_env (Inr []) ''bundle-1.zip'' sample_job (sample_world [(''/b/bundle-1.zip'', File (Zip []))]) =
     (((r, err), j'), w') \<and> rr_ResponseCode r = 200 \<and> fs_get w' ''/b/bundle-1.zip'' = None"
proof -
  let ?x = "dj_delete sample_job_env (Inr []) ''bundle-1.zip'' sample_job (sample_world [(''/b/bundle-1.zip'', File (Zip []))])"
  obtain r err j' w' where x: "?x = (((r, err), j'), w')" by (metis prod.exhaust)
  have p: "join [FlagDiagnosticsBundleDir (dj_Cfg sample_job), ''bundle-1.zip''] = ''/b/bundle-1.zip''"
    and h: "has_prefix ''bundle-1.zip'' ''bundle-''" "has_suffix ''bundle-1.zip'' ''.zip''"
      "fs_get (sample_world [(''/b/bundle-1.zip'', File (Zip []))]) ''/b/bundle-1.zip'' \<noteq> None"
      "failing (sample_world [(''/b/bundle-1.zip'', File (Zip []))]) = None"
    and c: "rr_ResponseCode (fst (fst (fst ?x))) = 200" by code_simp+
  have "rr_ResponseCode r = 200" using c x by simp
  moreover from this have "fs_get w' ''/b/bundle-1.zip'' = None" using job_delete_contained [OF x, unfolded p] h by blast
  ultimately show ?thesis using x by blast
qed

end
