(* ===== verification/Handlers.thy ===== *)
theory Handlers
  imports Diagnostics_Job
begin

text \<open>
  The HTTP handlers of the health tree and of the legacy bundles, \<^verbatim>\<open>api/handlers.go\<close>. A handler gets the
  headers that the middleware has set on its \<^verbatim>\<open>ResponseWriter\<close>, what it reads of the tools and the job, and
  yields a reply, a panic or a proxied request. Writing the JSON text to the connection is taken to succeed;
  the body of a reply is the value that is encoded.
\<close>

section \<open>Headers\<close>

text \<open>\<^verbatim>\<open>http.Header\<close>: a map from canonical names to lists of values. A canonical name has a capital letter at its
  start and after each hyphen, and small letters elsewhere.\<close>

type_synonym header_map = "(string \<times> string list) list"

definition upper :: "char \<Rightarrow> char" where
  "upper c = (let n = of_char c :: nat in if 97 \<le> n \<and> n \<le> 122 then char_of (n - 32) else c)"

definition lower :: "char \<Rightarrow> char" where
  "lower c = (let n = of_char c :: nat in if 65 \<le> n \<and> n \<le> 90 then char_of (n + 32) else c)"

fun canonical_from :: "bool \<Rightarrow> string \<Rightarrow> string" where
  "canonical_from up [] = []"
| "canonical_from up (c # cs) = (if up then upper c else lower c) # canonical_from (c = CHR ''-'') cs"

definition canonical :: "string \<Rightarrow> string" where
  "canonical k = canonical_from True k"

definition header_values :: "header_map \<Rightarrow> string \<Rightarrow> string list" where
  "header_values h k = (case map_of h (canonical k) of None \<Rightarrow> [] | Some vs \<Rightarrow> vs)"

definition header_Add :: "string \<Rightarrow> string \<Rightarrow> header_map \<Rightarrow> header_map" where
  "header_Add k v h = AList.update (canonical k) (header_values h k @ [v]) h"

definition header_Set :: "string \<Rightarrow> string \<Rightarrow> header_map \<Rightarrow> header_map" where
  "header_Set k v h = AList.update (canonical k) [v] h"

definition header_Get :: "header_map \<Rightarrow> string \<Rightarrow> string" where
  "header_Get h k = (case header_values h k of [] \<Rightarrow> [] | v # _ \<Rightarrow> v)"

section \<open>Replies\<close>

datatype payload =
    PUnitsHealth UnitsHealthResponseJSONStruct
  | PUnits "UnitResponseFieldsStruct list"
  | PUnit UnitResponseFieldsStruct
  | PNodes "NodeResponseFieldsStruct list"
  | PNode NodeResponseFieldsStruct
  | PNodeError NodeResponseFieldsWithErrorStruct
  | PTree MonitoringResponse
  | PUnitValues HealthResponseValues
  | PReport diagnosticsReportResponse
  | PCreate createResponse
  | PStatus bundleReportStatus
  | PStatuses "(string \<times> bundleReportStatus) list"
  | PAllBundles "(string \<times> bundle_file list) list"
  | PBundles "bundle_file list"
  | PEndpoints "(string \<times> endpointSpec) list"
  | PBundleApi body
  | PText string
  | PFile blob

record reply =
  rp_code :: int
  rp_headers :: header_map
  rp_body :: payload

datatype served =
    Reply reply
  | Panicked string
  | Proxied string string string

definition json_reply :: "header_map \<Rightarrow> payload \<Rightarrow> served" where
  "json_reply h p = Reply \<lparr>rp_code = StatusOK, rp_headers = h, rp_body = p\<rparr>"

text \<open>\<^verbatim>\<open>http.Error\<close>.\<close>

definition httpError :: "header_map \<Rightarrow> string \<Rightarrow> int \<Rightarrow> served" where
  "httpError h m code =
     Reply \<lparr>rp_code = code,
            rp_headers = header_Set ''X-Content-Type-Options'' ''nosniff'' (header_Set ''Content-Type'' ''text/plain; charset=utf-8'' h),
            rp_body = PText (m @ [CHR 0x0A])\<rparr>"

text \<open>\<^verbatim>\<open>WriteHeader\<close> of \<^verbatim>\<open>net/http\<close> panics on a code that has not three digits.\<close>

definition write_code :: "int \<Rightarrow> header_map \<Rightarrow> payload \<Rightarrow> served" where
  "write_code code h p =
     (if code < 100 \<or> 999 < code then Panicked (msg [''invalid WriteHeader code '', itoa code])
      else Reply \<lparr>rp_code = code, rp_headers = h, rp_body = p\<rparr>)"

definition writeResponse :: "header_map \<Rightarrow> diagnosticsReportResponse \<Rightarrow> served" where
  "writeResponse h r = write_code (rr_ResponseCode r) h (PReport r)"

definition writeCreateResponse :: "header_map \<Rightarrow> createResponse \<Rightarrow> served" where
  "writeCreateResponse h r = write_code (rr_ResponseCode r) h (PCreate r)"

section \<open>Handlers of the health tree\<close>

text \<open>Every error of the tree's queries is a \<^verbatim>\<open>notFoundError\<close>, so the other branch of their handlers is not taken.\<close>

definition query_reply :: "header_map \<Rightarrow> ('a \<Rightarrow> payload) \<Rightarrow> 'a result \<Rightarrow> served" where
  "query_reply h f r = (case r of Inl e \<Rightarrow> httpError h e StatusNotFound | Inr x \<Rightarrow> json_reply h (f x))"

definition unitsHealthStatus :: "header_map \<Rightarrow> UnitsHealthResponseJSONStruct result \<Rightarrow> served" where
  "unitsHealthStatus h health =
     (case health of Inl e \<Rightarrow> httpError h e StatusInternalServerError | Inr x \<Rightarrow> json_reply h (PUnitsHealth x))"

definition getAllUnitsHandler :: "header_map \<Rightarrow> MonitoringResponse \<Rightarrow> served" where
  "getAllUnitsHandler h mr = json_reply h (PUnits (GetAllUnits mr))"

definition getUnitByIDHandler :: "header_map \<Rightarrow> MonitoringResponse \<Rightarrow> string \<Rightarrow> served" where
  "getUnitByIDHandler h mr unitid = query_reply h PUnit (GetUnit mr unitid)"

definition getNodesByUnitIDHandler :: "header_map \<Rightarrow> MonitoringResponse \<Rightarrow> string \<Rightarrow> served" where
  "getNodesByUnitIDHandler h mr unitid = query_reply h PNodes (GetNodesForUnit mr unitid)"

definition getNodeByUnitIDNodeIDHandler :: "header_map \<Rightarrow> MonitoringResponse \<Rightarrow> string \<Rightarrow> string \<Rightarrow> served" where
  "getNodeByUnitIDNodeIDHandler h mr unitid nodeid = query_reply h PNodeError (GetSpecificNodeForUnit mr unitid nodeid)"

definition reportHandler :: "header_map \<Rightarrow> MonitoringResponse \<Rightarrow> served" where
  "reportHandler h mr = json_reply h (PTree mr)"

definition getNodesHandler :: "header_map \<Rightarrow> MonitoringResponse \<Rightarrow> served" where
  "getNodesHandler h mr = json_reply h (PNodes (GetNodes mr))"

definition getNodeByIDHandler :: "header_map \<Rightarrow> MonitoringResponse \<Rightarrow> string \<Rightarrow> served" where
  "getNodeByIDHandler h mr nodeid = query_reply h PNode (GetNodeByID mr nodeid)"

definition getNodeUnitsByNodeIDHandler :: "header_map \<Rightarrow> MonitoringResponse \<Rightarrow> string \<Rightarrow> served" where
  "getNodeUnitsByNodeIDHandler h mr nodeid = query_reply h PUnits (GetNodeUnitsID mr nodeid)"

definition getNodeUnitByNodeIDUnitIDHandler :: "header_map \<Rightarrow> MonitoringResponse \<Rightarrow> string \<Rightarrow> string \<Rightarrow> served" where
  "getNodeUnitByNodeIDUnitIDHandler h mr nodeid unitid = query_reply h PUnitValues (GetNodeUnitByNodeIDUnitID mr nodeid unitid)"

section \<open>Handlers of the legacy bundles\<close>

definition deleteBundleHandler ::
  "job_env \<Rightarrow> Node list result \<Rightarrow> header_map \<Rightarrow> string \<Rightarrow> DiagnosticsJob \<Rightarrow> world \<Rightarrow> served \<times> DiagnosticsJob \<times> world" where
  "deleteBundleHandler env masters h file j w =
     (case dj_delete env masters file j w of (((r, err), j1), w1) \<Rightarrow> (writeResponse h r, j1, w1))"

definition diagnosticsJobStatusHandler :: "job_env \<Rightarrow> header_map \<Rightarrow> DiagnosticsJob \<Rightarrow> served" where
  "diagnosticsJobStatusHandler env h j = json_reply h (PStatus (getBundleReportStatus env j))"

definition unavailable :: "header_map \<Rightarrow> string \<Rightarrow> served" where
  "unavailable h e = writeResponse h (fst (prepareResponseWithErr StatusServiceUnavailable (Some e)))"

definition diagnosticsJobStatusAllHandler ::
  "job_env \<Rightarrow> Node list result \<Rightarrow> string result \<Rightarrow> header_map \<Rightarrow> DiagnosticsJob \<Rightarrow> served" where
  "diagnosticsJobStatusAllHandler env masters ip h j =
     (case getStatusAll env masters ip j of Inl e \<Rightarrow> unavailable h e | Inr sts \<Rightarrow> json_reply h (PStatuses sts))"

definition cancelBundleReportHandler ::
  "job_env \<Rightarrow> string result \<Rightarrow> Node list result \<Rightarrow> string result \<Rightarrow> header_map \<Rightarrow> DiagnosticsJob \<Rightarrow> served \<times> DiagnosticsJob" where
  "cancelBundleReportHandler env role masters ip h j =
     (case dj_cancel env role masters ip j of ((r, err), j1) \<Rightarrow> (writeResponse h r, j1))"

definition listAvailableGLobalBundlesFilesHandler :: "job_env \<Rightarrow> Config \<Rightarrow> Node list result \<Rightarrow> header_map \<Rightarrow> served" where
  "listAvailableGLobalBundlesFilesHandler env cfg masters h =
     (case listAllBundles env cfg masters of Inl e \<Rightarrow> unavailable h e | Inr bs \<Rightarrow> json_reply h (PAllBundles bs))"

fun local_bundles :: "string list \<Rightarrow> world \<Rightarrow> bundle_file list \<times> world" where
  "local_bundles [] w = ([], w)"
| "local_bundles (f # fs) w =
     (case sys_stat f w of
        (StatOk n, w1) \<Rightarrow>
          (case local_bundles fs w1 of
             (bs, w2) \<Rightarrow>
               (\<lparr>bf_File = msg [baseRoute, ''/report/diagnostics/serve/'', base_name f], bf_Size = inode_size w n\<rparr> # bs, w2))
      | (st, w1) \<Rightarrow> local_bundles fs w1)"

definition listAvailableLocalBundlesFilesHandler :: "header_map \<Rightarrow> DiagnosticsJob \<Rightarrow> world \<Rightarrow> served \<times> world" where
  "listAvailableLocalBundlesFilesHandler h j w =
     (case findLocalBundle j w of
        (matches, w1) \<Rightarrow> (case local_bundles matches w1 of (bs, w2) \<Rightarrow> (json_reply h (PBundles bs), w2)))"

text \<open>\<^verbatim>\<open>http.ServeFile\<close> with the headers set so far; a directory is not served here, since the names it is called with
  are those of bundles.\<close>

definition of_outcome :: "header_map \<Rightarrow> outcome \<Rightarrow> served" where
  "of_outcome h out =
     (case out of
        Panic e \<Rightarrow> Panicked e
      | Respond r \<Rightarrow>
          (let h1 = fold (\<lambda>(k, v). header_Add k v) (rheaders r) h in
           case rbody r of
             PlainBody s \<Rightarrow>
               Reply \<lparr>rp_code = rcode r,
                      rp_headers = header_Set ''X-Content-Type-Options'' ''nosniff''
                        (header_Set ''Content-Type'' ''text/plain; charset=utf-8'' h1),
                      rp_body = PText s\<rparr>
           | FileBody b \<Rightarrow> Reply \<lparr>rp_code = rcode r, rp_headers = h1, rp_body = PFile b\<rparr>
           | b \<Rightarrow> Reply \<lparr>rp_code = rcode r, rp_headers = h1, rp_body = PBundleApi b\<rparr>))"

definition downloadBundleHandler ::
  "job_env \<Rightarrow> Node list result \<Rightarrow> header_map \<Rightarrow> string \<Rightarrow> DiagnosticsJob \<Rightarrow> world \<Rightarrow> served \<times> world" where
  "downloadBundleHandler env masters h file j w =
     (case isBundleAvailable env masters file j w of
        (Inl e, w1) \<Rightarrow> (httpError h e StatusInternalServerError, w1)
      | (Inr (node, location, False), w1) \<Rightarrow> (httpError h ''404 page not found'' StatusNotFound, w1)
      | (Inr (node, location, True), w1) \<Rightarrow>
          (let serveFile = msg [FlagDiagnosticsBundleDir (dj_Cfg j), ''/'', file] in
           case sys_stat serveFile w1 of
             (StatOk n, w2) \<Rightarrow>
               (case serve_file [(''Content-disposition'', msg [''attachment; filename='', file])] serveFile w2 of
                  (out, w3) \<Rightarrow> (of_outcome h out, w3))
           | (st, w2) \<Rightarrow>
               (Proxied (if FlagForceTLS (dj_Cfg j) then ''https'' else ''http'')
                  (msg [node, '':'', itoa (FlagMasterPort (dj_Cfg j))]) location, w2)))"

text \<open>The decoded body of the request is the list of nodes.\<close>

definition createBundleHandler ::
  "job_env \<Rightarrow> string result \<Rightarrow> Node list result \<Rightarrow> string result \<Rightarrow> Node list result \<Rightarrow> Node list result \<Rightarrow> header_map \<Rightarrow>
     string list result \<Rightarrow> DiagnosticsJob \<Rightarrow> world \<Rightarrow> served \<times> DiagnosticsJob \<times> world \<times> Node list option" where
  "createBundleHandler env role statusMasters ip masters agents h req j w =
     (case req of
        Inl e \<Rightarrow> (writeResponse h (fst (prepareResponseWithErr StatusBadRequest (Some e))), j, w, None)
      | Inr nodes \<Rightarrow>
          (case dj_run env role statusMasters ip masters agents nodes j w of
             ((r, err), j1, w1, st) \<Rightarrow> (writeCreateResponse h r, j1, w1, st)))"

definition logsListHandler :: "Config \<Rightarrow> logProviders \<Rightarrow> string result \<Rightarrow> header_map \<Rightarrow> served" where
  "logsListHandler cfg lp role h =
     (case getLogsEndpoints cfg lp role of Inl e \<Rightarrow> unavailable h e | Inr eps \<Rightarrow> json_reply h (PEndpoints eps))"

text \<open>A read error while the log is copied is written behind what was copied; the code stays 200.\<close>

definition getUnitLogHandler ::
  "provider_env \<Rightarrow> collect_env \<Rightarrow> Config \<Rightarrow> logProviders \<Rightarrow> string result \<Rightarrow> header_map \<Rightarrow> string \<Rightarrow> string \<Rightarrow> served" where
  "getUnitLogHandler env ce cfg lp role h provider entity =
     (case dispatchLogs env ce cfg lp role provider entity of
        CollectPanic e \<Rightarrow> Panicked e
      | Collected rc (Some e) \<Rightarrow> unavailable h e
      | Collected None None \<Rightarrow> Panicked nil_deref
      | Collected (Some (out, rerr)) None \<Rightarrow>
          json_reply h (PText (out @ (case rerr of
              None \<Rightarrow> []
            | Some e \<Rightarrow> msg [''Error writing unit log of '', entity, '': '', e, [CHR 0x0A]]))))"

section \<open>Facts about headers and codes\<close>

lemma header_values_Set [simp]:
  "header_values (header_Set k v h) k' = (if canonical k' = canonical k then [v] else header_values h k')"
  by (simp add: header_values_def header_Set_def update_conv')

lemma header_values_Add [simp]:
  "header_values (header_Add k v h) k' = (if canonical k' = canonical k then header_values h k @ [v] else header_values h k')"
  by (auto simp: header_values_def header_Add_def update_conv')

lemma write_code_ok: "100 \<le> c \<Longrightarrow> c \<le> 999 \<Longrightarrow> write_code c h p = Reply \<lparr>rp_code = c, rp_headers = h, rp_body = p\<rparr>"
  by (simp add: write_code_def)

lemma dj_run_code:
  assumes "dj_run env role sm ip masters agents nodes j w = ((r, err), j', w', st)"
  shows "rr_ResponseCode r \<in> {200, 400, 409, 503} \<and> (rr_ResponseCode r = 200 \<longleftrightarrow> st \<noteq> None)"
proof (cases st)
  case None
  then show ?thesis
    using assms
    by (auto simp: dj_run_def refuse_def prepareCreateResponseWithErr_def Let_def dest: start_job_nodes
        split: sum.splits if_splits prod.splits stat_result.splits option.splits bool.splits)
next
  case (Some ns)
  then obtain w1 where "start_job env ns j w1 = ((r, err), j', w', Some ns)" using dj_run_started assms by blast
  then show ?thesis using Some by (auto simp: start_job_def Let_def simp del: join.simps split: prod.splits)
qed

section \<open>Properties\<close>

text \<open>
  C40. The answer to a create request is truthful on the wire. Whatever the body of the request, the tools and the file
  system give, the handler replies (it never panics) with one of the codes 200, 400, 409 and 503, and with 200
  exactly when a background job was started.
\<close>

theorem create_handler_replies:
  "\<exists>r j' w' st. createBundleHandler env role sm ip masters agents h req j w = (Reply r, j', w', st) \<and>
     rp_headers r = h \<and> rp_code r \<in> {200, 400, 409, 503} \<and> (rp_code r = 200 \<longleftrightarrow> st \<noteq> None)"
proof (cases req)
  case (Inl e)
  then show ?thesis
    by (simp add: createBundleHandler_def prepareResponseWithErr_def writeResponse_def write_code_def)
next
  case (Inr nodes)
  obtain r err j' w' st where run: "dj_run env role sm ip masters agents nodes j w = ((r, err), j', w', st)"
    by (metis prod.exhaust)
  then have "rr_ResponseCode r \<in> {200, 400, 409, 503}" "rr_ResponseCode r = 200 \<longleftrightarrow> st \<noteq> None"
    using dj_run_code by blast+
  then show ?thesis using Inr run by (auto simp: createBundleHandler_def writeCreateResponse_def write_code_def)
qed

text \<open>
  Cancelling panics when the cluster cannot be asked. If this node's job is not running and the statuses of the
  masters cannot all be had, the handler writes the code of an empty response, 0, at which \<^verbatim>\<open>net/http\<close> panics: the
  caller gets no answer at all instead of the error.
\<close>

theorem cancel_panics:
  assumes "role \<noteq> Inr AgentRole" and "role \<noteq> Inr AgentPublicRole" and "isRunning env masters ip j = Inl e"
  shows "cancelBundleReportHandler env role masters ip h j = (Panicked ''invalid WriteHeader code 0'', j)"
  using assms
  by (simp add: cancelBundleReportHandler_def dj_cancel_def writeResponse_def write_code_def msg_def itoa_def nat_text.simps)

theorem cancel_panics_witness:
  "cancelBundleReportHandler sample_job_env (Inr MasterRole) (Inr []) (Inr ''10.0.0.1'') [] sample_job =
     (Panicked ''invalid WriteHeader code 0'', sample_job)"
proof -
  have "isRunning sample_job_env (Inr []) (Inr ''10.0.0.1'') sample_job = Inl ''could not find any master''" by code_simp
  then show ?thesis by (intro cancel_panics) (simp_all add: MasterRole_def AgentRole_def AgentPublicRole_def)
qed

lemma base_name_no_slash:
  assumes "base_name p \<noteq> [slash]"
  shows "slash \<notin> set (base_name p)"
proof -
  have "slash \<notin> set (last (split_on slash q))" for q by (rule split_on_pieces [OF last_in_set]) simp
  then show ?thesis using assms unfolding base_name_def Let_def by (simp split: if_splits)
qed

lemma bundle_pattern_real: "bundle_pattern (base_name p) \<Longrightarrow> real_comp (base_name p)"
  using base_name_no_slash [of p] by (cases "base_name p = [slash]") (auto simp: bundle_pattern_def has_prefix_def real_comp_def)

lemma findLocalBundle_world: "findLocalBundle j w = (fs, w') \<Longrightarrow> w' = tick w"
  by (auto simp: findLocalBundle_def sys_read_dir_def split: prod.splits sum.splits)

lemma findLocalBundle_real:
  assumes "findLocalBundle j w = (fs, w')" and "f \<in> set fs"
  obtains c where "f = join [FlagDiagnosticsBundleDir (dj_Cfg j), c]" and "real_comp c"
proof -
  from assms obtain es c n where "sys_read_dir (FlagDiagnosticsBundleDir (dj_Cfg j)) w = (Inr es, w')"
    and e: "(c, n) \<in> set es" "bundle_pattern c" "f = join [FlagDiagnosticsBundleDir (dj_Cfg j), c]"
    by (auto simp: findLocalBundle_def simp del: join.simps split: prod.splits sum.splits)
  then have "\<exists>p. c = base_name p" by (auto simp: sys_read_dir_def dir_entries_def split: option.splits if_splits)
  then show ?thesis using that e(2,3) bundle_pattern_real by auto
qed

lemma local_bundles_from:
  "calm w \<Longrightarrow> local_bundles fs w = (bs, w') \<Longrightarrow> b \<in> set bs \<Longrightarrow>
   \<exists>f\<in>set fs. \<exists>n. fs_get w f = Some n \<and> b = \<lparr>bf_File = msg [baseRoute, ''/report/diagnostics/serve/'', base_name f], bf_Size = inode_size w n\<rparr>"
proof (induction fs arbitrary: w bs)
  case (Cons f fs)
  obtain cs where l: "local_bundles fs (tick w) = (cs, w')" "b \<in> set cs \<or>
      (\<exists>n. fs_get w f = Some n \<and> b = \<lparr>bf_File = msg [baseRoute, ''/report/diagnostics/serve/'', base_name f], bf_Size = inode_size w n\<rparr>)"
    using Cons.prems by (auto simp: stat_calm split: option.splits prod.splits)
  then show ?case using Cons.IH [of "tick w"] Cons.prems(1) by fastforce
qed simp

text \<open>
  C27. What is listed can be downloaded. Without faults, every bundle in the local listing is named by a path of the serving
  route, and a request for that file, with the same state of the job, is answered with 200, the file's contents, which have the
  listed size, and the file's name in the disposition header.
\<close>

theorem listed_bundle_downloads:
  assumes "calm w" and "d = FlagDiagnosticsBundleDir (dj_Cfg j)" and "clean d = d" and "rooted d" and "path_comps d \<noteq> []"
    and "listAvailableLocalBundlesFilesHandler h j w = (json_reply h (PBundles bs), w1)" and "b \<in> set bs"
    and "\<nexists>f. fs_get w f = Some Dir \<and> bf_File b = msg [baseRoute, ''/report/diagnostics/serve/'', base_name f]"
  shows "\<exists>file c r w2. bf_File b = msg [baseRoute, ''/report/diagnostics/serve/'', file] \<and>
    downloadBundleHandler env masters h' file j w = (Reply r, w2) \<and> rp_code r = 200 \<and> rp_body r = PFile c \<and>
    bf_Size b = int (length (encode w c)) \<and> last (header_values (rp_headers r) ''Content-Disposition'') = msg [''attachment; filename='', file]"
proof -
  obtain fs where fl: "findLocalBundle j w = (fs, tick w)"
    using findLocalBundle_world by (metis prod.exhaust)
  then have "local_bundles fs (tick w) = (bs, w1)"
    using assms(6) by (auto simp: listAvailableLocalBundlesFilesHandler_def json_reply_def split: prod.splits)
  then obtain f n where f: "f \<in> set fs" "fs_get w f = Some n"
    "b = \<lparr>bf_File = msg [baseRoute, ''/report/diagnostics/serve/'', base_name f], bf_Size = inode_size w n\<rparr>"
    using local_bundles_from [of "tick w"] assms(1,7) by fastforce
  obtain fn where fn: "f = join [d, fn]" "real_comp fn" using findLocalBundle_real [OF fl f(1)] assms(2) by auto
  have bn: "base_name f = fn" using fn base_name_join [of fn d] by (simp del: join.simps)
  have path: "msg [d, ''/'', fn] = f" using fn join_plain [OF assms(3-5) fn(2)] by (simp add: msg_def del: join.simps)
  obtain c where c: "n = File c" using f assms(8) by (cases n) auto
  have "isBundleAvailable env masters fn j w = (Inr ([], [], True), tick w)"
    using fl f(1) bn by (auto simp: isBundleAvailable_def)
  then have "downloadBundleHandler env masters h' fn j w =
      (of_outcome h' (Respond \<lparr>rcode = 200, rheaders = [(''Content-disposition'', msg [''attachment; filename='', fn])], rbody = FileBody c\<rparr>),
       tick (tick (tick w)))"
    using path f(2) c assms(1,2) by (simp add: downloadBundleHandler_def Let_def stat_calm serve_file_def calm_failing)
  moreover have "canonical ''Content-Disposition'' = canonical ''Content-disposition''" by code_simp
  ultimately show ?thesis using f(3) bn c
    by (intro exI [of _ fn] exI [of _ c]) (simp add: of_outcome_def)
qed

theorem listed_bundle_downloads_witness:
  "\<exists>file c r w2. ''/system/health/v1/report/diagnostics/serve/bundle-1.zip'' = msg [baseRoute, ''/report/diagnostics/serve/'', file] \<and>
    downloadBundleHandler sample_job_env (Inr []) [] file sample_job
      (sample_world [(''/b'', Dir), (''/b/bundle-1.zip'', File (Bytes ''zip''))]) = (Reply r, w2) \<and> rp_code r = 200 \<and> rp_body r = PFile c"
proof -
  let ?w = "sample_world [(''/b'', Dir), (''/b/bundle-1.zip'', File (Bytes ''zip''))]"
  let ?b = "\<lparr>bf_File = ''/system/health/v1/report/diagnostics/serve/bundle-1.zip'', bf_Size = 3\<rparr>"
  have c: "calm ?w" by (simp add: calm_def sample_world_def)
  have d: "''/b'' = FlagDiagnosticsBundleDir (dj_Cfg sample_job)" "clean ''/b'' = ''/b''" "rooted ''/b''" "path_comps ''/b'' \<noteq> []"
    and l: "fst (listAvailableLocalBundlesFilesHandler [] sample_job ?w) = json_reply [] (PBundles [?b])" by code_simp+
  then obtain w1 where l: "listAvailableLocalBundlesFilesHandler [] sample_job ?w = (json_reply [] (PBundles [?b]), w1)"
    by (metis prod.collapse)
  have n: "\<nexists>f. fs_get ?w f = Some Dir \<and> bf_File ?b = msg [baseRoute, ''/report/diagnostics/serve/'', base_name f]"
  proof
    assume "\<exists>f. fs_get ?w f = Some Dir \<and> bf_File ?b = msg [baseRoute, ''/report/diagnostics/serve/'', base_name f]"
    then obtain f where f: "fs_get ?w f = Some Dir" "bf_File ?b = msg [baseRoute, ''/report/diagnostics/serve/'', base_name f]" by blast
    then have "f = ''/b''" by (auto simp: sample_world_def fs_get_def split: if_splits)
    moreover have "base_name ''/b'' = ''b''" by code_simp
    ultimately show False using f(2) by (simp add: msg_def baseRoute_def)
  qed
  from listed_bundle_downloads [OF c d l _ n, of sample_job_env "Inr []" "[]"] show ?thesis by auto
qed

end
