(* ===== verification/Router.thy ===== *)
theory Router
  imports Handlers
begin

text \<open>
  The routes of the daemon, \<^verbatim>\<open>api/router.go\<close>: the table, the way the router of \<^verbatim>\<open>gorilla/mux\<close> picks a route
  (vendored under \<^verbatim>\<open>vendor/github.com/gorilla/mux\<close>), and the middleware around each handler, with
  \<^verbatim>\<open>api/metrics_middleware.go\<close>.
\<close>

section \<open>The table of routes\<close>

record header =
  hd_name :: string
  hd_value :: string

text \<open>The handlers by their names in the source.\<close>

datatype endpoint =
    EP_unitsHealthStatus | EP_reportHandler | EP_getAllUnitsHandler | EP_getUnitByIDHandler | EP_getNodesByUnitIDHandler
  | EP_getNodeByUnitIDNodeIDHandler | EP_getNodesHandler | EP_getNodeByIDHandler | EP_getNodeUnitsByNodeIDHandler
  | EP_getNodeUnitByNodeIDUnitIDHandler | EP_logsListHandler | EP_getUnitLogHandler
  | EP_bh_Create | EP_bh_Delete | EP_bh_List | EP_bh_Get | EP_bh_GetFile
  | EP_cbh_Create | EP_cbh_Delete | EP_cbh_List | EP_cbh_Status | EP_cbh_Download
  | EP_createBundleHandler | EP_cancelBundleReportHandler | EP_diagnosticsJobStatusHandler | EP_diagnosticsJobStatusAllHandler
  | EP_listAvailableLocalBundlesFilesHandler | EP_listAvailableGLobalBundlesFilesHandler | EP_downloadBundleHandler
  | EP_deleteBundleHandler | EP_metrics | EP_pprof string

record routeHandler =
  rh_url :: string
  rh_handler :: endpoint
  rh_headers :: "header list"
  rh_methods :: "string list"
  rh_gzip :: bool
  rh_canFlushCache :: bool

text \<open>A route with the zero values of the other fields.\<close>

definition route :: "string \<Rightarrow> endpoint \<Rightarrow> routeHandler" where
  "route u e = \<lparr>rh_url = u, rh_handler = e, rh_headers = [], rh_methods = [], rh_gzip = False, rh_canFlushCache = False\<rparr>"

definition nodeBundlesEndpoint :: string where "nodeBundlesEndpoint = baseRoute @ ''/node/diagnostics''"
definition nodeBundleEndpoint :: string where "nodeBundleEndpoint = nodeBundlesEndpoint @ ''/{id}''"
definition nodeBundleFileEndpoint :: string where "nodeBundleFileEndpoint = nodeBundleEndpoint @ ''/file''"
definition clusterBundlesEndpoint :: string where "clusterBundlesEndpoint = baseRoute @ ''/diagnostics''"
definition clusterBundleEndpoint :: string where "clusterBundleEndpoint = clusterBundlesEndpoint @ ''/{id}''"
definition clusterBundleFileEndpoint :: string where "clusterBundleFileEndpoint = clusterBundleEndpoint @ ''/file''"

definition html_header :: header where "html_header = \<lparr>hd_name = ''Content-type'', hd_value = ''text/html''\<rparr>"

definition tree_routes :: "routeHandler list" where
  "tree_routes =
     [route baseRoute EP_unitsHealthStatus,
      (route (baseRoute @ ''/report'') EP_reportHandler)\<lparr>rh_canFlushCache := True\<rparr>,
      (route (baseRoute @ ''/report/download'') EP_reportHandler)\<lparr>
         rh_headers := [\<lparr>hd_name = ''Content-disposition'', hd_value = ''attachment; filename=health-report.json''\<rparr>],
         rh_canFlushCache := True\<rparr>,
      (route (baseRoute @ ''/units'') EP_getAllUnitsHandler)\<lparr>rh_canFlushCache := True\<rparr>,
      (route (baseRoute @ ''/units/{unitid}'') EP_getUnitByIDHandler)\<lparr>rh_canFlushCache := True\<rparr>,
      (route (baseRoute @ ''/units/{unitid}/nodes'') EP_getNodesByUnitIDHandler)\<lparr>rh_canFlushCache := True\<rparr>,
      (route (baseRoute @ ''/units/{unitid}/nodes/{nodeid}'') EP_getNodeByUnitIDNodeIDHandler)\<lparr>rh_canFlushCache := True\<rparr>,
      (route (baseRoute @ ''/nodes'') EP_getNodesHandler)\<lparr>rh_canFlushCache := True\<rparr>,
      (route (baseRoute @ ''/nodes/{nodeid}'') EP_getNodeByIDHandler)\<lparr>rh_canFlushCache := True\<rparr>,
      (route (baseRoute @ ''/nodes/{nodeid}/units'') EP_getNodeUnitsByNodeIDHandler)\<lparr>rh_canFlushCache := True\<rparr>,
      (route (baseRoute @ ''/nodes/{nodeid}/units/{unitid}'') EP_getNodeUnitByNodeIDUnitIDHandler)\<lparr>rh_canFlushCache := True\<rparr>]"

definition log_routes :: "routeHandler list" where
  "log_routes =
     [route (baseRoute @ ''/logs'') EP_logsListHandler,
      (route (baseRoute @ ''/logs/{provider}/{entity}'') EP_getUnitLogHandler)\<lparr>rh_headers := [html_header], rh_gzip := True\<rparr>]"

definition node_bundle_routes :: "routeHandler list" where
  "node_bundle_routes =
     [(route nodeBundleEndpoint EP_bh_Create)\<lparr>rh_methods := [''PUT'']\<rparr>,
      (route nodeBundleEndpoint EP_bh_Delete)\<lparr>rh_methods := [''DELETE'']\<rparr>,
      (route nodeBundlesEndpoint EP_bh_List)\<lparr>rh_methods := [''GET'']\<rparr>,
      (route nodeBundleEndpoint EP_bh_Get)\<lparr>rh_methods := [''GET'']\<rparr>,
      (route nodeBundleFileEndpoint EP_bh_GetFile)\<lparr>rh_methods := [''GET'']\<rparr>]"

definition cluster_bundle_routes :: "routeHandler list" where
  "cluster_bundle_routes =
     [(route clusterBundleEndpoint EP_cbh_Create)\<lparr>rh_methods := [''PUT'']\<rparr>,
      (route clusterBundleEndpoint EP_cbh_Delete)\<lparr>rh_methods := [''DELETE'']\<rparr>,
      (route clusterBundlesEndpoint EP_cbh_List)\<lparr>rh_methods := [''GET'']\<rparr>,
      (route clusterBundleEndpoint EP_cbh_Status)\<lparr>rh_methods := [''GET'']\<rparr>,
      (route clusterBundleFileEndpoint EP_cbh_Download)\<lparr>rh_methods := [''GET'']\<rparr>]"

definition legacy_routes :: "routeHandler list" where
  "legacy_routes =
     [(route (baseRoute @ ''/report/diagnostics/create'') EP_createBundleHandler)\<lparr>rh_methods := [''POST'']\<rparr>,
      (route (baseRoute @ ''/report/diagnostics/cancel'') EP_cancelBundleReportHandler)\<lparr>rh_methods := [''POST'']\<rparr>,
      route (baseRoute @ ''/report/diagnostics/status'') EP_diagnosticsJobStatusHandler,
      route (baseRoute @ ''/report/diagnostics/status/all'') EP_diagnosticsJobStatusAllHandler,
      route (baseRoute @ ''/report/diagnostics/list'') EP_listAvailableLocalBundlesFilesHandler,
      route (baseRoute @ ''/report/diagnostics/list/all'') EP_listAvailableGLobalBundlesFilesHandler,
      (route (baseRoute @ ''/report/diagnostics/serve/{file}'') EP_downloadBundleHandler)\<lparr>
         rh_headers := [\<lparr>hd_name = ''Content-type'', hd_value = ''application/octet-stream''\<rparr>]\<rparr>,
      (route (baseRoute @ ''/report/diagnostics/delete/{file}'') EP_deleteBundleHandler)\<lparr>rh_methods := [''POST'']\<rparr>,
      route ''/metrics'' EP_metrics]"

definition debug_routes :: "routeHandler list" where
  "debug_routes =
     map (\<lambda>(u, p). (route (baseRoute @ ''/debug/pprof/'' @ u) (EP_pprof p))\<lparr>rh_gzip := True, rh_headers := [html_header]\<rparr>)
       [([], ''Index''), (''cmdline'', ''Cmdline''), (''profile'', ''Profile''), (''symbol'', ''Symbol''), (''trace'', ''Trace''),
        (''{profile}'', ''Handler'')]"

definition getRoutes :: "Config \<Rightarrow> routeHandler list" where
  "getRoutes cfg =
     tree_routes @ log_routes @ node_bundle_routes @ cluster_bundle_routes @ legacy_routes @
     (if FlagDebug cfg then debug_routes else [])"

definition loadRoutes :: "Config \<Rightarrow> routeHandler list" where
  "loadRoutes cfg = map (\<lambda>r. if length (rh_methods r) = 0 then r\<lparr>rh_methods := [''GET'']\<rparr> else r) (getRoutes cfg)"

section \<open>Matching\<close>

text \<open>
  A template is matched segment by segment: a variable \<^verbatim>\<open>{name}\<close> stands for the pattern \<^verbatim>\<open>[^/]+\<close>, everything else for
  itself, and with \<^verbatim>\<open>StrictSlash\<close> the template's last slash is dropped and the path may have one more at its end.
\<close>

datatype seg = Lit string | Var string

definition parse_seg :: "string \<Rightarrow> seg" where
  "parse_seg s = (if s \<noteq> [] \<and> hd s = CHR ''{'' \<and> last s = CHR ''}'' then Var (butlast (tl s)) else Lit s)"

definition template_segs :: "string \<Rightarrow> seg list" where
  "template_segs url = map parse_seg (split_on slash (trim_suffix url [slash]))"

fun match_segs :: "seg list \<Rightarrow> string list \<Rightarrow> (string \<times> string) list option" where
  "match_segs [] [] = Some []"
| "match_segs (Lit l # ss) (p # ps) = (if l = p then match_segs ss ps else None)"
| "match_segs (Var v # ss) (p # ps) = (if p \<noteq> [] then map_option (Cons (v, p)) (match_segs ss ps) else None)"
| "match_segs _ _ = None"

definition match_path :: "string \<Rightarrow> string \<Rightarrow> (string \<times> string) list option" where
  "match_path url path =
     (case match_segs (template_segs url) (split_on slash path) of
        Some vs \<Rightarrow> Some vs
      | None \<Rightarrow> if has_suffix path [slash] then match_segs (template_segs url) (split_on slash (butlast path)) else None)"

text \<open>The loop of \<^verbatim>\<open>Router.Match\<close>: the first route that fits path and method; \<open>mismatch\<close> says whether a route fitted
  the path only.\<close>

datatype routed = Matched routeHandler "(string \<times> string) list" | ErrMethodMismatch | ErrNotFound

fun router_Match :: "routeHandler list \<Rightarrow> string \<Rightarrow> string \<Rightarrow> bool \<Rightarrow> routed" where
  "router_Match [] m path mismatch = (if mismatch then ErrMethodMismatch else ErrNotFound)"
| "router_Match (r # rs) m path mismatch =
     (case match_path (rh_url r) path of
        None \<Rightarrow> router_Match rs m path mismatch
      | Some vs \<Rightarrow> if m \<in> set (rh_methods r) then Matched r vs else router_Match rs m path True)"

definition cleanPath :: "string \<Rightarrow> string" where
  "cleanPath p =
     (if p = [] then [slash]
      else
        (let p1 = (if hd p \<noteq> slash then slash # p else p);
             np = clean p1
         in if last p1 = slash \<and> np \<noteq> [slash] then np @ [slash] else np))"

datatype dispatched = Redirect string | MethodNotAllowed | NotFound | Serve routeHandler "(string \<times> string) list"

definition dispatch :: "Config \<Rightarrow> string \<Rightarrow> string \<Rightarrow> dispatched" where
  "dispatch cfg m path =
     (if cleanPath path \<noteq> path then Redirect (cleanPath path)
      else
        (case router_Match (loadRoutes cfg) m path False of
           ErrMethodMismatch \<Rightarrow> MethodNotAllowed
         | ErrNotFound \<Rightarrow> NotFound
         | Matched r vs \<Rightarrow>
             if has_suffix path [slash] \<noteq> has_suffix (rh_url r) [slash]
             then Redirect (if has_suffix path [slash] then butlast path else path @ [slash])
             else Serve r vs))"

section \<open>Middleware\<close>

definition headerMiddleware :: "header list \<Rightarrow> header_map \<Rightarrow> header_map" where
  "headerMiddleware hs h =
     (let h1 = fold (\<lambda>x. header_Add (hd_name x) (hd_value x)) hs h
      in if \<exists>x\<in>set hs. hd_name x = ''Content-type'' then h1 else header_Add ''Content-type'' ''application/json'' h1)"

text \<open>\<open>cache\<close> says whether the request has the parameter, \<open>pull\<close> is the tree after the pull it waits for, if that ends
  within the minute.\<close>

definition set_modified :: "(time \<Rightarrow> string) \<Rightarrow> MonitoringResponse \<Rightarrow> header_map \<Rightarrow> header_map" where
  "set_modified ansic mr h =
     (let t = GetLastUpdatedTime ansic mr in if t \<noteq> [] then header_Set ''Last-Modified-3DT'' t h else h)"

definition noCacheMiddleware ::
  "(time \<Rightarrow> string) \<Rightarrow> Config \<Rightarrow> bool \<Rightarrow> MonitoringResponse option \<Rightarrow> (MonitoringResponse \<Rightarrow> header_map \<Rightarrow> served) \<Rightarrow>
     MonitoringResponse \<Rightarrow> header_map \<Rightarrow> served" where
  "noCacheMiddleware ansic cfg cache pull next mr h =
     (if \<not> cache then next mr (set_modified ansic mr h)
      else if \<not> FlagPull cfg then httpError h ''dcos-diagnostics was not started with -pull flag'' StatusServiceUnavailable
      else
        (case pull of
           None \<Rightarrow> Panicked ''Error getting fresh health report''
         | Some mr1 \<Rightarrow> next mr1 (set_modified ansic mr1 h)))"

text \<open>Compression changes the encoding of the body on the wire only; it is not part of the model.\<close>

definition wrapHandler ::
  "(time \<Rightarrow> string) \<Rightarrow> Config \<Rightarrow> bool \<Rightarrow> MonitoringResponse option \<Rightarrow> routeHandler \<Rightarrow> (MonitoringResponse \<Rightarrow> header_map \<Rightarrow> served) \<Rightarrow>
     MonitoringResponse \<Rightarrow> header_map \<Rightarrow> served" where
  "wrapHandler ansic cfg cache pull r handler =
     (let h = (\<lambda>mr hs. handler mr (headerMiddleware (rh_headers r) hs))
      in if rh_canFlushCache r then noCacheMiddleware ansic cfg cache pull h else h)"

section \<open>The metrics middleware\<close>

text \<open>What a handler does with its writer; \<open>wr_sent\<close> is the code that went to the client, which \<^verbatim>\<open>net/http\<close> fixes at the
  first \<^verbatim>\<open>WriteHeader\<close> or, as 200, at the first \<^verbatim>\<open>Write\<close>.\<close>

datatype writer_op = WriteHeader int | WriteBody string

record interceptor =
  ic_statusCode :: int
  ic_recorded :: bool
  ic_sent :: "int option"

definition new_interceptor :: interceptor where
  "new_interceptor = \<lparr>ic_statusCode = StatusOK, ic_recorded = False, ic_sent = None\<rparr>"

fun intercept :: "writer_op \<Rightarrow> interceptor \<Rightarrow> interceptor" where
  "intercept (WriteHeader code) i =
     (let i1 = (if \<not> ic_recorded i then i\<lparr>ic_statusCode := code, ic_recorded := True\<rparr> else i)
      in i1\<lparr>ic_sent := (case ic_sent i of None \<Rightarrow> Some code | Some c \<Rightarrow> Some c)\<rparr>)"
| "intercept (WriteBody b) i = i\<lparr>ic_sent := (case ic_sent i of None \<Rightarrow> Some StatusOK | Some c \<Rightarrow> Some c)\<rparr>"

text \<open>The labels that are observed and the code the client gets. A handler that panics leaves the middleware before it observes
  anything; a client that has got nothing by then gets no code.\<close>

definition metricMiddleware ::
  "string \<Rightarrow> string \<Rightarrow> writer_op list \<Rightarrow> bool \<Rightarrow> (string \<times> string \<times> string) option \<times> int option" where
  "metricMiddleware method path ops panics =
     (let i = fold intercept ops new_interceptor
      in if panics then (None, ic_sent i)
         else (Some (method, path, itoa (ic_statusCode i)), Some (case ic_sent i of None \<Rightarrow> StatusOK | Some c \<Rightarrow> c)))"

text \<open>Taking over the connection: \<open>outer\<close> is what \<^verbatim>\<open>Hijack\<close> of the wrapped writer gives, if it has that method.\<close>

definition interceptor_Hijack :: "'c result option \<Rightarrow> 'c result" where
  "interceptor_Hijack outer =
     (case outer of
        None \<Rightarrow> Inl (msg [''interceptor: can'', [CHR 0x27], ''t cast parent ResponseWriter to Hijacker''])
      | Some hj \<Rightarrow> hj)"

section \<open>Facts about matching\<close>

fun seg_vars :: "seg list \<Rightarrow> string list" where
  "seg_vars [] = []"
| "seg_vars (Lit l # ss) = seg_vars ss"
| "seg_vars (Var v # ss) = v # seg_vars ss"

fun fill :: "seg list \<Rightarrow> string list \<Rightarrow> string list" where
  "fill (Lit l # ss) vs = l # fill ss vs"
| "fill (Var v # ss) (x # xs) = x # fill ss xs"
| "fill _ _ = []"

text \<open>The path of a template with values for its variables.\<close>

definition route_path :: "string \<Rightarrow> string list \<Rightarrow> string" where
  "route_path url vals = str_join [slash] (fill (template_segs url) vals)"

abbreviation template_vars :: "string \<Rightarrow> string list" where
  "template_vars url \<equiv> seg_vars (template_segs url)"

lemma match_segs_vars:
  "match_segs ss ps = Some vs \<Longrightarrow> map fst vs = seg_vars ss \<and> fill ss (map snd vs) = ps \<and> (\<forall>kv\<in>set vs. snd kv \<in> set ps \<and> snd kv \<noteq> [])"
  by (induction ss ps arbitrary: vs rule: match_segs.induct) (fastforce split: if_splits)+

lemma match_segs_fill:
  "length vals = length (seg_vars ss) \<Longrightarrow> \<forall>v\<in>set vals. v \<noteq> [] \<Longrightarrow>
     match_segs ss (fill ss vals) = Some (List.zip (seg_vars ss) vals)"
  by (induction ss vals rule: fill.induct) (auto split: list.splits)

text \<open>Templates that a path can match together.\<close>

fun compat :: "seg list \<Rightarrow> seg list \<Rightarrow> bool" where
  "compat [] [] = True"
| "compat (Lit a # ss) (Lit b # ts) = (a = b \<and> compat ss ts)"
| "compat (Lit a # ss) (Var v # ts) = (a \<noteq> [] \<and> compat ss ts)"
| "compat (Var v # ss) (Lit a # ts) = (a \<noteq> [] \<and> compat ss ts)"
| "compat (Var v # ss) (Var u # ts) = compat ss ts"
| "compat _ _ = False"

lemma compat_of_match: "match_segs ss ps = Some a \<Longrightarrow> match_segs ts ps = Some b \<Longrightarrow> compat ss ts"
proof (induction ss ts arbitrary: ps a b rule: compat.induct)
qed (case_tac ps; auto split: if_splits)+

definition route_key :: "routeHandler \<Rightarrow> seg list \<times> string list" where
  "route_key r = (template_segs (rh_url r), rh_methods r)"

definition clash :: "seg list \<times> string list \<Rightarrow> seg list \<times> string list \<Rightarrow> bool" where
  "clash k k' = ((\<exists>m\<in>set (snd k). m \<in> set (snd k')) \<and> compat (fst k) (fst k'))"

fun no_clash :: "(seg list \<times> string list) list \<Rightarrow> bool" where
  "no_clash [] = True"
| "no_clash (k # ks) = (list_all (\<lambda>k'. \<not> clash k k') ks \<and> no_clash ks)"

text \<open>A template of the table: it starts with a slash, does not end with one, and its fixed segments are names.\<close>

definition plain_url :: "string \<Rightarrow> bool" where
  "plain_url url =
     (let ss = tl (template_segs url)
      in \<not> has_suffix url [slash] \<and> template_segs url = Lit [] # ss \<and> ss \<noteq> [] \<and>
         list_all (\<lambda>x. case x of Lit k \<Rightarrow> real_comp k | Var v \<Rightarrow> True) ss)"

lemma table_checked: "no_clash (map route_key (loadRoutes zero_Config))" "list_all (\<lambda>r. plain_url (rh_url r)) (loadRoutes zero_Config)"
  by code_simp+

lemma loadRoutes_plain: "\<not> FlagDebug cfg \<Longrightarrow> loadRoutes cfg = loadRoutes zero_Config"
  by (simp add: loadRoutes_def getRoutes_def zero_Config_def)

lemma match_path_plain: "\<not> has_suffix path [slash] \<Longrightarrow> match_path url path = match_segs (template_segs url) (split_on slash path)"
  by (simp add: match_path_def split: option.splits)

lemma router_Match_found:
  assumes "no_clash (map route_key rs)" and "r \<in> set rs" and "m \<in> set (rh_methods r)" and "\<not> has_suffix path [slash]"
    and "match_path (rh_url r) path = Some vs"
  shows "router_Match rs m path mm = Matched r vs"
  using assms(1,2)
proof (induction rs arbitrary: mm)
  case (Cons r0 rs)
  show ?case
  proof (cases "r0 = r")
    case True
    then show ?thesis using assms(3,5) by simp
  next
    case False
    then have r: "r \<in> set rs" "\<not> clash (route_key r0) (route_key r)" using Cons.prems by (auto simp: list_all_iff)
    have "m \<notin> set (rh_methods r0)" if "match_path (rh_url r0) path = Some us" for us
      using that r(2) assms(3,5) by (auto simp: clash_def route_key_def match_path_plain [OF assms(4)] dest: compat_of_match)
    then show ?thesis using Cons r(1) by (auto split: option.splits)
  qed
qed simp

lemma router_Match_sound:
  "router_Match rs m path mm = Matched r vs \<Longrightarrow> r \<in> set rs \<and> m \<in> set (rh_methods r) \<and> match_path (rh_url r) path = Some vs"
  by (induction rs arbitrary: mm) (auto split: option.splits if_splits)

section \<open>Clean paths\<close>

lemma no_trailing_slash:
  assumes "cs \<noteq> []" and "\<forall>c\<in>set cs. real_comp c"
  shows "\<not> has_suffix (render True cs) [slash]" and "last (render True cs) \<noteq> slash"
proof -
  obtain bs c where cs: "cs = bs @ [c]" using assms(1) by (metis rev_exhaust)
  then have "real_comp c" using assms(2) by simp
  then have c: "c \<noteq> []" "last c \<noteq> slash" by (auto simp: real_comp_def dest: last_in_set)
  have "\<exists>a. render True cs = a @ c" using cs by (cases "bs = []") (auto simp: render_def str_join_snoc)
  then obtain a where a: "render True cs = a @ c" by blast
  then show l: "last (render True cs) \<noteq> slash" using c by simp
  show "\<not> has_suffix (render True cs) [slash]"
  proof
    assume "has_suffix (render True cs) [slash]"
    then obtain b where "render True cs = b @ [slash]" by (metis has_suffix_def append_take_drop_id)
    then show False using l by simp
  qed
qed

lemma cleanPath_render:
  assumes "cs \<noteq> []" and "\<forall>c\<in>set cs. real_comp c"
  shows "cleanPath (render True cs) = render True cs"
proof -
  have "cleaned True cs" using assms(2) by (simp add: cleaned_def)
  then have "clean (render True cs) = render True cs" using path_comps_render [of True cs] assms(1) by (simp add: clean_def)
  then show ?thesis using no_trailing_slash [OF assms] by (simp add: cleanPath_def render_def)
qed

lemma split_render: "cs \<noteq> [] \<Longrightarrow> \<forall>c\<in>set cs. real_comp c \<Longrightarrow> split_on slash (render True cs) = [] # cs"
  by (simp add: render_def split_on_str_join real_comp_def)

lemma cleanPath_fixed:
  assumes "cleanPath p = p"
  shows "rooted p" and "p = clean p \<or> p = clean p @ [slash]"
proof -
  have c: "\<exists>q. clean (slash # x) = slash # q" for x by (simp add: clean_def render_def rooted_def)
  have ne: "p \<noteq> []" using assms by (auto simp: cleanPath_def)
  have "hd p = slash"
  proof (rule ccontr)
    assume n: "hd p \<noteq> slash"
    obtain q where "clean (slash # p) = slash # q" using c by blast
    then show False using assms n ne by (auto simp: cleanPath_def Let_def split: if_splits)
  qed
  then show "rooted p" "p = clean p \<or> p = clean p @ [slash]"
    using assms ne by (auto simp: cleanPath_def Let_def rooted_def split: if_splits list.splits)
qed

text \<open>The pieces of a clean path are empty or names.\<close>

lemma cleanPath_pieces:
  assumes "cleanPath p = p" and "c \<in> set (split_on slash p)"
  shows "c = [] \<or> real_comp c"
proof -
  have r: "\<forall>c\<in>set (path_comps p). real_comp c"
    using path_comps_cleaned [of p] cleanPath_fixed(1) [OF assms(1)] cleaned_no_root_up by simp
  have s: "set (split_on slash (clean p)) \<subseteq> {[]} \<union> set (path_comps p)"
  proof (cases "path_comps p = []")
    case True
    then show ?thesis using cleanPath_fixed(1) [OF assms(1)] by (simp add: clean_def render_def)
  next
    case False
    then show ?thesis using split_render [OF False r] cleanPath_fixed(1) [OF assms(1)] by (simp add: clean_def)
  qed
  have "split_on slash (clean p @ [slash]) = split_on slash (clean p) @ [[]]" using split_on_append [of slash "clean p" "[]"] by simp
  then show ?thesis using cleanPath_fixed(2) [OF assms(1)] s r assms(2) by auto
qed

lemma dispatch_Serve:
  assumes "dispatch cfg m p = Serve r vs"
  shows "cleanPath p = p" "r \<in> set (loadRoutes cfg)" "m \<in> set (rh_methods r)" "match_path (rh_url r) p = Some vs"
    and "has_suffix p [slash] = has_suffix (rh_url r) [slash]"
  using assms router_Match_sound [of "loadRoutes cfg" m p False r vs]
  by (auto simp: dispatch_def split: routed.splits if_splits)

lemma match_path_segs: "match_path url p = Some vs \<Longrightarrow> \<exists>ps. match_segs (template_segs url) ps = Some vs"
  by (auto simp: match_path_def split: option.splits if_splits)

lemma dispatch_vars_names:
  assumes "dispatch cfg m p = Serve r vs"
  shows "map fst vs = template_vars (rh_url r)"
  using match_path_segs [OF dispatch_Serve(4) [OF assms]] match_segs_vars by blast

text \<open>What a handler gets from the path is a name: not empty, without a slash, neither \<^verbatim>\<open>.\<close> nor \<^verbatim>\<open>..\<close>.\<close>

lemma dispatch_vars:
  assumes "dispatch cfg m p = Serve r vs" and "(k, v) \<in> set vs"
  shows "real_comp v"
proof -
  have "v \<in> set (split_on slash p) \<and> v \<noteq> []"
  proof (cases "match_segs (template_segs (rh_url r)) (split_on slash p)")
    case (Some us)
    then show ?thesis using dispatch_Serve(4) [OF assms(1)] match_segs_vars [OF Some] assms(2) by (force simp: match_path_def)
  next
    case None
    then have b: "has_suffix p [slash]" "match_segs (template_segs (rh_url r)) (split_on slash (butlast p)) = Some vs"
      using dispatch_Serve(4) [OF assms(1)] by (auto simp: match_path_def split: if_splits)
    then obtain q where "p = q @ [slash]" by (metis has_suffix_def append_take_drop_id)
    then show ?thesis using match_segs_vars [OF b(2)] assms(2) split_on_append [of slash q "[]"] by force
  qed
  then show ?thesis using cleanPath_pieces [OF dispatch_Serve(1) [OF assms(1)]] by blast
qed

section \<open>Properties\<close>

lemma real_fill:
  assumes "list_all (\<lambda>x. case x of Lit k \<Rightarrow> real_comp k | Var v \<Rightarrow> True) ss" and "\<forall>v\<in>set vals. real_comp v"
  shows "\<forall>c\<in>set (fill ss vals). real_comp c"
  using assms by (induction ss vals rule: fill.induct) auto

lemma fill_not_Nil: "length vals = length (seg_vars ss) \<Longrightarrow> ss \<noteq> [] \<Longrightarrow> fill ss vals \<noteq> []"
  by (cases "(ss, vals)" rule: fill.cases) auto

lemma plain_route_path:
  assumes "plain_url url" and "\<forall>v\<in>set vals. real_comp v" and "length vals = length (template_vars url)"
  obtains cs where "cs \<noteq> []" and "\<forall>c\<in>set cs. real_comp c" and "route_path url vals = render True cs"
    and "fill (template_segs url) vals = [] # cs"
proof -
  let ?ss = "tl (template_segs url)"
  have t: "template_segs url = Lit [] # ?ss" and n: "?ss \<noteq> []" and k: "list_all (\<lambda>x. case x of Lit k \<Rightarrow> real_comp k | Var v \<Rightarrow> True) ?ss"
    using assms(1) by (simp_all add: plain_url_def Let_def)
  let ?cs = "fill ?ss vals"
  have f: "fill (template_segs url) vals = [] # ?cs" by (subst t) simp
  have "length vals = length (seg_vars ?ss)" using assms(3) by (subst (asm) t) simp
  then have ne: "?cs \<noteq> []" using n by (rule fill_not_Nil)
  have "\<forall>c\<in>set ?cs. real_comp c" using real_fill [OF k assms(2)] by simp
  moreover have "route_path url vals = render True ?cs" using ne by (simp add: route_path_def f render_def str_join_Cons)
  ultimately show ?thesis using that [of ?cs] ne f by blast
qed

text \<open>A filled template reaches its route.\<close>

lemma dispatch_route_path:
  assumes "\<not> FlagDebug cfg" and r: "r \<in> set (loadRoutes cfg)" "m \<in> set (rh_methods r)"
    and v: "\<forall>v\<in>set vals. real_comp v" "length vals = length (template_vars (rh_url r))"
  shows "dispatch cfg m (route_path (rh_url r) vals) = Serve r (List.zip (template_vars (rh_url r)) vals)"
proof -
  let ?p = "route_path (rh_url r) vals"
  note L = loadRoutes_plain [OF assms(1)]
  have u: "plain_url (rh_url r)" using r(1) table_checked(2) L by (simp add: list_all_iff)
  obtain cs where cs: "cs \<noteq> []" "\<forall>c\<in>set cs. real_comp c" "?p = render True cs" "fill (template_segs (rh_url r)) vals = [] # cs"
    using plain_route_path [OF u v] by metis
  have ns: "\<not> has_suffix ?p [slash]" using no_trailing_slash(1) [OF cs(1,2)] cs(3) by simp
  have "match_path (rh_url r) ?p = Some (List.zip (template_vars (rh_url r)) vals)"
    using match_path_plain [OF ns] split_render [OF cs(1,2)] cs(3,4) match_segs_fill [OF v(2)] v(1) by (auto simp: real_comp_def)
  then have "router_Match (loadRoutes cfg) m ?p False = Matched r (List.zip (template_vars (rh_url r)) vals)"
    using router_Match_found [OF _ r ns] table_checked(1) L by simp
  then show ?thesis
    using cleanPath_render [OF cs(1,2)] cs(3) ns u by (simp add: dispatch_def plain_url_def Let_def)
qed

text \<open>
  C24. Routing is exact. With the debug endpoints off, a request reaches a handler precisely if its method is one of the
  route's and its path is the route's template with names in place of the variables, where a name is not empty, holds
  no slash and is neither \<^verbatim>\<open>.\<close> nor \<^verbatim>\<open>..\<close>; the handler gets these names. So no route hides another, every route can be
  reached, and no path in a request leads out of the directory that a handler joins a name to.
\<close>

theorem routing_exact:
  assumes "\<not> FlagDebug cfg"
  shows "dispatch cfg m p = Serve r vs \<longleftrightarrow>
    (\<exists>vals. r \<in> set (loadRoutes cfg) \<and> m \<in> set (rh_methods r) \<and> (\<forall>v\<in>set vals. real_comp v) \<and>
       length vals = length (template_vars (rh_url r)) \<and> p = route_path (rh_url r) vals \<and> vs = List.zip (template_vars (rh_url r)) vals)"
    (is "_ \<longleftrightarrow> ?R")
proof
  assume d: "dispatch cfg m p = Serve r vs"
  note D = dispatch_Serve [OF d]
  have "plain_url (rh_url r)" using D(2) table_checked(2) loadRoutes_plain [OF assms] by (simp add: list_all_iff)
  then have ns: "\<not> has_suffix p [slash]" using D(5) by (simp add: plain_url_def Let_def)
  have mv: "match_segs (template_segs (rh_url r)) (split_on slash p) = Some vs" using D(4) match_path_plain [OF ns] by simp
  have "route_path (rh_url r) (map snd vs) = p"
    using match_segs_vars [OF mv] str_join_split_on [of slash p] by (simp add: route_path_def)
  moreover have "vs = List.zip (template_vars (rh_url r)) (map snd vs)" using match_segs_vars [OF mv] by (metis zip_map_fst_snd)
  moreover have "\<forall>v\<in>set (map snd vs). real_comp v" using dispatch_vars [OF d] by auto
  moreover have "length (map snd vs) = length (template_vars (rh_url r))" using match_segs_vars [OF mv] by (metis length_map)
  ultimately show ?R using D(2,3) by metis
next
  assume ?R
  then show "dispatch cfg m p = Serve r vs" using dispatch_route_path [OF assms] by blast
qed

theorem routing_exact_witness:
  "\<exists>r. dispatch zero_Config ''GET'' ''/system/health/v1/node/diagnostics/abc/file'' = Serve r [(''id'', ''abc'')] \<and>
     rh_handler r = EP_bh_GetFile"
proof -
  let ?r = "(route nodeBundleFileEndpoint EP_bh_GetFile)\<lparr>rh_methods := [''GET'']\<rparr>"
  have "?r \<in> set (loadRoutes zero_Config)"
    by (simp add: loadRoutes_def getRoutes_def node_bundle_routes_def)
  moreover have "template_vars (rh_url ?r) = [''id'']" "route_path (rh_url ?r) [''abc''] = ''/system/health/v1/node/diagnostics/abc/file''"
    "real_comp ''abc''" "\<not> FlagDebug zero_Config" by code_simp+
  ultimately have "dispatch zero_Config ''GET'' ''/system/health/v1/node/diagnostics/abc/file'' = Serve ?r [(''id'', ''abc'')]"
    using routing_exact [of zero_Config "''GET''" "''/system/health/v1/node/diagnostics/abc/file''" ?r "[(''id'', ''abc'')]"]
    by (auto simp: exI [of _ "[''abc'']"])
  then show ?thesis by (auto simp: route_def)
qed

text \<open>
  Archives are labelled as JSON. The routes of the two archive downloads set no content type of their own, so the
  middleware has added \<^verbatim>\<open>application/json\<close> before the handler adds the type of an archive: every archive that the node API
  serves carries both types, and a client that reads the header gets the one of JSON.
\<close>

theorem archive_content_type:
  assumes "bh_GetFile h i w = (out, w')" and "outcome_code out = Some 200"
    and "r \<in> set node_bundle_routes" and "rh_handler r = EP_bh_GetFile"
  shows "\<exists>rep c. wrapHandler ansic cfg cache pull r (\<lambda>mr hs. of_outcome hs out) mr [] = Reply rep \<and> rp_body rep = PFile c \<and>
    header_values (rp_headers rep) ''Content-Type'' = [''application/json'', ''application/zip, application/octet-stream''] \<and>
    header_Get (rp_headers rep) ''Content-Type'' = ''application/json''"
proof -
  obtain c where out: "out = Respond \<lparr>rcode = 200, rheaders = download_headers i, rbody = FileBody c\<rparr>"
    using assms(1,2)
    by (auto simp: bh_GetFile_def serve_file_def writeJSONError_def
        split: prod.splits option.splits if_splits inode.splits bool.splits)
  have r: "rh_headers r = []" "\<not> rh_canFlushCache r" using assms(3,4) by (auto simp: node_bundle_routes_def route_def)
  have c: "canonical ''Content-disposition'' \<noteq> canonical ''Content-Type''" "canonical ''Content-type'' = canonical ''Content-Type''"
    by code_simp+
  show ?thesis
    using r c by (simp add: wrapHandler_def out of_outcome_def headerMiddleware_def download_headers_def header_Get_def)
      (simp add: header_values_def)
qed

fun written_codes :: "writer_op list \<Rightarrow> int list" where
  "written_codes [] = []"
| "written_codes (WriteHeader c # ops) = c # written_codes ops"
| "written_codes (WriteBody b # ops) = written_codes ops"

lemma intercept_fold:
  "ic_recorded (fold intercept ops i) = (ic_recorded i \<or> written_codes ops \<noteq> [])"
  "ic_statusCode (fold intercept ops i) = (if ic_recorded i then ic_statusCode i else hd (written_codes ops @ [ic_statusCode i]))"
  "ic_sent (fold intercept ops i) = (case ic_sent i of Some c \<Rightarrow> Some c
     | None \<Rightarrow> (case ops of [] \<Rightarrow> None | WriteHeader c # _ \<Rightarrow> Some c | WriteBody b # _ \<Rightarrow> Some 200))"
proof (induction ops arbitrary: i)
  case (Cons a ops)
  { case 1 show ?case using Cons(1) by (cases a) (auto simp: Let_def) }
  { case 2 show ?case using Cons(2) by (cases a) (auto simp: Let_def) }
  { case 3 show ?case using Cons(3) by (cases a) (auto simp: Let_def split: option.splits) }
qed (auto split: option.splits)

text \<open>
  The metrics record the code that was sent, with two exceptions. The recorded status is the first code the handler has
  written explicitly, or 200; the client gets the code of the first write. They are equal unless the handler writes a part
  of the body first and a code other than 200 later. A request whose handler panics is not recorded at all.
\<close>

theorem metric_status:
  "metricMiddleware m p ops False =
     (Some (m, p, itoa (hd (written_codes ops @ [200]))), Some (case ops of WriteHeader c # _ \<Rightarrow> c | _ \<Rightarrow> 200)) \<and>
   (hd (written_codes ops @ [200]) = (case ops of WriteHeader c # _ \<Rightarrow> c | _ \<Rightarrow> 200) \<or>
    (\<exists>b bs. ops = WriteBody b # bs \<and> hd (written_codes bs @ [200]) \<noteq> 200)) \<and>
   fst (metricMiddleware m p ops True) = None"
  by (cases ops rule: written_codes.cases)
    (simp_all add: metricMiddleware_def intercept_fold new_interceptor_def Let_def del: fold_simps)

theorem metric_status_witness:
  "metricMiddleware ''GET'' ''/x'' [WriteBody ''a'', WriteHeader 500] False = (Some (''GET'', ''/x'', ''500''), Some 200)"
  using metric_status [of "''GET''" "''/x''" "[WriteBody ''a'', WriteHeader 500]"] by (simp add: itoa_def nat_text.simps)

theorem archive_content_type_witness:
  "\<exists>rep c. wrapHandler itoa zero_Config False None ((route nodeBundleFileEndpoint EP_bh_GetFile)\<lparr>rh_methods := [''GET'']\<rparr>)
      (\<lambda>mr hs. of_outcome hs (fst (bh_GetFile sample_handler ''a'' (sample_world done_files))))
      \<lparr>mr_Units = [], mr_Nodes = [], mr_UpdatedTime = 0\<rparr> [] = Reply rep \<and> rp_body rep = PFile c \<and>
    header_Get (rp_headers rep) ''Content-Type'' = ''application/json''"
proof -
  let ?g = "bh_GetFile sample_handler ''a'' (sample_world done_files)"
  have "outcome_code (fst ?g) = Some 200" by code_simp
  moreover have "(route nodeBundleFileEndpoint EP_bh_GetFile)\<lparr>rh_methods := [''GET'']\<rparr> \<in> set node_bundle_routes"
    by (simp add: node_bundle_routes_def)
  ultimately show ?thesis
    using archive_content_type [of sample_handler "''a''" "sample_world done_files" "fst ?g" "snd ?g" _ itoa zero_Config False None
        "\<lparr>mr_Units = [], mr_Nodes = [], mr_UpdatedTime = 0\<rparr>"] by (fastforce simp: route_def)
qed

end
