(* ===== verification/Puller_Protocol.thy ===== *)
theory Puller_Protocol
  imports Router
begin

text \<open>
  The rendezvous of the requests that ask for fresh data with the puller: \<^verbatim>\<open>noCacheMiddleware\<close> of \<^verbatim>\<open>api/router.go\<close> and
  \<^verbatim>\<open>StartPullWithInterval\<close> of \<^verbatim>\<open>api/pull.go\<close> over the two unbuffered channels \<^verbatim>\<open>RunPullerChan\<close> and
  \<^verbatim>\<open>RunPullerDoneChan\<close>. A send happens together with its receive; a request waits for the answer at most a minute.
\<close>

section \<open>The protocol\<close>

text \<open>The puller pulls because its interval is over, selects, pulls for a request, or sends that it has done so.\<close>

datatype puller = Pulling | Selecting | PullingFor | SendingDone

text \<open>A request sends to the puller, waits for it, goes on with fresh data, or has panicked.\<close>

datatype request = Sending | Waiting | Fresh | TimedOut

record pulling =
  pl_puller :: puller
  pl_requests :: "request list"
  pl_pulls :: nat

definition pull_init :: pulling where
  "pull_init = \<lparr>pl_puller = Pulling, pl_requests = [], pl_pulls = 0\<rparr>"

inductive pull_step :: "pulling \<Rightarrow> pulling \<Rightarrow> bool" where
  arrive: "pull_step s (s\<lparr>pl_requests := pl_requests s @ [Sending]\<rparr>)"
| pulled: "pl_puller s = Pulling \<Longrightarrow> pull_step s (s\<lparr>pl_puller := Selecting, pl_pulls := Suc (pl_pulls s)\<rparr>)"
| interval: "pl_puller s = Selecting \<Longrightarrow> pull_step s (s\<lparr>pl_puller := Pulling\<rparr>)"
| hand_over: "pl_puller s = Selecting \<Longrightarrow> pl_requests s = us @ Sending # vs \<Longrightarrow>
    pull_step s (s\<lparr>pl_puller := PullingFor, pl_requests := us @ Waiting # vs\<rparr>)"
| pulled_for: "pl_puller s = PullingFor \<Longrightarrow> pull_step s (s\<lparr>pl_puller := SendingDone, pl_pulls := Suc (pl_pulls s)\<rparr>)"
| answered: "pl_puller s = SendingDone \<Longrightarrow> pl_requests s = us @ Waiting # vs \<Longrightarrow>
    pull_step s (s\<lparr>pl_puller := Selecting, pl_requests := us @ Fresh # vs\<rparr>)"
| minute_over: "pl_requests s = us @ Waiting # vs \<Longrightarrow> pull_step s (s\<lparr>pl_requests := us @ TimedOut # vs\<rparr>)"

abbreviation pull_steps :: "pulling \<Rightarrow> pulling \<Rightarrow> bool" where "pull_steps \<equiv> pull_step\<^sup>*\<^sup>*"

inductive_cases pull_stepE: "pull_step s s'"

section \<open>Invariant\<close>

definition busy :: "puller \<Rightarrow> bool" where
  "busy p = (p = PullingFor \<or> p = SendingDone)"

text \<open>A busy puller has one request that waits for it, or has waited too long; an idle one has none.\<close>

definition pull_inv :: "pulling \<Rightarrow> bool" where
  "pull_inv s = (count_list (pl_requests s) Waiting + count_list (pl_requests s) TimedOut = (if busy (pl_puller s) then 1 else 0))"

lemma pull_inv_init: "pull_inv pull_init"
  by (simp add: pull_inv_def pull_init_def busy_def)

lemma pull_inv_step:
  assumes "pull_step s s'" and "pull_inv s"
  shows "pull_inv s'"
  using assms by (cases rule: pull_step.cases) (auto simp: pull_inv_def busy_def)

interpretation pulls: invariant_system pull_step pull_inv
  by unfold_locales (rule pull_inv_step)

lemmas pull_reach_inv = pulls.steps_inv [OF _ pull_inv_init]

text \<open>Once a request has timed out, the puller stays with it.\<close>

definition pull_dead :: "pulling \<Rightarrow> bool" where
  "pull_dead s = (busy (pl_puller s) \<and> Waiting \<notin> set (pl_requests s))"

text \<open>The pulls that are finished or under way.\<close>

definition pulls_begun :: "pulling \<Rightarrow> nat" where
  "pulls_begun s = pl_pulls s + (if pl_puller s = PullingFor then 1 else 0)"

lemma pull_dead_step:
  assumes "pull_step s s'" and "pull_dead s"
  shows "pull_dead s'" and "count_list (pl_requests s') Fresh = count_list (pl_requests s) Fresh" and "pulls_begun s' = pulls_begun s"
    and "pl_puller s = SendingDone \<Longrightarrow> pl_puller s' = SendingDone"
  using assms by (cases rule: pull_step.cases; auto simp: pull_dead_def busy_def pulls_begun_def)+

interpretation dead_pulls: invariant_system pull_step pull_dead
  by unfold_locales (rule pull_dead_step)

interpretation sent_pulls: invariant_system pull_step "\<lambda>s. pull_dead s \<and> pl_puller s = SendingDone"
  by unfold_locales (auto dest: pull_dead_step)

lemma timed_out_dead:
  assumes "pull_inv s" and "TimedOut \<in> set (pl_requests s)"
  shows "pull_dead s"
proof -
  have "0 < count_list (pl_requests s) TimedOut" using assms(2) by (metis count_list_0_iff gr0I)
  then have "count_list (pl_requests s) Waiting = 0" "busy (pl_puller s)"
    using assms(1) by (auto simp: pull_inv_def split: if_splits)
  then show ?thesis by (simp add: pull_dead_def count_list_0_iff)
qed

section \<open>Progress\<close>

text \<open>There is a course of events in which a request is served and none times out.\<close>

definition servable :: "pulling \<Rightarrow> bool" where
  "servable s = (\<exists>s'. pull_steps s s' \<and> TimedOut \<notin> set (pl_requests s') \<and>
     count_list (pl_requests s') Fresh = Suc (count_list (pl_requests s) Fresh))"

lemma servable_step:
  "pull_step s s' \<Longrightarrow> servable s' \<Longrightarrow> count_list (pl_requests s') Fresh = count_list (pl_requests s) Fresh \<Longrightarrow> servable s"
  by (auto simp: servable_def intro: converse_rtranclp_into_rtranclp)

lemma servable_SendingDone:
  assumes "pl_puller s = SendingDone" and "Waiting \<in> set (pl_requests s)" and "TimedOut \<notin> set (pl_requests s)"
  shows "servable s"
proof -
  obtain us vs where r: "pl_requests s = us @ Waiting # vs" using assms(2) by (meson split_list)
  let ?s = "s\<lparr>pl_puller := Selecting, pl_requests := us @ Fresh # vs\<rparr>"
  have "pull_steps s ?s" using pull_step.answered [OF assms(1) r] by blast
  moreover have "TimedOut \<notin> set (pl_requests ?s)" "count_list (pl_requests ?s) Fresh = Suc (count_list (pl_requests s) Fresh)"
    using assms(3) r by auto
  ultimately show ?thesis unfolding servable_def by blast
qed

lemma servable_PullingFor:
  assumes "pl_puller s = PullingFor" and "Waiting \<in> set (pl_requests s)" and "TimedOut \<notin> set (pl_requests s)"
  shows "servable s"
  using servable_step [OF pull_step.pulled_for [OF assms(1)]] servable_SendingDone assms(2,3) by simp

lemma servable_Selecting:
  assumes "pl_puller s = Selecting" and "Sending \<in> set (pl_requests s)" and "TimedOut \<notin> set (pl_requests s)"
  shows "servable s"
proof -
  obtain us vs where r: "pl_requests s = us @ Sending # vs" using assms(2) by (meson split_list)
  show ?thesis
    using servable_step [OF pull_step.hand_over [OF assms(1) r]] servable_PullingFor assms(3) r by simp
qed

lemma servable_Pulling:
  assumes "pl_puller s = Pulling" and "Sending \<in> set (pl_requests s)" and "TimedOut \<notin> set (pl_requests s)"
  shows "servable s"
  using servable_step [OF pull_step.pulled [OF assms(1)]] servable_Selecting assms(2,3) by simp

section \<open>Properties\<close>

text \<open>
  C33. The puller serves while no request gives up. In every reachable state in which no request has timed out, at most one
  request waits, and one waits precisely if the puller works for a request; and whenever a request is not yet served, there is a
  course of events that serves a request, without a time-out.
\<close>

theorem puller_serves:
  assumes "pull_steps pull_init s" and "TimedOut \<notin> set (pl_requests s)"
  shows "count_list (pl_requests s) Waiting \<le> 1 \<and> (Waiting \<in> set (pl_requests s) \<longleftrightarrow> busy (pl_puller s)) \<and>
    (Sending \<in> set (pl_requests s) \<or> Waiting \<in> set (pl_requests s) \<longrightarrow> servable s)"
proof -
  note I = pull_reach_inv [OF assms(1)]
  have t: "count_list (pl_requests s) TimedOut = 0" using assms(2) by (simp add: count_list_0_iff)
  have w: "Waiting \<in> set (pl_requests s) \<longleftrightarrow> busy (pl_puller s)"
    using I t count_list_0_iff [of "pl_requests s" Waiting] by (auto simp: pull_inv_def split: if_splits)
  have "servable s" if "Sending \<in> set (pl_requests s) \<or> Waiting \<in> set (pl_requests s)"
    using that w assms(2) servable_Pulling servable_Selecting servable_PullingFor servable_SendingDone
    by (cases "pl_puller s") (auto simp: busy_def)
  then show ?thesis using I w by (auto simp: pull_inv_def split: if_splits)
qed

text \<open>
  C34. One time-out stops the puller for good. If a request waits for more than a minute and panics, then from that state on no course
  of events serves another request with fresh data, and at most the pull under way is finished: the puller blocks
  on its answer that nobody receives, so the tree is never updated again, by requests or by the interval.
\<close>

theorem timeout_stops_puller:
  assumes "pull_steps pull_init s" and "TimedOut \<in> set (pl_requests s)" and "pull_steps s s'"
  shows "count_list (pl_requests s') Fresh = count_list (pl_requests s) Fresh \<and> pl_pulls s' \<le> Suc (pl_pulls s) \<and>
    (pl_puller s = SendingDone \<longrightarrow> pl_puller s' = SendingDone \<and> pl_pulls s' = pl_pulls s)"
proof -
  have d: "pull_dead s" by (rule timed_out_dead [OF pull_reach_inv [OF assms(1)] assms(2)])
  have "count_list (pl_requests s') Fresh = count_list (pl_requests s) Fresh" and "pulls_begun s' = pulls_begun s"
    using dead_pulls.steps_keep [OF assms(3) d, of "\<lambda>x. count_list (pl_requests x) Fresh"]
      dead_pulls.steps_keep [OF assms(3) d, of pulls_begun] pull_dead_step(2,3) by blast+
  moreover have "pl_puller s = SendingDone \<Longrightarrow> pl_puller s' = SendingDone" using sent_pulls.steps_inv [OF assms(3)] d by blast
  ultimately show ?thesis by (auto simp: pulls_begun_def split: if_splits)
qed

definition stopped_state :: pulling where
  "stopped_state = \<lparr>pl_puller = SendingDone, pl_requests = [TimedOut], pl_pulls = 2\<rparr>"

lemma stopped_reachable: "pull_steps pull_init stopped_state"
proof -
  let ?s = "\<lambda>p r k. \<lparr>pl_puller = p, pl_requests = r, pl_pulls = k\<rparr>"
  have "pull_step pull_init (?s Pulling [Sending] 0)" using pull_step.arrive [of pull_init] by (simp add: pull_init_def)
  moreover have "pull_step (?s Pulling [Sending] 0) (?s Selecting [Sending] 1)"
    using pull_step.pulled [of "?s Pulling [Sending] 0"] by simp
  moreover have "pull_step (?s Selecting [Sending] 1) (?s PullingFor [Waiting] 1)"
    using pull_step.hand_over [of "?s Selecting [Sending] 1" "[]" "[]"] by simp
  moreover have "pull_step (?s PullingFor [Waiting] 1) (?s PullingFor [TimedOut] 1)"
    using pull_step.minute_over [of "?s PullingFor [Waiting] 1" "[]" "[]"] by simp
  moreover have "pull_step (?s PullingFor [TimedOut] 1) stopped_state"
    using pull_step.pulled_for [of "?s PullingFor [TimedOut] 1"] by (simp add: stopped_state_def numeral_2_eq_2)
  ultimately show ?thesis by (meson rtranclp.rtrancl_refl rtranclp.rtrancl_into_rtrancl)
qed

theorem timeout_stops_puller_witness:
  "pull_steps pull_init stopped_state \<and>
   count_list (pl_requests (stopped_state\<lparr>pl_requests := [TimedOut, Sending]\<rparr>)) Fresh = 0"
proof -
  have "pull_steps stopped_state (stopped_state\<lparr>pl_requests := [TimedOut, Sending]\<rparr>)"
    using pull_step.arrive [of stopped_state] by (simp add: stopped_state_def r_into_rtranclp)
  from timeout_stops_puller [OF stopped_reachable _ this] stopped_reachable show ?thesis by (simp add: stopped_state_def)
qed

theorem puller_serves_witness:
  "\<exists>s'. pull_steps \<lparr>pl_puller = Pulling, pl_requests = [Sending], pl_pulls = 0\<rparr> s' \<and> count_list (pl_requests s') Fresh = 1"
proof -
  let ?s = "\<lparr>pl_puller = Pulling, pl_requests = [Sending], pl_pulls = 0\<rparr>"
  have "pull_steps pull_init ?s" using pull_step.arrive [of pull_init] by (simp add: pull_init_def r_into_rtranclp)
  from puller_serves [OF this] show ?thesis by (auto simp: servable_def)
qed

end
