(* ===== verification/Coordinator.thy ===== *)
theory Coordinator
  imports Zip_Merge Transitions "HOL-Library.Multiset"
begin

text \<open>
  The parallel coordinator, \<^verbatim>\<open>api/rest/coordinator.go\<close>. \<^verbatim>\<open>CreateBundle\<close> starts ten workers that take
  jobs from a channel and put statuses on another, both with room for one element per node; a job that
  has to be repeated is put back into the channel, at once or by a timer. \<^verbatim>\<open>CollectBundle\<close> receives
  statuses until every node is done, downloads the nodes' archives and merges them. The channels,
  workers and timers are a step relation; \<^verbatim>\<open>createBundle\<close>, \<^verbatim>\<open>waitForDone\<close> and the receiving loop are
  functions. A client call of a job returns an arbitrary result, so the theorems hold for every
  behaviour of the nodes.
\<close>

section \<open>Data\<close>

record node =
  n_IP :: string
  n_Role :: string
  n_baseURL :: string

record BundleStatus =
  s_id :: string
  s_node :: node
  s_done :: bool
  s_err :: "string option"

definition numberOfWorkers :: nat where "numberOfWorkers = 10"

definition contextDoneErrMsg :: string where
  "contextDoneErrMsg = ''bundle creation context finished before bundle creation finished''"

definition nodeBundleFilename :: "node \<Rightarrow> string" where
  "nodeBundleFilename n = msg [n_IP n, ''_'', n_Role n, ''.zip'']"

section \<open>Jobs\<close>

datatype cjob = CreateJob node | WaitJob node

fun job_node :: "cjob \<Rightarrow> node" where
  "job_node (CreateJob n) = n"
| "job_node (WaitJob n) = n"

text \<open>What a job does to the job channel before it returns its status.\<close>

datatype effect = NoEffect | Enqueue cjob | Later cjob

definition createBundle :: "client_error + Bundle \<Rightarrow> node \<Rightarrow> string \<Rightarrow> BundleStatus \<times> effect" where
  "createBundle res n i =
     (case res of
        Inl e \<Rightarrow>
          (\<lparr>s_id = i, s_node = n, s_done = True,
            s_err = Some (msg [''could not create bundle: '', client_error_Error e])\<rparr>, NoEffect)
      | Inr b \<Rightarrow> (\<lparr>s_id = i, s_node = n, s_done = False, s_err = None\<rparr>, Enqueue (WaitJob n)))"

definition waitForDone :: "bool \<Rightarrow> client_error + Bundle \<Rightarrow> node \<Rightarrow> string \<Rightarrow> BundleStatus \<times> effect" where
  "waitForDone ctxDone res n i =
     (if ctxDone then
        (\<lparr>s_id = i, s_node = n, s_done = True, s_err = Some contextDoneErrMsg\<rparr>, NoEffect)
      else
        (case res of
           Inl e \<Rightarrow>
             (\<lparr>s_id = i, s_node = n, s_done = False,
               s_err = Some (msg [''could not check status: '', client_error_Error e])\<rparr>, Later (WaitJob n))
         | Inr b \<Rightarrow>
             if IsFinished b then (\<lparr>s_id = i, s_node = n, s_done = True, s_err = None\<rparr>, NoEffect)
             else (\<lparr>s_id = i, s_node = n, s_done = False, s_err = None\<rparr>, Later (WaitJob n))))"

fun run_job :: "bool \<Rightarrow> client_error + Bundle \<Rightarrow> string \<Rightarrow> cjob \<Rightarrow> BundleStatus \<times> effect" where
  "run_job ctxDone res i (CreateJob n) = createBundle res n i"
| "run_job ctxDone res i (WaitJob n) = waitForDone ctxDone res n i"

section \<open>Workers and channels\<close>

datatype worker = Idle | Running cjob | Enqueuing cjob BundleStatus | Sending BundleStatus

text \<open>
  \<open>k_pending\<close> are the nodes whose first job \<^verbatim>\<open>CreateBundle\<close> has not put into the channel yet, \<open>k_timers\<close>
  the jobs that wait for \<^verbatim>\<open>time.AfterFunc\<close>, \<open>k_seen\<close> what \<^verbatim>\<open>CollectBundle\<close> has received.
\<close>

record coord =
  k_ctx :: bool
  k_pending :: "node list"
  k_jobs :: "cjob list"
  k_workers :: "worker list"
  k_timers :: "cjob list"
  k_statuses :: "BundleStatus list"
  k_seen :: "BundleStatus list"

definition coord_init :: "node list \<Rightarrow> coord" where
  "coord_init nodes = \<lparr>k_ctx = False, k_pending = nodes, k_jobs = [],
     k_workers = replicate numberOfWorkers Idle, k_timers = [], k_statuses = [], k_seen = []\<rparr>"

inductive coord_step :: "nat \<Rightarrow> string \<Rightarrow> coord \<Rightarrow> coord \<Rightarrow> bool"
  for n :: nat and i :: string where
  submit: "k_pending c = x # xs \<Longrightarrow> length (k_jobs c) < n \<Longrightarrow>
    coord_step n i c (c\<lparr>k_pending := xs, k_jobs := k_jobs c @ [CreateJob x]\<rparr>)"
| take: "k_jobs c = j # js \<Longrightarrow> k_workers c = us @ Idle # vs \<Longrightarrow>
    coord_step n i c (c\<lparr>k_jobs := js, k_workers := us @ Running j # vs\<rparr>)"
| run: "k_workers c = us @ Running j # vs \<Longrightarrow> run_job (k_ctx c) res i j = (st, eff) \<Longrightarrow>
    coord_step n i c (c\<lparr>
      k_workers := us @ (case eff of Enqueue j' \<Rightarrow> Enqueuing j' st | _ \<Rightarrow> Sending st) # vs,
      k_timers := (case eff of Later j' \<Rightarrow> [j'] | _ \<Rightarrow> []) @ k_timers c\<rparr>)"
| enqueue: "k_workers c = us @ Enqueuing j st # vs \<Longrightarrow> length (k_jobs c) < n \<Longrightarrow>
    coord_step n i c (c\<lparr>k_jobs := k_jobs c @ [j], k_workers := us @ Sending st # vs\<rparr>)"
| send: "k_workers c = us @ Sending st # vs \<Longrightarrow> length (k_statuses c) < n \<Longrightarrow>
    coord_step n i c (c\<lparr>k_statuses := k_statuses c @ [st], k_workers := us @ Idle # vs\<rparr>)"
| fire: "k_timers c = us @ j # vs \<Longrightarrow> length (k_jobs c) < n \<Longrightarrow>
    coord_step n i c (c\<lparr>k_jobs := k_jobs c @ [j], k_timers := us @ vs\<rparr>)"
| receive: "k_pending c = [] \<Longrightarrow> k_statuses c = st # ss \<Longrightarrow> length (filter s_done (k_seen c)) < n \<Longrightarrow>
    coord_step n i c (c\<lparr>k_statuses := ss, k_seen := k_seen c @ [st]\<rparr>)"
| deadline: "\<not> k_ctx c \<Longrightarrow> coord_step n i c (c\<lparr>k_ctx := True\<rparr>)"

inductive coord_reach :: "string \<Rightarrow> node list \<Rightarrow> coord \<Rightarrow> bool" for i :: string and nodes :: "node list" where
  init: "coord_reach i nodes (coord_init nodes)"
| step: "coord_reach i nodes c \<Longrightarrow> coord_step (length nodes) i c c' \<Longrightarrow> coord_reach i nodes c'"

section \<open>One token per node\<close>

text \<open>
  Every node is in exactly one place: its job waits somewhere or runs, or its final status is on the
  way or has arrived.
\<close>

definition done_nodes :: "BundleStatus list \<Rightarrow> node multiset" where
  "done_nodes ss = mset (map s_node (filter s_done ss))"

fun worker_tokens :: "worker \<Rightarrow> node multiset" where
  "worker_tokens Idle = {#}"
| "worker_tokens (Running j) = {#job_node j#}"
| "worker_tokens (Enqueuing j st) = {#job_node j#} + done_nodes [st]"
| "worker_tokens (Sending st) = done_nodes [st]"

definition tokens :: "coord \<Rightarrow> node multiset" where
  "tokens c = mset (k_pending c) + mset (map job_node (k_jobs c)) + sum_list (map worker_tokens (k_workers c)) +
     mset (map job_node (k_timers c)) + done_nodes (k_statuses c) + done_nodes (k_seen c)"

lemma done_nodes_simps [simp]:
  "done_nodes [] = {#}"
  "done_nodes (s # ss) = (if s_done s then {#s_node s#} else {#}) + done_nodes ss"
  "done_nodes (xs @ ys) = done_nodes xs + done_nodes ys"
  by (simp_all add: done_nodes_def)

lemma size_done_nodes [simp]: "size (done_nodes ss) = length (filter s_done ss)"
  unfolding done_nodes_def size_mset length_map ..

lemma run_job_token:
  "run_job b res i j = (st, eff) \<Longrightarrow>
     {#job_node j#} = done_nodes [st] + (case eff of NoEffect \<Rightarrow> {#} | Enqueue j' \<Rightarrow> {#job_node j'#} | Later j' \<Rightarrow> {#job_node j'#})"
  by (cases j) (auto simp: createBundle_def waitForDone_def split: sum.splits if_splits)

lemma coord_step_tokens: "coord_step n i c c' \<Longrightarrow> tokens c' = tokens c"
proof (induction rule: coord_step.induct)
  case (run c us j vs res st eff)
  show ?case
    using run(1) run_job_token [OF run(2)] by (cases eff) (simp_all add: tokens_def ac_simps)
qed (simp_all add: tokens_def ac_simps)

lemma coord_step_workers: "coord_step n i c c' \<Longrightarrow> length (k_workers c') = length (k_workers c)"
  by (induction rule: coord_step.induct) simp_all

lemma coord_reach_tokens:
  "coord_reach i nodes c \<Longrightarrow> tokens c = mset nodes \<and> length (k_workers c) = numberOfWorkers"
proof (induction rule: coord_reach.induct)
  case init
  have "sum_list (map worker_tokens (replicate k Idle)) = {#}" for k by (induction k) simp_all
  then show ?case by (simp add: coord_init_def tokens_def)
qed (simp_all add: coord_step_tokens coord_step_workers)

section \<open>Room in the channels\<close>

lemma coord_room:
  assumes "coord_reach i nodes c"
  shows "length (k_jobs c) \<le> length nodes"
    and "k_pending c \<noteq> [] \<Longrightarrow> length (k_jobs c) < length nodes"
    and "k_timers c \<noteq> [] \<Longrightarrow> length (k_jobs c) < length nodes"
    and "Enqueuing j st \<in> set (k_workers c) \<Longrightarrow> length (k_jobs c) < length nodes"
    and "done_nodes (k_seen c) \<subseteq># mset nodes"
proof -
  have t: "tokens c = mset nodes" using coord_reach_tokens [OF assms] by simp
  have s: "length nodes = length (k_pending c) + length (k_jobs c) + size (sum_list (map worker_tokens (k_workers c))) +
      length (k_timers c) + length (filter s_done (k_statuses c)) + length (filter s_done (k_seen c))"
    using arg_cong [OF t, of size] by (simp add: tokens_def)
  show "length (k_jobs c) \<le> length nodes" using s by simp
  show "k_pending c \<noteq> [] \<Longrightarrow> length (k_jobs c) < length nodes"
    and "k_timers c \<noteq> [] \<Longrightarrow> length (k_jobs c) < length nodes"
    using s by (cases "k_pending c"; cases "k_timers c"; simp)+
  show "length (k_jobs c) < length nodes" if e: "Enqueuing j st \<in> set (k_workers c)"
  proof -
    obtain us vs where "k_workers c = us @ Enqueuing j st # vs" using e by (meson split_list)
    then show ?thesis using s by simp
  qed
  show "done_nodes (k_seen c) \<subseteq># mset nodes" using t unfolding tokens_def by (metis mset_subset_eq_add_right)
qed

section \<open>After the deadline\<close>

text \<open>
  Once the context is done every job runs at most once more: the measure of a state falls with every
  step. A status costs 2 in a worker's hands and 1 in the channel, a waiting job 4, a timer 5, a create
  job 10, and a running job one less than its waiting form, minus what it leaves behind.
\<close>

fun job_weight :: "cjob \<Rightarrow> nat" where
  "job_weight (CreateJob n) = 10"
| "job_weight (WaitJob n) = 4"

fun worker_weight :: "worker \<Rightarrow> nat" where
  "worker_weight Idle = 0"
| "worker_weight (Running j) = job_weight j - 1"
| "worker_weight (Enqueuing j st) = job_weight j + 3"
| "worker_weight (Sending st) = 2"

definition coord_measure :: "coord \<Rightarrow> nat" where
  "coord_measure c = 11 * length (k_pending c) + sum_list (map job_weight (k_jobs c)) +
     sum_list (map worker_weight (k_workers c)) + sum_list (map (\<lambda>j. job_weight j + 1) (k_timers c)) +
     length (k_statuses c)"

lemma run_job_weight:
  "run_job True res i j = (st, eff) \<Longrightarrow>
     (case eff of Enqueue j' \<Rightarrow> job_weight j' + 3 | _ \<Rightarrow> 2) < job_weight j - 1 \<and> (\<nexists>j'. eff = Later j')"
  by (cases j) (auto simp: createBundle_def waitForDone_def split: sum.splits)

lemma job_weight_pos: "0 < job_weight j"
  by (cases j) simp_all

lemma coord_step_measure:
  assumes "coord_step n i c c'" and "k_ctx c"
  shows "coord_measure c' < coord_measure c \<and> k_ctx c'"
  using assms
proof (induction rule: coord_step.induct)
  case (run c us j vs res st eff)
  then have "run_job True res i j = (st, eff)" by simp
  from run_job_weight [OF this] run show ?case by (cases eff) (auto simp: coord_measure_def)
qed (auto simp: coord_measure_def job_weight_pos)

text \<open>A state without steps has received a final status from every node.\<close>

lemma coord_stuck:
  assumes "coord_reach i nodes c" and "k_ctx c" and stuck: "\<nexists>c'. coord_step (length nodes) i c c'"
  shows "done_nodes (k_seen c) = mset nodes"
proof (rule ccontr)
  assume nd: "done_nodes (k_seen c) \<noteq> mset nodes"
  note room = coord_room [OF assms(1)]
  have t: "tokens c = mset nodes" and wl: "length (k_workers c) = numberOfWorkers"
    using coord_reach_tokens [OF assms(1)] by simp_all
  have lt: "length (filter s_done (k_seen c)) < length nodes"
  proof -
    have "done_nodes (k_seen c) \<subset># mset nodes" using room(5) nd by (simp add: subset_mset.less_le)
    from mset_subset_size [OF this] show ?thesis by simp
  qed
  have p: "k_pending c = []" using stuck room(2) by (cases "k_pending c") (auto intro: coord_step.submit)
  have tm: "k_timers c = []"
    using stuck room(3) coord_step.fire [of c "[]"] by (cases "k_timers c") auto
  have ss: "k_statuses c = []" using stuck p lt by (cases "k_statuses c") (auto intro: coord_step.receive)
  have "w = Idle" if w: "w \<in> set (k_workers c)" for w
  proof -
    obtain us vs where k: "k_workers c = us @ w # vs" using w by (meson split_list)
    show ?thesis
    proof (cases w)
      case (Running j)
      obtain st eff where "run_job (k_ctx c) undefined i j = (st, eff)" by fastforce
      then show ?thesis using stuck k Running coord_step.run by blast
    next
      case (Enqueuing j st)
      then show ?thesis using stuck k room(4) w coord_step.enqueue by blast
    next
      case (Sending st)
      moreover have "length (k_statuses c) < length nodes" using ss lt by (cases nodes) auto
      ultimately show ?thesis using stuck k coord_step.send by blast
    qed simp
  qed
  then have ws: "k_workers c = replicate numberOfWorkers Idle"
    using wl by (metis replicate_eqI)
  then have "k_workers c = [] @ Idle # replicate 9 Idle" by (simp add: numberOfWorkers_def numeral_eq_Suc)
  then have js: "k_jobs c = []" using stuck coord_step.take by (cases "k_jobs c") blast+
  have "sum_list (map worker_tokens (replicate k Idle)) = {#}" for k by (induction k) simp_all
  then have "tokens c = done_nodes (k_seen c)" using p tm ss js ws by (simp add: tokens_def)
  then show False using t nd by simp
qed

definition coord_late :: "string \<Rightarrow> node list \<Rightarrow> coord \<Rightarrow> bool" where
  "coord_late i nodes c = (coord_reach i nodes c \<and> k_ctx c)"

definition coord_finished :: "node list \<Rightarrow> coord \<Rightarrow> bool" where
  "coord_finished nodes c = (mset (map s_node (filter s_done (k_seen c))) = mset nodes)"

interpretation coordination: settling_system "coord_step (length nodes) i" "coord_late i nodes" coord_measure "coord_finished nodes"
  for nodes i
proof
  fix c c'
  assume "coord_step (length nodes) i c c'" and "coord_late i nodes c"
  then show "coord_late i nodes c'" and "coord_measure c' < coord_measure c"
    by (auto simp: coord_late_def dest: coord_step_measure intro: coord_reach.step)
next
  fix c
  assume "coord_late i nodes c" and "\<nexists>c'. coord_step (length nodes) i c c'"
  then show "coord_finished nodes c" using coord_stuck [of i nodes c] by (simp add: coord_late_def coord_finished_def done_nodes_def)
qed

section \<open>Collecting the nodes' archives\<close>

text \<open>
  The receiving loop of \<^verbatim>\<open>CollectBundle\<close> on the sequence of statuses that arrive. The array of bundles to
  delete has one place per node; the loop fills the place \<open>c_finished\<close>. A receive on a channel that stays
  empty never returns, which is \<open>None\<close>.
\<close>

record collect_state =
  c_report :: report_doc
  c_paths :: "string list"
  c_delete :: "(string \<times> string) list"
  c_finished :: nat

type_synonym 's get_file = "string \<Rightarrow> string \<Rightarrow> string \<Rightarrow> 's \<Rightarrow> world \<Rightarrow> client_error option \<times> 's \<times> world"

definition set_report :: "string \<Rightarrow> node_report \<Rightarrow> collect_state \<Rightarrow> collect_state" where
  "set_report ip r c =
     c\<lparr>c_report := (c_report c)\<lparr>rep_nodes := AList.update ip r (rep_nodes (c_report c))\<rparr>\<rparr>"

definition on_status :: "'s get_file \<Rightarrow> string \<Rightarrow> BundleStatus \<Rightarrow> collect_state \<Rightarrow> 's \<Rightarrow> world \<Rightarrow> collect_state \<times> 's \<times> world" where
  "on_status getFile workDir st c s w =
     (if \<not> s_done st then (c, s, w)
      else
        (let c1 = c\<lparr>c_delete := (c_delete c)[c_finished c := (n_baseURL (s_node st), s_id st)],
                    c_finished := Suc (c_finished c)\<rparr> in
         case s_err st of
           Some e \<Rightarrow> (set_report (n_IP (s_node st)) \<lparr>nr_status = Failed, nr_err = e\<rparr> c1, s, w)
         | None \<Rightarrow>
             (let bundlePath = join [workDir, nodeBundleFilename (s_node st)] in
              case getFile (n_baseURL (s_node st)) (s_id st) bundlePath s w of
                (Some e, s1, w1) \<Rightarrow>
                  (set_report (n_IP (s_node st)) \<lparr>nr_status = Failed, nr_err = client_error_Error e\<rparr> c1, s1, w1)
              | (None, s1, w1) \<Rightarrow>
                  ((set_report (n_IP (s_node st)) \<lparr>nr_status = Done, nr_err = []\<rparr> c1)\<lparr>c_paths := c_paths c @ [bundlePath]\<rparr>,
                   s1, w1))))"

fun receive_loop ::
  "'s get_file \<Rightarrow> string \<Rightarrow> nat \<Rightarrow> BundleStatus list \<Rightarrow> collect_state \<Rightarrow> 's \<Rightarrow> world \<Rightarrow>
     (collect_state \<times> 's \<times> world) option" where
  "receive_loop getFile workDir numBundles sts c s w =
     (if \<not> c_finished c < numBundles then Some (c, s, w)
      else
        (case sts of
           [] \<Rightarrow> None
         | st # rest \<Rightarrow>
             (case on_status getFile workDir st c s w of
                (c1, s1, w1) \<Rightarrow> receive_loop getFile workDir numBundles rest c1 s1 w1)))"

declare receive_loop.simps [simp del]

definition collect_start :: "string \<Rightarrow> nat \<Rightarrow> collect_state" where
  "collect_start bundleID numBundles =
     \<lparr>c_report = \<lparr>rep_id = bundleID, rep_nodes = []\<rparr>, c_paths = [],
      c_delete = replicate numBundles ([], []), c_finished = 0\<rparr>"

text \<open>The result of \<^verbatim>\<open>CollectBundle\<close> and the deletions its cleanup goroutine goes through.\<close>

definition CollectBundle ::
  "'s get_file \<Rightarrow> string \<Rightarrow> string \<Rightarrow> nat \<Rightarrow> BundleStatus list \<Rightarrow> 's \<Rightarrow> world \<Rightarrow>
     (string result \<times> (string \<times> string) list \<times> 's \<times> world) option" where
  "CollectBundle getFile workDir bundleID numBundles statuses s w =
     (case receive_loop getFile workDir numBundles statuses (collect_start bundleID numBundles) s w of
        None \<Rightarrow> None
      | Some (c, s1, w1) \<Rightarrow>
          (case mergeZips (c_report c) (c_paths c) workDir w1 of
             (r, w2) \<Rightarrow> Some (r, c_delete c, s1, w2)))"

fun cleanup :: "(string \<Rightarrow> string \<Rightarrow> 's \<Rightarrow> client_error option \<times> 's) \<Rightarrow> (string \<times> string) list \<Rightarrow> 's \<Rightarrow> 's" where
  "cleanup del [] s = s"
| "cleanup del ((url, i) # bs) s = cleanup del bs (snd (del url i s))"

section \<open>What the loop has done\<close>

definition target :: "BundleStatus \<Rightarrow> string \<times> string" where
  "target st = (n_baseURL (s_node st), s_id st)"

lemma on_status_counts:
  assumes "on_status getFile workDir st c s w = (c1, s1, w1)"
  shows "c_finished c1 = c_finished c + (if s_done st then 1 else 0)"
    and "c_delete c1 = (if s_done st then (c_delete c)[c_finished c := target st] else c_delete c)"
  using assms
  by (auto simp: on_status_def set_report_def target_def Let_def split: if_splits option.splits prod.splits)

lemma receive_loop_some_iff:
  "(\<exists>r. receive_loop getFile workDir n sts c s w = Some r) \<longleftrightarrow> n \<le> c_finished c + length (filter s_done sts)"
proof (induction sts arbitrary: c s w)
  case Nil
  then show ?case by (subst receive_loop.simps) auto
next
  case (Cons st sts)
  obtain c1 s1 w1 where o: "on_status getFile workDir st c s w = (c1, s1, w1)" by (metis prod_cases3)
  show ?case
    using o on_status_counts(1) [OF o] Cons.IH [of c1 s1 w1] by (subst receive_loop.simps) auto
qed

lemma receive_loop_delete:
  assumes "receive_loop getFile workDir n sts c s w = Some (c', s', w')" and "c_finished c \<le> n"
    and "length (c_delete c) = n"
  shows "c_delete c' = take (c_finished c) (c_delete c) @ take (n - c_finished c) (map target (filter s_done sts))"
  using assms
proof (induction sts arbitrary: c s w)
  case Nil
  then show ?case by (subst (asm) receive_loop.simps) (auto split: if_splits)
next
  case (Cons st sts)
  obtain c1 s1 w1 where o: "on_status getFile workDir st c s w = (c1, s1, w1)" by (metis prod_cases3)
  show ?case
  proof (cases "c_finished c < n")
    case True
    then have r: "receive_loop getFile workDir n sts c1 s1 w1 = Some (c', s', w')"
      using Cons.prems(1) o by (subst (asm) receive_loop.simps) simp
    show ?thesis
    proof (cases "s_done st")
      case d: True
      have t: "take (Suc (c_finished c)) ((c_delete c)[c_finished c := target st]) = take (c_finished c) (c_delete c) @ [target st]"
        using True Cons.prems(3) by (simp add: take_Suc_conv_app_nth)
      have "n - c_finished c = Suc (n - Suc (c_finished c))" using True by simp
      then show ?thesis
        using Cons.IH [OF r] on_status_counts [OF o] d True Cons.prems(3) t by simp
    next
      case False
      then show ?thesis using Cons.IH [OF r] on_status_counts [OF o] Cons.prems by simp
    qed
  next
    case False
    then show ?thesis using Cons.prems by (subst (asm) receive_loop.simps) simp
  qed
qed

text \<open>With a client that keeps its promises, every path in the list is a file when the loop ends.\<close>

context bundle_client
begin

lemma on_status_files:
  assumes "on_status get_file workDir st c s w = (c', s', w')" and "\<forall>p\<in>set (c_paths c). is_file w p"
  shows "\<forall>p\<in>set (c_paths c'). is_file w' p"
proof -
  let ?p = "join [workDir, nodeBundleFilename (s_node st)]"
  obtain e s1 w1 where g: "get_file (n_baseURL (s_node st)) (s_id st) ?p s w = (e, s1, w1)" by (metis prod_cases3)
  have kp: "is_file w1 q" if "is_file w q" for q
    using get_file_stays [OF g] get_file_keeps [OF g, of q] that by (cases "q = ?p") (auto simp: is_file_def simp del: join.simps)
  have "c_paths c' = c_paths c \<and> w' = w \<or> w' = w1 \<and> (c_paths c' = c_paths c \<or> e = None \<and> c_paths c' = c_paths c @ [?p])"
    using assms(1) g
    by (auto simp: on_status_def set_report_def Let_def split: if_splits option.splits simp del: join.simps)
  then show ?thesis using assms(2) kp get_file_ok g by auto
qed

lemma receive_loop_files:
  assumes "receive_loop get_file workDir n sts c s w = Some (c', s', w')" and "\<forall>p\<in>set (c_paths c). is_file w p"
  shows "\<forall>p\<in>set (c_paths c'). is_file w' p"
  using assms
proof (induction sts arbitrary: c s w)
  case Nil
  then show ?case by (subst (asm) receive_loop.simps) (auto split: if_splits)
next
  case (Cons st sts)
  obtain c1 s1 w1 where o: "on_status get_file workDir st c s w = (c1, s1, w1)" by (metis prod_cases3)
  show ?case
  proof (cases "c_finished c < n")
    case True
    then have "receive_loop get_file workDir n sts c1 s1 w1 = Some (c', s', w')"
      using Cons.prems(1) o by (subst (asm) receive_loop.simps) simp
    from Cons.IH [OF this on_status_files [OF o Cons.prems(2)]] show ?thesis .
  next
    case False
    then show ?thesis using Cons.prems by (subst (asm) receive_loop.simps) simp
  qed
qed

end

text \<open>What the report says of one node, and that later statuses of other nodes do not change it.\<close>

definition reported :: "string \<Rightarrow> collect_state \<Rightarrow> BundleStatus \<Rightarrow> bool" where
  "reported workDir c st =
     (case map_of (rep_nodes (c_report c)) (n_IP (s_node st)) of
        None \<Rightarrow> False
      | Some r \<Rightarrow>
          if nr_status r = Done then s_err st = None \<and> nr_err r = [] \<and> join [workDir, nodeBundleFilename (s_node st)] \<in> set (c_paths c)
          else nr_status r = Failed \<and> (s_err st = None \<or> s_err st = Some (nr_err r)))"

lemma on_status_reported:
  "on_status getFile workDir st c s w = (c1, s1, w1) \<Longrightarrow> s_done st \<Longrightarrow> reported workDir c1 st"
  by (auto simp: on_status_def set_report_def reported_def update_conv' Let_def
      split: option.splits prod.splits simp del: join.simps)

lemma on_status_other:
  assumes "on_status getFile workDir st c s w = (c1, s1, w1)" and "s_done st \<Longrightarrow> n_IP (s_node st) \<noteq> n_IP (s_node st0)"
    and "reported workDir c st0"
  shows "reported workDir c1 st0"
  using assms
  by (auto simp: on_status_def set_report_def reported_def update_conv' Let_def
      split: if_splits option.splits prod.splits simp del: join.simps)

lemma receive_loop_reported:
  assumes "receive_loop getFile workDir n sts c s w = Some (c', s', w')"
    and "distinct (map (n_IP \<circ> s_node) (filter s_done sts))"
    and "st \<in> set (take (n - c_finished c) (filter s_done sts)) \<or>
      reported workDir c st \<and> n_IP (s_node st) \<notin> (n_IP \<circ> s_node) ` set (filter s_done sts)"
  shows "reported workDir c' st"
  using assms
proof (induction sts arbitrary: c s w)
  case Nil
  then show ?case by (subst (asm) receive_loop.simps) (auto split: if_splits)
next
  case (Cons x sts)
  obtain c1 s1 w1 where o: "on_status getFile workDir x c s w = (c1, s1, w1)" by (metis prod_cases3)
  show ?case
  proof (cases "c_finished c < n")
    case True
    then have r: "receive_loop getFile workDir n sts c1 s1 w1 = Some (c', s', w')"
      using Cons.prems(1) o by (subst (asm) receive_loop.simps) simp
    have d: "distinct (map (n_IP \<circ> s_node) (filter s_done sts))" using Cons.prems(2) by (cases "s_done x") (simp_all add: comp_def)
    have fin: "c_finished c1 = c_finished c + (if s_done x then 1 else 0)" using on_status_counts(1) [OF o] .
    have n: "n - c_finished c = Suc (n - Suc (c_finished c))" using True by simp
    have "st \<in> set (take (n - c_finished c1) (filter s_done sts)) \<or>
      reported workDir c1 st \<and> n_IP (s_node st) \<notin> (n_IP \<circ> s_node) ` set (filter s_done sts)"
    proof (cases "s_done x \<and> st = x")
      case True
      then show ?thesis using on_status_reported [OF o] Cons.prems(2) by auto
    next
      case False
      then show ?thesis
        using Cons.prems(3) on_status_other [OF o, of st] fin n by (cases "s_done x") auto
    qed
    from Cons.IH [OF r d this] show ?thesis .
  next
    case False
    then show ?thesis using Cons.prems by (subst (asm) receive_loop.simps) simp
  qed
qed

section \<open>Every status carries the coordinator's id\<close>

fun worker_statuses :: "worker \<Rightarrow> BundleStatus list" where
  "worker_statuses (Enqueuing j st) = [st]"
| "worker_statuses (Sending st) = [st]"
| "worker_statuses w = []"

definition all_statuses :: "coord \<Rightarrow> BundleStatus set" where
  "all_statuses c = set (k_seen c) \<union> set (k_statuses c) \<union> set (concat (map worker_statuses (k_workers c)))"

lemma run_job_id: "run_job b res i j = (st, eff) \<Longrightarrow> s_id st = i"
  by (cases j) (auto simp: createBundle_def waitForDone_def split: sum.splits if_splits)

lemma coord_reach_ids: "coord_reach i nodes c \<Longrightarrow> \<forall>st\<in>all_statuses c. s_id st = i"
proof (induction rule: coord_reach.induct)
  case init
  then show ?case by (auto simp: all_statuses_def coord_init_def)
next
  case (step c c')
  from step(2,3) show ?case
  proof (induction rule: coord_step.induct)
    case (run c us j vs res st eff)
    then show ?case using run_job_id [OF run(2)] by (cases eff) (auto simp: all_statuses_def)
  qed (auto simp: all_statuses_def)
qed

text \<open>A complete run with one node that refuses to create its bundle.\<close>

definition sample_nodes :: "node list" where
  "sample_nodes = [\<lparr>n_IP = ''10.0.0.1'', n_Role = ''master'', n_baseURL = ''http://10.0.0.1:1050''\<rparr>]"

definition sample_status :: BundleStatus where
  "sample_status = fst (createBundle (Inl (OtherError ''refused'')) (hd sample_nodes) ''b'')"

definition sample_end :: coord where
  "sample_end = (coord_init [])\<lparr>k_ctx := True, k_seen := [sample_status]\<rparr>"

lemma sample_workers: "k_workers (coord_init ns) = [] @ Idle # replicate 9 Idle"
  by (simp add: coord_init_def numberOfWorkers_def numeral_eq_Suc)

lemma sample_reach: "coord_reach ''b'' sample_nodes sample_end"
proof -
  let ?n = "hd sample_nodes" and ?ws = "replicate 9 Idle"
  let ?c0 = "coord_init sample_nodes"
  let ?c1 = "?c0\<lparr>k_pending := [], k_jobs := [CreateJob ?n]\<rparr>"
  let ?c2 = "?c1\<lparr>k_jobs := [], k_workers := [] @ Running (CreateJob ?n) # ?ws\<rparr>"
  let ?c3 = "?c2\<lparr>k_workers := [] @ Sending sample_status # ?ws\<rparr>"
  let ?c4 = "?c3\<lparr>k_statuses := [sample_status], k_workers := [] @ Idle # ?ws\<rparr>"
  let ?c5 = "?c4\<lparr>k_statuses := [], k_seen := [sample_status]\<rparr>"
  let ?step = "coord_step (length sample_nodes) ''b''"
  have 1: "?step ?c0 ?c1"
    using coord_step.submit [of ?c0 ?n "[]" "length sample_nodes" "''b''"] by (simp add: coord_init_def sample_nodes_def)
  have 2: "?step ?c1 ?c2"
    using coord_step.take [of ?c1 "CreateJob ?n" "[]" "[]" ?ws] sample_workers [of sample_nodes] by simp
  have 3: "?step ?c2 ?c3"
    using coord_step.run [of ?c2 "[]" "CreateJob ?n" ?ws "Inl (OtherError ''refused'')" "''b''" sample_status NoEffect]
    by (simp add: sample_status_def createBundle_def coord_init_def)
  have 4: "?step ?c3 ?c4"
    using coord_step.send [of ?c3 "[]" sample_status ?ws "length sample_nodes" "''b''"]
    by (simp add: coord_init_def sample_nodes_def)
  have 5: "?step ?c4 ?c5"
    using coord_step.receive [of ?c4 sample_status "[]" "length sample_nodes" "''b''"]
    by (simp add: coord_init_def sample_nodes_def)
  have "?step ?c5 (?c5\<lparr>k_ctx := True\<rparr>)"
    by (rule coord_step.deadline) (simp add: coord_init_def)
  moreover have "?c5\<lparr>k_ctx := True\<rparr> = sample_end"
    using sample_workers [of "[]"] by (simp add: sample_end_def coord_init_def)
  ultimately have 6: "?step ?c5 sample_end" by simp
  show ?thesis
    by (rule coord_reach.step [OF coord_reach.step [OF coord_reach.step [OF coord_reach.step [OF
          coord_reach.step [OF coord_reach.step [OF coord_reach.init 1] 2] 3] 4] 5] 6])
qed

lemma sample_stuck: "\<not> coord_step (length sample_nodes) ''b'' sample_end c'"
proof
  assume "coord_step (length sample_nodes) ''b'' sample_end c'"
  then show False
    by cases (auto simp: sample_end_def coord_init_def Cons_eq_append_conv append_eq_Cons_conv
        dest!: arg_cong [where f = set])
qed

section \<open>Properties\<close>

text \<open>
  C17. The job channel never fills up: in every reachable state, however the nodes answer, a node that is
  still to be submitted, a timer that fires and a worker that schedules the next check all find room in
  the channel, so no worker can block on the channel it reads from; and no node is reported done twice.
\<close>

theorem jobs_never_block:
  assumes "coord_reach i nodes c"
  shows "length (k_jobs c) \<le> length nodes \<and>
    (k_pending c \<noteq> [] \<or> k_timers c \<noteq> [] \<or> (\<exists>j st. Enqueuing j st \<in> set (k_workers c)) \<longrightarrow>
       length (k_jobs c) < length nodes) \<and>
    mset (map s_node (filter s_done (k_seen c))) \<subseteq># mset nodes"
  using coord_room [OF assms] unfolding done_nodes_def by blast

theorem jobs_never_block_witness:
  "length (k_jobs (coord_init sample_nodes)) < length sample_nodes"
  using jobs_never_block [OF coord_reach.init, of sample_nodes] by (simp add: coord_init_def sample_nodes_def)

text \<open>
  C15. Coordination ends. Once the context is done, the workers, timers and the receiver take at most as many more steps as the
  measure of the state, whichever nodes answer or not; the receiver can be brought to have a final status from every node,
  exactly once each; and every course of events that cannot go on has brought it there. So the receiving loop ends
  after the deadline.
\<close>

theorem coordination_ends:
  assumes "coord_reach i nodes c" and "k_ctx c"
  shows "(\<forall>k c'. (coord_step (length nodes) i ^^ k) c c' \<longrightarrow> k \<le> coord_measure c) \<and>
    (\<exists>c'. (coord_step (length nodes) i)\<^sup>*\<^sup>* c c' \<and> coord_finished nodes c') \<and>
    (\<forall>c'. (coord_step (length nodes) i)\<^sup>*\<^sup>* c c' \<and> (\<nexists>c''. coord_step (length nodes) i c' c'') \<longrightarrow> coord_finished nodes c')"
  by (rule coordination.settles) (use assms in \<open>simp add: coord_late_def\<close>)

theorem coordination_ends_witness:
  "\<exists>c'. (coord_step (length sample_nodes) ''b'')\<^sup>*\<^sup>* sample_end c' \<and> coord_finished sample_nodes c'"
proof -
  have "k_ctx sample_end" by (simp add: sample_end_def)
  from coordination_ends [OF sample_reach this] show ?thesis by blast
qed

text \<open>
  The receiving loop of \<^verbatim>\<open>CollectBundle\<close> returns exactly when a final status arrives for every bundle it
  waits for, and then the cleanup goes through the first \<^verbatim>\<open>numBundles\<close> finished nodes, each once and in
  the order in which they finished; no other bundle is deleted.
\<close>

theorem collect_returns:
  shows "(CollectBundle getFile workDir b n sts s w \<noteq> None \<longleftrightarrow> n \<le> length (filter s_done sts)) \<and>
    (\<forall>r del s' w'. CollectBundle getFile workDir b n sts s w = Some (r, del, s', w') \<longrightarrow>
       del = take n (map target (filter s_done sts)))"
proof -
  have st: "c_finished (collect_start b n) = 0" "c_delete (collect_start b n) = replicate n ([], [])"
    by (simp_all add: collect_start_def)
  have "CollectBundle getFile workDir b n sts s w \<noteq> None \<longleftrightarrow>
      (\<exists>r. receive_loop getFile workDir n sts (collect_start b n) s w = Some r)"
    by (auto simp: CollectBundle_def split: option.splits prod.splits)
  moreover have "del = take n (map target (filter s_done sts))"
    if "CollectBundle getFile workDir b n sts s w = Some (r, del, s', w')" for r del s' w'
  proof -
    from that obtain c s1 w1 where l: "receive_loop getFile workDir n sts (collect_start b n) s w = Some (c, s1, w1)"
      and d: "del = c_delete c"
      by (auto simp: CollectBundle_def split: option.splits prod.splits)
    show ?thesis using receive_loop_delete [OF l] st d by simp
  qed
  ultimately show ?thesis using receive_loop_some_iff [of getFile workDir n sts "collect_start b n" s w] st(1) by simp
qed

definition sample_sts :: "BundleStatus list" where
  "sample_sts = [\<lparr>s_id = ''b'', s_node = hd sample_nodes, s_done = False, s_err = None\<rparr>,
     \<lparr>s_id = ''b'', s_node = hd sample_nodes, s_done = True, s_err = Some ''refused''\<rparr>]"

theorem collect_returns_witness:
  "CollectBundle (client_GetFile (node_http sample_handler [] (\<lambda>_. []))) ''/t'' ''b'' 1 sample_sts
     (sample_world []) sample_downloads \<noteq> None"
  using collect_returns [of "client_GetFile (node_http sample_handler [] (\<lambda>_. []))" "''/t''" "''b''" 1 sample_sts
      "sample_world []" sample_downloads]
  by (simp add: sample_sts_def)



text \<open>
  C16. End to end: when coordination has come to its end after the deadline, \<^verbatim>\<open>CollectBundle\<close> returns for the
  statuses received, and the cleanup asks every node once to delete its local bundle.
\<close>

theorem coordination_collected:
  assumes "coord_reach i nodes c" and "k_ctx c" and "\<nexists>c'. coord_step (length nodes) i c c'"
  shows "\<exists>r del s' w'. CollectBundle getFile workDir b (length nodes) (k_seen c) s w = Some (r, del, s', w') \<and>
    mset del = mset (map (\<lambda>n. (n_baseURL n, i)) nodes)"
proof -
  let ?d = "filter s_done (k_seen c)"
  have m: "mset (map s_node ?d) = mset nodes" using coord_stuck [OF assms] by (simp add: done_nodes_def)
  then have len: "length ?d = length nodes" by (metis length_map size_mset)
  have ids: "\<forall>st\<in>set ?d. s_id st = i" using coord_reach_ids [OF assms(1)] by (auto simp: all_statuses_def)
  obtain c1 s1 w1 where l: "receive_loop getFile workDir (length nodes) (k_seen c) (collect_start b (length nodes)) s w = Some (c1, s1, w1)"
    using receive_loop_some_iff [of getFile workDir "length nodes" "k_seen c" "collect_start b (length nodes)" s w] len
    by (auto simp: collect_start_def)
  have "c_delete c1 = take (length nodes) (map target ?d)"
    using receive_loop_delete [OF l] by (simp add: collect_start_def)
  then have d: "c_delete c1 = map target ?d" using len by simp
  have "map target ?d = map (\<lambda>n. (n_baseURL n, i)) (map s_node ?d)" using ids by (simp add: target_def)
  then have "mset (c_delete c1) = mset (map (\<lambda>n. (n_baseURL n, i)) nodes)"
    using d arg_cong [OF m, of "image_mset (\<lambda>n. (n_baseURL n, i))"] by (metis mset_map)
  moreover obtain r w2 where "mergeZips (c_report c1) (c_paths c1) workDir w1 = (r, w2)" by fastforce
  ultimately show ?thesis using l by (auto simp: CollectBundle_def)
qed

theorem coordination_collected_witness:
  "\<exists>r del s' w'. CollectBundle (client_GetFile (node_http sample_handler [] (\<lambda>_. []))) ''/t'' ''x'' (length sample_nodes)
       (k_seen sample_end) (sample_world []) sample_downloads = Some (r, del, s', w') \<and>
     mset del = mset (map (\<lambda>n. (n_baseURL n, ''b'')) sample_nodes)"
proof -
  have 1: "k_ctx sample_end" by (simp add: sample_end_def)
  have 2: "\<nexists>c'. coord_step (length sample_nodes) ''b'' sample_end c'" using sample_stuck by blast
  show ?thesis by (rule coordination_collected [OF sample_reach 1 2])
qed

end
