(* ===== verification/Cluster_Handler.thy ===== *)
theory Cluster_Handler
  imports Coordinator Dcos_Nodes
begin

text \<open>
  The cluster-level bundle API, \<^verbatim>\<open>api/rest/cluster_bundle_handler.go\<close>. \<^verbatim>\<open>Create\<close> writes the state of a
  cluster bundle, asks the coordinator to make a local bundle on every node and leaves a goroutine that
  collects them; \<^verbatim>\<open>List\<close>, \<^verbatim>\<open>Status\<close>, \<^verbatim>\<open>Delete\<close> and \<^verbatim>\<open>Download\<close> proxy to the masters through the client. The
  handler's \<^verbatim>\<open>writeStateFile\<close> is a second provider of the interface \<open>state_writer\<close>, so what was shown of
  state files there holds here too.
\<close>

section \<open>Configuration and options\<close>

text \<open>\<open>cb_ip\<close> is \<^verbatim>\<open>net.ParseIP\<close> followed by \<^verbatim>\<open>String\<close>; \<open>cb_https\<close> belongs to the URL builder.\<close>

record ClusterBundleHandler =
  cb_workDir :: string
  cb_url :: URLBuilder
  cb_https :: "string \<Rightarrow> string result"
  cb_ip :: "string \<Rightarrow> string"

definition NewClusterBundleHandler ::
  "string \<Rightarrow> URLBuilder \<Rightarrow> (string \<Rightarrow> string result) \<Rightarrow> (string \<Rightarrow> string) \<Rightarrow> world \<Rightarrow> ClusterBundleHandler result \<times> world" where
  "NewClusterBundleHandler workDir url https ip w =
     (case initializeWorkDir workDir w of
        (Some e, w1) \<Rightarrow> (Inl e, w1)
      | (None, w1) \<Rightarrow> (Inr \<lparr>cb_workDir = workDir, cb_url = url, cb_https = https, cb_ip = ip\<rparr>, w1))"

record options =
  o_Masters :: bool
  o_Agents :: bool

definition defaultOptions :: options where
  "defaultOptions = \<lparr>o_Masters = True, o_Agents = True\<rparr>"

text \<open>The request body: none, empty, a JSON object with some of the fields, or something else.\<close>

datatype options_body = NilBody | EmptyBody | OptionsBody "bool option" "bool option" | BadOptions string

fun getOptionsFromRequest :: "options_body \<Rightarrow> options result" where
  "getOptionsFromRequest NilBody = Inr defaultOptions"
| "getOptionsFromRequest EmptyBody = Inr defaultOptions"
| "getOptionsFromRequest (OptionsBody m a) =
     Inr \<lparr>o_Masters = keep (o_Masters defaultOptions) m, o_Agents = keep (o_Agents defaultOptions) a\<rparr>"
| "getOptionsFromRequest (BadOptions e) = Inl e"

section \<open>State files\<close>

definition cb_handler :: "ClusterBundleHandler \<Rightarrow> BundleHandler" where
  "cb_handler c = \<lparr>bh_workDir = cb_workDir c, bh_collectors = []\<rparr>"

definition cb_writeStateFile :: "ClusterBundleHandler \<Rightarrow> Bundle \<Rightarrow> world \<Rightarrow> bundle_doc \<times> string option \<times> world" where
  "cb_writeStateFile c b w =
     (let bundleStatus = marshal_bundle b in
      case sys_write_file (state_path (cb_workDir c) (bID b)) (StateDoc bundleStatus) w of
        (Some e, w1) \<Rightarrow> (bundleStatus, Some (msg [''could not update state file '', bID b, '': '', e]), w1)
      | (None, w1) \<Rightarrow> (bundleStatus, None, w1))"

definition cb_failed :: "ClusterBundleHandler \<Rightarrow> Bundle \<Rightarrow> string \<Rightarrow> world \<Rightarrow> string option \<times> world" where
  "cb_failed c b err w =
     (case sys_now w of (now, w1) \<Rightarrow>
      case cb_writeStateFile c (bundle_Failed now err b) w1 of (doc, e, w2) \<Rightarrow> (e, w2))"

lemma cb_write_eq:
  assumes "writeStateFile (cb_handler c) b w = (d, e, w')"
  shows "cb_writeStateFile c b w =
    (d, map_option (\<lambda>x. msg [''could not update state file '', bID b, '': '', x]) e, w')"
  using assms
  by (auto simp: cb_writeStateFile_def writeStateFile_def cb_handler_def Let_def split: prod.splits option.splits)

lemma cb_write_cases:
  assumes "cb_writeStateFile c b w = (d, e, w')"
  obtains e0 where "writeStateFile (cb_handler c) b w = (d, e0, w')" and "e0 = None \<longleftrightarrow> e = None"
proof -
  obtain d0 e0 w0 where ws: "writeStateFile (cb_handler c) b w = (d0, e0, w0)" by (metis prod_cases3)
  show ?thesis using that [of e0] cb_write_eq [OF ws] assms ws by auto
qed

interpretation cluster_state: state_writer "cb_handler c" "cb_writeStateFile c" for c
proof
  fix b :: Bundle and w d e w'
  assume "cb_writeStateFile c b w = (d, e, w')"
  then obtain e0 where ws: "writeStateFile (cb_handler c) b w = (d, e0, w')" by (rule cb_write_cases)
  show "d = marshal_bundle b" using ws by (rule node_state.put_doc)
  show "same_except {state_path (bh_workDir (cb_handler c)) (bID b)} w w'" using ws by (rule node_state.put_frame)
next
  fix b :: Bundle and w d w'
  assume "cb_writeStateFile c b w = (d, None, w')"
  then have "writeStateFile (cb_handler c) b w = (d, None, w')" by (rule cb_write_cases) simp
  then show "fs_get w' (state_path (bh_workDir (cb_handler c)) (bID b)) = Some (File (StateDoc (marshal_bundle b)))"
    by (rule node_state.put_stores)
next
  fix b :: Bundle and w d e w' x
  assume p: "cb_writeStateFile c b w = (d, e, w')"
    and f: "fs_get w' (state_path (bh_workDir (cb_handler c)) (bID b)) = Some (File x)"
  obtain e0 where "writeStateFile (cb_handler c) b w = (d, e0, w')" using p by (rule cb_write_cases)
  from node_state.put_own [OF this f]
  show "fs_get w (state_path (bh_workDir (cb_handler c)) (bID b)) = Some (File x) \<or> own_blob (bID b) x" .
next
  fix b :: Bundle and w
  assume "calm w" and "valid_id (bID b)" and "fs_get w (bundle_dir (bh_workDir (cb_handler c)) (bID b)) = Some Dir"
    and "fs_get w (state_path (bh_workDir (cb_handler c)) (bID b)) \<noteq> Some Dir"
  then obtain d w' where "writeStateFile (cb_handler c) b w = (d, None, w')" using node_state.put_calm by blast
  from cb_write_eq [OF this] show "\<exists>d w'. cb_writeStateFile c b w = (d, None, w')" by simp
qed

section \<open>Nodes\<close>

text \<open>Nodes whose URL cannot be built are skipped.\<close>

fun to_nodes :: "ClusterBundleHandler \<Rightarrow> Node list \<Rightarrow> node list" where
  "to_nodes c [] = []"
| "to_nodes c (n # ns) =
     (let ip = cb_ip c (IP n) in
      case BaseURL (cb_https c) (cb_url c) ip (Role n) of
        Inl e \<Rightarrow> to_nodes c ns
      | Inr url \<Rightarrow> \<lparr>n_IP = ip, n_Role = Role n, n_baseURL = url\<rparr> # to_nodes c ns)"

definition cb_getMasterNodes :: "ClusterBundleHandler \<Rightarrow> Node list result \<Rightarrow> node list result" where
  "cb_getMasterNodes c masters = (case masters of Inl e \<Rightarrow> Inl e | Inr ns \<Rightarrow> Inr (to_nodes c ns))"

section \<open>Create\<close>

text \<open>
  \<open>masters\<close> and \<open>agents\<close> are the results of the finders, \<open>uuid\<close> that of \<^verbatim>\<open>uuid.NewUUID\<close>. A call that
  starts the coordination returns the bundle, the local id and the nodes.
\<close>

type_synonym started = "(Bundle \<times> string \<times> node list) option"

definition cb_fail_with :: "ClusterBundleHandler \<Rightarrow> Bundle \<Rightarrow> string \<Rightarrow> int \<Rightarrow> string \<Rightarrow> world \<Rightarrow> outcome \<times> world \<times> started" where
  "cb_fail_with c b err code m w = (case cb_failed c b err w of (e, w1) \<Rightarrow> (writeJSONError code m, w1, None))"

definition cb_start ::
  "ClusterBundleHandler \<Rightarrow> options \<Rightarrow> Node list result \<Rightarrow> Node list result \<Rightarrow> string result \<Rightarrow> Bundle \<Rightarrow> bundle_doc \<Rightarrow> world \<Rightarrow>
     outcome \<times> world \<times> started" where
  "cb_start c opts masters agents uuid b doc w =
     (case (if o_Masters opts then masters else Inr []) of
        Inl e \<Rightarrow> cb_fail_with c b e StatusInternalServerError
                  (msg [''error getting master nodes for bundle '', bID b, '': '', e]) w
      | Inr ms \<Rightarrow>
          (case (if o_Agents opts then agents else Inr []) of
             Inl e \<Rightarrow> cb_fail_with c b e StatusInternalServerError
                       (msg [''error getting agent nodes for bundle '', bID b, '': '', e]) w
           | Inr as \<Rightarrow>
               (case uuid of
                  Inl e \<Rightarrow> cb_fail_with c b e StatusInternalServerError
                            (msg [''unable to create local bundle id for bundle '', bID b, '': '', e]) w
                | Inr localID \<Rightarrow>
                    (respond StatusOK (JsonBundle doc), w, Some (b, localID, to_nodes c (ms @ as))))))"

definition cb_create_new ::
  "ClusterBundleHandler \<Rightarrow> options \<Rightarrow> Node list result \<Rightarrow> Node list result \<Rightarrow> string result \<Rightarrow> string \<Rightarrow> world \<Rightarrow>
     outcome \<times> world \<times> started" where
  "cb_create_new c opts masters agents uuid i w1 =
     (case sys_mkdir_all (bundle_dir (cb_workDir c) i) w1 of
        (Some e, w2) \<Rightarrow>
          (writeJSONError StatusInsufficientStorage (msg [''could not create bundle '', i, '' workdir: '', e]), w2, None)
      | (None, w2) \<Rightarrow>
          (case sys_now w2 of (started, w3) \<Rightarrow>
           let b = zero_bundle\<lparr>bID := i, bType := Cluster, bStarted := started, bStatus := Started\<rparr> in
           case cb_writeStateFile c b w3 of
             (doc, Some e, w4) \<Rightarrow> (writeJSONError StatusInsufficientStorage e, w4, None)
           | (doc, None, w4) \<Rightarrow>
               (case sys_create (data_path (cb_workDir c) i) w4 of
                  (Some e, w5) \<Rightarrow> cb_fail_with c b e StatusInsufficientStorage
                                  (msg [''could not create data file '', i, '': '', e]) w5
                | (None, w5) \<Rightarrow> cb_start c opts masters agents uuid b doc w5)))"

definition cb_bundleExists :: "ClusterBundleHandler \<Rightarrow> string \<Rightarrow> world \<Rightarrow> bool option \<times> world" where
  "cb_bundleExists c i w =
     (case sys_stat (bundle_dir (cb_workDir c) i) w of
        (StatNotExist, w1) \<Rightarrow> (Some False, w1)
      | (StatErr e, w1) \<Rightarrow> (None, w1)
      | (StatOk n, w1) \<Rightarrow> (Some (n = Dir), w1))"

lemma cb_bundleExists_eq [simp]: "cb_bundleExists c i w = bundleExists (cb_workDir c) i w"
  by (simp add: cb_bundleExists_def bundleExists_def split: prod.splits stat_result.splits inode.splits)

definition cb_Create ::
  "ClusterBundleHandler \<Rightarrow> options_body \<Rightarrow> Node list result \<Rightarrow> Node list result \<Rightarrow> string result \<Rightarrow> string \<Rightarrow> world \<Rightarrow>
     outcome \<times> world \<times> started" where
  "cb_Create c body masters agents uuid i w =
     (case getOptionsFromRequest body of
        Inl e \<Rightarrow> (writeJSONError StatusBadRequest (msg [''could not parse request body '', e]), w, None)
      | Inr opts \<Rightarrow>
          (case cb_bundleExists c i w of
             (None, w1) \<Rightarrow> (Panic nil_deref, w1, None)
           | (Some True, w1) \<Rightarrow>
               (writeJSONError StatusConflict (msg [''bundle '', i, '' already exists'']), w1, None)
           | (Some False, w1) \<Rightarrow> cb_create_new c opts masters agents uuid i w1))"

section \<open>Waiting for the coordinator\<close>

text \<open>Writing through the data file opened by \<^verbatim>\<open>Create\<close>: a file removed meanwhile is not made again.\<close>

definition write_open :: "string \<Rightarrow> blob \<Rightarrow> world \<Rightarrow> string option \<times> world" where
  "write_open p b w =
     (case failing w of
        Some e \<Rightarrow> (Some e, flush_zip p (Torn b) (tick w))
      | None \<Rightarrow> (None, flush_zip p b (tick w)))"

text \<open>\<open>r\<close> is the result of \<^verbatim>\<open>CollectBundle\<close>; on an error its path is empty.\<close>

definition waitAndCollectRemoteBundle :: "ClusterBundleHandler \<Rightarrow> Bundle \<Rightarrow> string result \<Rightarrow> world \<Rightarrow> world" where
  "waitAndCollectRemoteBundle c b0 r w =
     (let bundleFilePath = (case r of Inl e \<Rightarrow> [] | Inr p \<Rightarrow> p);
          b = (case r of Inl e \<Rightarrow> b0\<lparr>bErrors := bErrors b0 @ [e]\<rparr> | Inr p \<Rightarrow> b0) in
      case sys_read_file bundleFilePath w of
        (Inl e, w1) \<Rightarrow> snd (cb_failed c b e w1)
      | (Inr content, w1) \<Rightarrow>
          (case write_open (data_path (cb_workDir c) (bID b)) content w1 of
             (Some e, w2) \<Rightarrow> snd (cb_failed c b e w2)
           | (None, w2) \<Rightarrow>
               (case sys_now w2 of (stopped, w3) \<Rightarrow>
                case cb_writeStateFile c (b\<lparr>bStopped := stopped, bStatus := Done\<rparr>) w3 of (doc, e, w4) \<Rightarrow> w4)))"

section \<open>Proxies\<close>

fun list_masters :: "'s http \<Rightarrow> node list \<Rightarrow> Bundle list \<Rightarrow> 's \<Rightarrow> (client_error + Bundle list) \<times> 's" where
  "list_masters ht [] bundles s = (Inr bundles, s)"
| "list_masters ht (n # ns) bundles s =
     (case client_List ht (n_baseURL n) s of
        (Inl e, s1) \<Rightarrow> (Inl e, s1)
      | (Inr bs, s1) \<Rightarrow> list_masters ht ns (bundles @ bs) s1)"

definition cb_List :: "ClusterBundleHandler \<Rightarrow> 's http \<Rightarrow> Node list result \<Rightarrow> 's \<Rightarrow> outcome \<times> 's" where
  "cb_List c ht masters s =
     (case cb_getMasterNodes c masters of
        Inl e \<Rightarrow> (writeJSONError StatusInternalServerError (msg [''unable to get list of master nodes: '', e]), s)
      | Inr ns \<Rightarrow>
          (case list_masters ht ns [] s of
             (Inl e, s1) \<Rightarrow> (writeJSONError StatusInternalServerError
                (msg [''unable to get list of bundles from all masters: '', client_error_Error e]), s1)
           | (Inr bs, s1) \<Rightarrow> (respond StatusOK (JsonBundles (map marshal_bundle bs)), s1)))"

fun status_masters :: "'s http \<Rightarrow> node list \<Rightarrow> string \<Rightarrow> 's \<Rightarrow> outcome \<times> 's" where
  "status_masters ht [] i s =
     (writeJSONError StatusNotFound (msg [''bundle '', i, '' did not exist on any masters'']), s)"
| "status_masters ht (n # ns) i s =
     (case client_Status ht (n_baseURL n) i s of
        (Inl (DiagnosticsBundleUnreadableError j), s1) \<Rightarrow>
          (writeJSONError StatusInternalServerError (client_error_Error (DiagnosticsBundleUnreadableError j)), s1)
      | (Inl e, s1) \<Rightarrow> status_masters ht ns i s1
      | (Inr b, s1) \<Rightarrow> (respond StatusOK (JsonBundle (marshal_bundle b)), s1))"

definition cb_Status :: "ClusterBundleHandler \<Rightarrow> 's http \<Rightarrow> Node list result \<Rightarrow> string \<Rightarrow> 's \<Rightarrow> outcome \<times> 's" where
  "cb_Status c ht masters i s =
     (case cb_getMasterNodes c masters of
        Inl e \<Rightarrow> (writeJSONError StatusInternalServerError (msg [''unable to get list of master nodes: '', e]), s)
      | Inr ns \<Rightarrow> status_masters ht ns i s)"

fun delete_masters :: "'s http \<Rightarrow> node list \<Rightarrow> string \<Rightarrow> bool \<Rightarrow> 's \<Rightarrow> outcome \<times> 's" where
  "delete_masters ht [] i found s =
     (if \<not> found then (writeJSONError StatusNotFound (msg [''bundle '', i, '' not found on any master'']), s)
      else (respond StatusOK NoBody, s))"
| "delete_masters ht (n # ns) i found s =
     (case client_Delete ht (n_baseURL n) i s of
        (Some (DiagnosticsBundleUnreadableError j), s1) \<Rightarrow>
          (writeJSONError StatusInternalServerError (client_error_Error (DiagnosticsBundleUnreadableError j)), s1)
      | (Some e, s1) \<Rightarrow> delete_masters ht ns i found s1
      | (None, s1) \<Rightarrow> delete_masters ht ns i True s1)"

definition cb_Delete :: "ClusterBundleHandler \<Rightarrow> 's http \<Rightarrow> Node list result \<Rightarrow> string \<Rightarrow> 's \<Rightarrow> outcome \<times> 's" where
  "cb_Delete c ht masters i s =
     (case cb_getMasterNodes c masters of
        Inl e \<Rightarrow> (writeJSONError StatusInternalServerError (msg [''unable to get list of masters: '', e]), s)
      | Inr ns \<Rightarrow> delete_masters ht ns i False s)"

text \<open>
  The search of \<^verbatim>\<open>Download\<close>: after an error that is neither of the two kinds it reads the status of a nil
  bundle. \<open>Inl\<close> is what is answered when the search ends the request.
\<close>

fun find_done :: "'s http \<Rightarrow> node list \<Rightarrow> string \<Rightarrow> 's \<Rightarrow> (outcome + node) \<times> 's" where
  "find_done ht [] i s =
     (Inl (writeJSONError StatusNotFound (client_error_Error (DiagnosticsBundleNotFoundError i))), s)"
| "find_done ht (n # ns) i s =
     (case client_Status ht (n_baseURL n) i s of
        (Inl (DiagnosticsBundleUnreadableError j), s1) \<Rightarrow>
          (Inl (writeJSONError StatusInternalServerError (client_error_Error (DiagnosticsBundleUnreadableError j))), s1)
      | (Inl (DiagnosticsBundleNotFoundError j), s1) \<Rightarrow> find_done ht ns i s1
      | (Inl e, s1) \<Rightarrow> (Inl (Panic nil_deref), s1)
      | (Inr b, s1) \<Rightarrow> if bStatus b = Done then (Inr n, s1) else find_done ht ns i s1)"

text \<open>\<open>tmp\<close> is the result of \<^verbatim>\<open>ioutil.TempDir\<close>; the directory is removed at the end.\<close>

definition cb_Download ::
  "ClusterBundleHandler \<Rightarrow> 's http \<Rightarrow> Node list result \<Rightarrow> string result \<Rightarrow> string \<Rightarrow> 's \<Rightarrow> world \<Rightarrow> outcome \<times> 's \<times> world" where
  "cb_Download c ht masters tmp i s w =
     (case cb_getMasterNodes c masters of
        Inl e \<Rightarrow> (writeJSONError StatusInternalServerError (msg [''unable to get list of masters: '', e]), s, w)
      | Inr ns \<Rightarrow>
          (case find_done ht ns i s of
             (Inl r, s1) \<Rightarrow> (r, s1, w)
           | (Inr n, s1) \<Rightarrow>
               (case tmp of
                  Inl e \<Rightarrow> (writeJSONError StatusInternalServerError (msg [''error opening temp file to download bundle '', e]), s1, w)
                | Inr bundleDir \<Rightarrow>
                    (let bundleFilename = join [bundleDir, ''bundle.zip'']; w0 = fs_put bundleDir Dir w in
                     case client_GetFile ht (n_baseURL n) i bundleFilename s1 w0 of
                       (Some e, s2, w1) \<Rightarrow>
                         (writeJSONError StatusInternalServerError (msg [''error downloading bundle: '', client_error_Error e]),
                          s2, fs_del bundleDir (fs_del bundleFilename w1))
                     | (None, s2, w1) \<Rightarrow>
                         (case serve_file (download_headers i) bundleFilename w1 of
                            (r, w2) \<Rightarrow> (r, s2, fs_del bundleDir (fs_del bundleFilename w2)))))))"

section \<open>Facts about Create\<close>

lemma cb_fail_with_code: "cb_fail_with c b e code m w = (o', w', st) \<Longrightarrow> outcome_code o' = Some code \<and> st = None"
  by (auto simp: cb_fail_with_def writeJSONError_def split: prod.splits)

lemma cb_start_cases:
  assumes "cb_start c opts masters agents uuid b doc w = (o', w', st)"
  shows "st = None \<and> outcome_code o' = Some 500 \<or>
    (\<exists>l ns. st = Some (b, l, ns) \<and> o' = respond 200 (JsonBundle doc) \<and> w' = w)"
  using assms by (auto simp: cb_start_def split: sum.splits dest: cb_fail_with_code)

lemma cb_create_new_cases:
  assumes "cb_create_new c opts masters agents uuid i w = (o', w', st)" and "valid_id i"
  shows "st = None \<and> outcome_code o' \<noteq> Some 200 \<or>
    (\<exists>b l ns. st = Some (b, l, ns) \<and> o' = respond 200 (JsonBundle (marshal_bundle b)) \<and> bID b = i \<and> bType b = Cluster \<and>
       bStatus b = Started \<and> slot_of (cb_handler c) w' i = Stored b (Some (File (Bytes []))))"
proof -
  let ?wd = "cb_workDir c" and ?h = "cb_handler c"
  have wd: "bh_workDir ?h = ?wd" by (simp add: cb_handler_def)
  obtain r w2 where mk: "sys_mkdir_all (bundle_dir ?wd i) w = (r, w2)" by fastforce
  obtain t w3 where nw: "sys_now w2 = (t, w3)" by fastforce
  let ?b = "zero_bundle\<lparr>bID := i, bType := Cluster, bStarted := t, bStatus := Started\<rparr>"
  obtain doc e w4 where ws: "cb_writeStateFile c ?b w3 = (doc, e, w4)" by (metis prod_cases3)
  obtain r5 w5 where cr: "sys_create (data_path ?wd i) w4 = (r5, w5)" by fastforce
  note defs = cb_create_new_def mk nw ws cr
  show ?thesis
  proof (cases "r = None \<and> e = None \<and> r5 = None")
    case False
    then show ?thesis
      using assms(1) by (cases r; cases e; cases r5) (auto simp: defs writeJSONError_def Let_def dest!: cb_fail_with_code)
  next
    case True
    then have st: "cb_start c opts masters agents uuid ?b doc w5 = (o', w', st)"
      using assms(1) by (auto simp: defs Let_def)
    have "fs_get w3 (bundle_dir ?wd i) = Some Dir"
      using mkdir_bundle_dir [of ?h i w w2] mk True assms(2) wd read_only_calls(4) [OF nw] by simp
    then have s4: "slot_of ?h w4 i = Stored ?b (fs_get w3 (data_path ?wd i))"
      and d4: "fs_get w4 (bundle_dir ?wd i) = Some Dir"
      using cluster_state.put_slot [of c ?b w3 doc w4] same_except_get [OF cluster_state.put_frame [OF ws]]
        ws True assms(2) wd by (simp_all add: bundle_paths)
    have fr: "same_except {data_path ?wd i} w4 w5" using cr by (rule frame_calls(5))
    have "fs_get w5 (bundle_dir ?wd i) = Some Dir" and "fs_get w5 (state_path ?wd i) = fs_get w4 (state_path ?wd i)"
      using same_except_get [OF fr] d4 assms(2) by (simp_all add: bundle_paths)
    then have "slot_of ?h w5 i = Stored ?b (Some (File (Bytes [])))"
      using s4 d4 create_ok [of _ w4 w5] cr True wd
      by (auto simp: slot_of_def split: option.splits inode.splits prod.splits)
    then show ?thesis
      using cb_start_cases [OF st] cluster_state.put_doc [OF ws] by (auto simp: zero_bundle_def)
  qed
qed

section \<open>Facts about the proxies\<close>

text \<open>The masters that were asked in vain: each answered with an error that does not end the search.\<close>

fun skipped :: "'s http \<Rightarrow> string \<Rightarrow> node list \<Rightarrow> 's \<Rightarrow> 's \<Rightarrow> bool" where
  "skipped ht i [] s s' = (s = s')"
| "skipped ht i (n # ns) s s' =
     (case client_Status ht (n_baseURL n) i s of
        (Inl (DiagnosticsBundleUnreadableError j), s1) \<Rightarrow> False
      | (Inl e, s1) \<Rightarrow> skipped ht i ns s1 s'
      | (Inr b, s1) \<Rightarrow> False)"

lemma status_masters_cases:
  assumes "status_masters ht ns i s = (o', s')"
  obtains (found) xs n ys s1 b where "ns = xs @ n # ys" and "skipped ht i xs s s1"
      and "client_Status ht (n_baseURL n) i s1 = (Inr b, s')" and "o' = respond 200 (JsonBundle (marshal_bundle b))"
  | (unreadable) xs n ys s1 j where "ns = xs @ n # ys" and "skipped ht i xs s s1"
      and "client_Status ht (n_baseURL n) i s1 = (Inl (DiagnosticsBundleUnreadableError j), s')"
      and "outcome_code o' = Some 500"
  | (missing) "skipped ht i ns s s'" and "outcome_code o' = Some 404"
  using assms
proof (induction ns arbitrary: s thesis)
  case Nil
  then show ?case by (auto simp: writeJSONError_def)
next
  case (Cons n ns)
  obtain r s1 where c: "client_Status ht (n_baseURL n) i s = (r, s1)" by fastforce
  show ?case
  proof (cases r)
    case (Inr b)
    then show ?thesis using Cons.prems(1) [of "[]" n ns s b] Cons.prems(4) c by simp
  next
    case (Inl e)
    show ?thesis
    proof (cases "\<exists>j. e = DiagnosticsBundleUnreadableError j")
      case True
      then show ?thesis using Cons.prems(2) [of "[]" n ns s] Cons.prems(4) c Inl by (auto simp: writeJSONError_def)
    next
      case False
      then have sk: "skipped ht i (n # xs) s t = skipped ht i xs s1 t" for xs t
        using c Inl by (auto split: client_error.splits)
      have st: "status_masters ht ns i s1 = (o', s')"
        using Cons.prems(4) c Inl False by (auto split: client_error.splits)
      show ?thesis
      proof (rule Cons.IH [OF _ _ _ st])
        fix xs m ys s2 b
        assume "ns = xs @ m # ys" "skipped ht i xs s1 s2" "client_Status ht (n_baseURL m) i s2 = (Inr b, s')"
          "o' = respond 200 (JsonBundle (marshal_bundle b))"
        then show thesis using Cons.prems(1) [of "n # xs" m ys s2 b] sk by simp
      next
        fix xs m ys s2 j
        assume "ns = xs @ m # ys" "skipped ht i xs s1 s2"
          "client_Status ht (n_baseURL m) i s2 = (Inl (DiagnosticsBundleUnreadableError j), s')" "outcome_code o' = Some 500"
        then show thesis using Cons.prems(2) [of "n # xs" m ys s2 j] sk by simp
      next
        assume "skipped ht i ns s1 s'" "outcome_code o' = Some 404"
        then show thesis using Cons.prems(3) sk by simp
      qed
    qed
  qed
qed

lemma delete_masters_code:
  "delete_masters ht ns i found s = (o', s') \<Longrightarrow> outcome_code o' = Some 200 \<Longrightarrow>
     found \<or> (\<exists>n\<in>set ns. \<exists>s1 s2. client_Delete ht (n_baseURL n) i s1 = (None, s2))"
proof (induction ns arbitrary: found s)
  case (Cons n ns)
  obtain r s1 where c: "client_Delete ht (n_baseURL n) i s = (r, s1)" by fastforce
  show ?case
  proof (cases r)
    case None
    then show ?thesis using c by auto
  next
    case (Some e)
    then show ?thesis
      using Cons c by (cases e) (auto simp: writeJSONError_def)
  qed
qed (auto simp: writeJSONError_def split: if_splits)

section \<open>Facts about waiting\<close>

lemma write_open_frame: "write_open p b w = (e, w') \<Longrightarrow> same_except {p} w w'"
  by (auto simp: write_open_def same_except_def flush_zip_get split: option.splits)

lemma cb_put_calm:
  assumes "calm w" and "valid_id (bID b)" and "slot_of (cb_handler c) w (bID b) = Stored b0 d"
  obtains doc w' where "cb_writeStateFile c b w = (doc, None, w')" and "slot_of (cb_handler c) w' (bID b) = Stored b d"
proof -
  note D = slot_Stored_Dir [OF assms(3)] and S = slot_Stored_state [OF assms(3)]
  obtain doc w' where ws: "cb_writeStateFile c b w = (doc, None, w')"
    using cluster_state.put_calm [OF assms(1,2) D] S by blast
  show ?thesis using that [OF ws] cluster_state.put_slot [OF ws assms(2) D] S by simp
qed

lemma cb_failed_calm:
  assumes "calm w" and "valid_id (bID b)" and "slot_of (cb_handler c) w (bID b) = Stored b0 d"
  obtains b' where "slot_of (cb_handler c) (snd (cb_failed c b err w)) (bID b) = Stored b' d"
    and "bStatus b' = Failed" and "bErrors b' = bErrors b @ [err]"
proof -
  let ?b = "bundle_Failed (clock w (calls w)) err b"
  have f: "bID ?b = bID b" "bStatus ?b = Failed" "bErrors ?b = bErrors b @ [err]" by (simp_all add: bundle_Failed_def)
  obtain doc w' where ws: "cb_writeStateFile c ?b (tick w) = (doc, None, w')"
    and sl: "slot_of (cb_handler c) w' (bID ?b) = Stored ?b d"
    by (rule cb_put_calm [of "tick w" ?b c b0 d]) (use assms f in simp_all)
  have "snd (cb_failed c b err w) = w'" using ws by (simp add: cb_failed_def sys_now_def)
  then show ?thesis using that [of ?b] sl f by simp
qed

lemma cluster_collects:
  assumes "calm w" and "valid_id (bID b)" and "slot_of (cb_handler c) w (bID b) = Stored b0 (Some (File d))"
    and "fs_get w p = Some (File content)"
  obtains b' where "bStatus b' = Done"
    and "slot_of (cb_handler c) (waitAndCollectRemoteBundle c b (Inr p) w) (bID b) = Stored b' (Some (File content))"
proof -
  let ?dp = "data_path (cb_workDir c) (bID b)"
  have rd: "sys_read_file p w = (Inr content, tick w)"
    using read_file_calm [OF assms(1)] assms(4) by simp
  let ?w2 = "flush_zip ?dp content (tick (tick w))"
  have wo: "write_open ?dp content (tick w) = (None, ?w2)"
    using assms(1) by (simp add: write_open_def calm_failing)
  have isf: "is_file w ?dp"
    using slot_Stored_state [OF assms(3)] by (simp add: is_file_def cb_handler_def)
  have s2: "slot_of (cb_handler c) ?w2 (bID b) = Stored b0 (Some (File content))"
    using assms(2,3) isf
    by (auto simp: slot_of_def cb_handler_def flush_zip_get bundle_paths split: if_splits option.splits inode.splits prod.splits)
  have c2: "calm ?w2" using assms(1) by (simp add: calm_def)
  let ?b = "b\<lparr>bStopped := clock ?w2 (calls ?w2), bStatus := Done\<rparr>"
  obtain doc w' where ws: "cb_writeStateFile c ?b (tick ?w2) = (doc, None, w')"
    and sl: "slot_of (cb_handler c) w' (bID ?b) = Stored ?b (Some (File content))"
    by (rule cb_put_calm [of "tick ?w2" ?b c b0 "Some (File content)"]) (use assms(2) s2 c2 in simp_all)
  have "waitAndCollectRemoteBundle c b (Inr p) w = w'"
    using rd wo ws by (simp add: waitAndCollectRemoteBundle_def sys_now_def Let_def)
  then show ?thesis using that [of ?b] sl by simp
qed

section \<open>Properties\<close>

text \<open>Concrete inputs for the witnesses.\<close>

definition sample_cluster :: ClusterBundleHandler where
  "sample_cluster = \<lparr>cb_workDir = ''/w'', cb_url = \<lparr>agentPort = 61001, masterPort = 1050, forceTLS = False\<rparr>,
     cb_https = Inr, cb_ip = id\<rparr>"

definition sample_masters :: "Node list result" where
  "sample_masters = Inr [plain_Node False MasterRole ''10.0.0.1'']"

definition timeout_http :: "world http" where
  "timeout_http = \<lparr>ht_new = (\<lambda>_. None), ht_do = (\<lambda>m u s. (Inl ''timeout'', s)), ht_read = (\<lambda>_. [])\<rparr>"

text \<open>
  C20. The cluster-level \<^verbatim>\<open>Create\<close> answers 200 exactly when it has started the coordination; then no bundle
  was stored under the id before, and afterwards the store holds the answered bundle of type \<^const>\<open>Cluster\<close>,
  \<^const>\<open>Started\<close>, with an empty data file. This holds whichever calls fail and whatever the finders return.
\<close>

theorem cluster_create_truthful:
  assumes "cb_Create c body masters agents uuid i w = (o', w', st)" and "valid_id i"
  shows "(outcome_code o' = Some 200 \<longleftrightarrow> st \<noteq> None) \<and>
    (\<forall>b l ns. st = Some (b, l, ns) \<longrightarrow>
       slot_of (cb_handler c) w i = Absent \<and> slot_of (cb_handler c) w' i = Stored b (Some (File (Bytes []))) \<and>
       bID b = i \<and> bType b = Cluster \<and> bStatus b = Started \<and> o' = respond 200 (JsonBundle (marshal_bundle b)))"
proof (cases "getOptionsFromRequest body")
  case (Inl e)
  then show ?thesis using assms(1) by (auto simp: cb_Create_def writeJSONError_def)
next
  case (Inr opts)
  obtain r w1 where ex: "bundleExists (cb_workDir c) i w = (r, w1)" by fastforce
  show ?thesis
  proof (cases "r = Some False")
    case True
    then have cn: "cb_create_new c opts masters agents uuid i w1 = (o', w', st)"
      using assms(1) ex Inr by (simp add: cb_Create_def)
    have "slot_of (cb_handler c) w i = Absent"
      using bundleExists_Dir(3) [OF ex True] by (simp add: slot_of_def cb_handler_def)
    then show ?thesis using cb_create_new_cases [OF cn assms(2)] by auto
  next
    case False
    then show ?thesis
      using assms(1) ex Inr by (auto simp: cb_Create_def writeJSONError_def split: option.splits bool.splits)
  qed
qed

theorem cluster_create_truthful_witness:
  "\<exists>o' w' b l ns. cb_Create sample_cluster EmptyBody sample_masters (Inr []) (Inr ''u'') ''a'' (sample_world []) = (o', w', Some (b, l, ns)) \<and>
     slot_of (cb_handler sample_cluster) w' ''a'' = Stored b (Some (File (Bytes []))) \<and> bType b = Cluster"
proof -
  let ?r = "cb_Create sample_cluster EmptyBody sample_masters (Inr []) (Inr ''u'') ''a'' (sample_world [])"
  obtain o' w' st where r: "?r = (o', w', st)" by (metis prod_cases3)
  have "outcome_code (fst ?r) = Some 200" by code_simp
  moreover have "valid_id ''a''" by code_simp
  ultimately show ?thesis using cluster_create_truthful [OF r] r by auto
qed

text \<open>
  A cluster bundle settles. When the coordinator has returned and no call fails, the waiting goroutine
  leaves the bundle finished: \<^const>\<open>Done\<close>, with the merged archive as its data file, if the coordinator gave a
  file, and \<^const>\<open>Failed\<close>, with the coordinator's error among its errors, if it gave an error.
\<close>

theorem cluster_bundle_settles:
  assumes "calm w" and "valid_id (bID b)" and "slot_of (cb_handler c) w (bID b) = Stored b0 (Some (File d))"
    and "fs_get w [] = None" and "\<And>p. r = Inr p \<Longrightarrow> fs_get w p = Some (File content)"
  shows "\<exists>b'. IsFinished b' \<and> (case r of
      Inr p \<Rightarrow> bStatus b' = Done \<and>
        slot_of (cb_handler c) (waitAndCollectRemoteBundle c b r w) (bID b) = Stored b' (Some (File content))
    | Inl e \<Rightarrow> bStatus b' = Failed \<and> e \<in> set (bErrors b') \<and>
        slot_of (cb_handler c) (waitAndCollectRemoteBundle c b r w) (bID b) = Stored b' (Some (File d)))"
proof (cases r)
  case (Inl e)
  let ?b = "b\<lparr>bErrors := bErrors b @ [e]\<rparr>"
  have rd: "sys_read_file [] w = (Inl (no_such_file ''open'' []), tick w)"
    using assms(1,4) by (simp add: sys_read_file_def calm_failing)
  obtain b' where sl: "slot_of (cb_handler c) (snd (cb_failed c ?b (no_such_file ''open'' []) (tick w))) (bID ?b) =
      Stored b' (Some (File d))" and f: "bStatus b' = Failed" "bErrors b' = bErrors ?b @ [no_such_file ''open'' []]"
    by (rule cb_failed_calm [of "tick w" ?b c b0 "Some (File d)"]) (use assms in simp_all)
  have "waitAndCollectRemoteBundle c b r w = snd (cb_failed c ?b (no_such_file ''open'' []) (tick w))"
    using rd Inl by (simp add: waitAndCollectRemoteBundle_def Let_def)
  then show ?thesis using sl f Inl by (intro exI [of _ b']) (simp add: IsFinished_def)
next
  case (Inr p)
  obtain b' where "bStatus b' = Done"
    "slot_of (cb_handler c) (waitAndCollectRemoteBundle c b (Inr p) w) (bID b) = Stored b' (Some (File content))"
    by (rule cluster_collects [OF assms(1-3) assms(5) [OF Inr]])
  then show ?thesis using Inr by (intro exI [of _ b']) (simp add: IsFinished_def)
qed

theorem cluster_bundle_settles_witness:
  "\<exists>b'. bStatus b' = Failed \<and> ''merge failed'' \<in> set (bErrors b') \<and>
     slot_of (cb_handler sample_cluster) (waitAndCollectRemoteBundle sample_cluster done_bundle (Inl ''merge failed'') (sample_world done_files)) ''a'' =
       Stored b' (Some (File (Zip [])))"
proof -
  have 1: "calm (sample_world done_files)" by (simp add: calm_def sample_world_def)
  have 2: "valid_id (bID done_bundle)" "bID done_bundle = ''a''" and
    3: "slot_of (cb_handler sample_cluster) (sample_world done_files) (bID done_bundle) = Stored done_bundle (Some (File (Zip [])))"
    and 4: "fs_get (sample_world done_files) [] = None" by code_simp+
  from cluster_bundle_settles [OF 1 2(1) 3 4, of "Inl ''merge failed''"] 2(2) show ?thesis by auto
qed

text \<open>
  \<^verbatim>\<open>Status\<close> answers for the first master that knows the bundle: a 200 answer is that master's bundle, all
  masters before it having failed to find it; 500 means that a master found the bundle unreadable before
  any had it; otherwise no master had it, and the answer is 404.
\<close>

theorem cluster_status_proxies:
  assumes "cb_Status c ht (Inr ms) i s = (o', s')"
  shows "(\<exists>xs n ys s1 b. to_nodes c ms = xs @ n # ys \<and> skipped ht i xs s s1 \<and>
      client_Status ht (n_baseURL n) i s1 = (Inr b, s') \<and> o' = respond 200 (JsonBundle (marshal_bundle b))) \<or>
    (\<exists>xs n ys s1 j. to_nodes c ms = xs @ n # ys \<and> skipped ht i xs s s1 \<and>
      client_Status ht (n_baseURL n) i s1 = (Inl (DiagnosticsBundleUnreadableError j), s') \<and> outcome_code o' = Some 500) \<or>
    skipped ht i (to_nodes c ms) s s' \<and> outcome_code o' = Some 404"
proof -
  have "status_masters ht (to_nodes c ms) i s = (o', s')"
    using assms by (simp add: cb_Status_def cb_getMasterNodes_def)
  then show ?thesis by (cases rule: status_masters_cases) blast+
qed

theorem cluster_status_proxies_witness:
  "\<exists>o' s'. cb_Status sample_cluster timeout_http (Inr []) ''a'' (sample_world []) = (o', s') \<and> outcome_code o' = Some 404"
proof -
  obtain o' s' where r: "cb_Status sample_cluster timeout_http (Inr []) ''a'' (sample_world []) = (o', s')" by fastforce
  then show ?thesis using cluster_status_proxies [OF r] by auto
qed

text \<open>
  \<^verbatim>\<open>Download\<close> does not survive an unexpected answer: if the first master asked fails with any error other
  than "not found" and "not readable" (it is down, or answers another code), the handler dereferences a
  nil bundle and panics instead of asking the next master.
\<close>

theorem cluster_download_panics:
  assumes "to_nodes c ms = n # ns" and "client_Status ht (n_baseURL n) i s = (Inl (OtherError e), s1)"
  shows "cb_Download c ht (Inr ms) tmp i s w = (Panic nil_deref, s1, w)"
  using assms by (simp add: cb_Download_def cb_getMasterNodes_def)

theorem cluster_download_panics_witness:
  "cb_Download sample_cluster timeout_http sample_masters (Inr ''/tmp/x'') ''a'' (sample_world []) (sample_world []) =
     (Panic nil_deref, sample_world [], sample_world [])"
proof -
  let ?n = "\<lparr>n_IP = ''10.0.0.1'', n_Role = MasterRole, n_baseURL = msg [''http://'', ''10.0.0.1'', '':'', itoa 1050]\<rparr>"
  have 1: "to_nodes sample_cluster [plain_Node False MasterRole ''10.0.0.1''] = ?n # []"
    by (simp add: sample_cluster_def plain_Node_def BaseURL_def port_def UseTLSScheme_def msg_def)
  have 2: "client_Status timeout_http (n_baseURL ?n) ''a'' (sample_world []) = (Inl (OtherError ''timeout''), sample_world [])"
    by (simp add: client_Status_def client_call_def timeout_http_def decode_to_def)
  show ?thesis unfolding sample_masters_def by (rule cluster_download_panics [OF 1 2])
qed

text \<open>
  The cluster-level \<^verbatim>\<open>Delete\<close> answers 200 only if a master has confirmed that it deleted the bundle.
\<close>

theorem cluster_delete_confirmed:
  assumes "cb_Delete c ht (Inr ms) i s = (o', s')" and "outcome_code o' = Some 200"
  shows "\<exists>n\<in>set (to_nodes c ms). \<exists>s1 s2. client_Delete ht (n_baseURL n) i s1 = (None, s2)"
  using delete_masters_code [of ht "to_nodes c ms" i False s o' s'] assms
  by (simp add: cb_Delete_def cb_getMasterNodes_def)

definition ok_http :: "world http" where
  "ok_http = \<lparr>ht_new = (\<lambda>_. None), ht_do = (\<lambda>m u s. (Inr \<lparr>rcode = 200, rheaders = [], rbody = NoBody\<rparr>, s)), ht_read = (\<lambda>_. [])\<rparr>"

theorem cluster_delete_confirmed_witness:
  "\<exists>(n :: node) s1 s2. client_Delete ok_http (n_baseURL n) ''a'' s1 = (None, s2)"
proof -
  let ?r = "cb_Delete sample_cluster ok_http (Inr [plain_Node False MasterRole ''10.0.0.1'']) ''a'' (sample_world [])"
  have c: "?r = (fst ?r, snd ?r)" by simp
  have "outcome_code (fst ?r) = Some 200"
    by (simp add: cb_Delete_def cb_getMasterNodes_def sample_cluster_def plain_Node_def BaseURL_def port_def UseTLSScheme_def
        msg_def client_Delete_def client_call_def ok_http_def handleErrorCode_def)
  from cluster_delete_confirmed [OF c this] show ?thesis by blast
qed

end
