(* ===== verification/Platforms.thy ===== *)
theory Platforms
  imports Unit_Health
begin

text \<open>
  The parts that differ on Windows (\<^verbatim>\<open>dcos/tools_windows.go\<close>, \<^verbatim>\<open>api/health_windows.go\<close>, \<^verbatim>\<open>api/properties_windows.go\<close>,
  \<^verbatim>\<open>units/helpers_windows.go\<close>) and on Darwin. On Windows a unit is a service of the service manager; its list comes
  from a file beside the executable.
\<close>

section \<open>Windows: the service manager\<close>

text \<open>The mutex of \<^verbatim>\<open>Tools\<close> and whether \<^verbatim>\<open>svcManager\<close> is set. The errors of \<^verbatim>\<open>mgr.Connect\<close> and \<^verbatim>\<open>Disconnect\<close> are arguments.\<close>

record win_tools =
  wt_locked :: bool
  wt_svcManager :: bool

definition win_InitializeUnitControllerConnection :: "string option \<Rightarrow> win_tools \<Rightarrow> (string option \<times> win_tools) option" where
  "win_InitializeUnitControllerConnection connectErr st =
     (if wt_locked st then None
      else if \<not> wt_svcManager st then
        (case connectErr of
           Some e \<Rightarrow> Some (Some e, st)
         | None \<Rightarrow> Some (None, \<lparr>wt_locked = True, wt_svcManager = True\<rparr>))
      else Some (Some ''connection is already opened'', st))"

definition win_CloseUnitControllerConnection :: "string option \<Rightarrow> win_tools \<Rightarrow> (string option \<times> win_tools) option" where
  "win_CloseUnitControllerConnection disconnectErr st =
     (if \<not> wt_locked st then None
      else if wt_svcManager st then
        (case disconnectErr of
           Some e \<Rightarrow> Some (Some e, st\<lparr>wt_locked := False\<rparr>)
         | None \<Rightarrow> Some (None, \<lparr>wt_locked = False, wt_svcManager = False\<rparr>))
      else Some (Some ''connection is closed'', st\<lparr>wt_locked := False\<rparr>))"

text \<open>The calls on the manager: the services, opening one, its description, its state as a number; the decoder, and the
  lines of the list file (or the error of finding the executable or opening the file).\<close>

record win_env =
  we_ListServices :: "string list result"
  we_OpenService :: "string \<Rightarrow> string option"
  we_Config :: "string \<Rightarrow> string result"
  we_Query :: "string \<Rightarrow> int result"
  we_decode :: "(string \<rightharpoonup> string) \<Rightarrow> UnitPropertiesResponse result"
  we_Executable :: "string option"
  we_lines :: "string list result"

definition win_GetUnitProperties :: "win_env \<Rightarrow> win_tools \<Rightarrow> string \<Rightarrow> (string \<rightharpoonup> string) result" where
  "win_GetUnitProperties env st pname =
     (if \<not> wt_svcManager st then Inl ''connection was not opened''
      else
        (case we_ListServices env of
           Inl e \<Rightarrow> Inl e
         | Inr services \<Rightarrow>
             if pname \<notin> set services then Inl ''service not found''
             else
               (case we_OpenService env pname of
                  Some e \<Rightarrow> Inl e
                | None \<Rightarrow>
                    (case we_Config env pname of
                       Inl e \<Rightarrow> Inl e
                     | Inr description \<Rightarrow>
                         (case we_Query env pname of
                            Inl e \<Rightarrow> Inl e
                          | Inr state \<Rightarrow>
                              Inr [''id'' \<mapsto> pname, ''ActiveState'' \<mapsto> itoa state, ''LoadState'' \<mapsto> itoa state,
                                   ''SubState'' \<mapsto> itoa state, ''Description'' \<mapsto> description])))))"

text \<open>Without the executable's path the process panics; without the file \<^verbatim>\<open>logrus.Fatal\<close> ends it.\<close>

datatype 'a outcome_win = Returned 'a | ProcessPanic string | ProcessExit string

definition win_GetUnitNames :: "win_env \<Rightarrow> string list outcome_win" where
  "win_GetUnitNames env =
     (case we_Executable env of
        Some e \<Rightarrow> ProcessPanic e
      | None \<Rightarrow> (case we_lines env of Inl e \<Rightarrow> ProcessExit e | Inr ls \<Rightarrow> Returned ls))"

definition win_GetJournalOutput :: "string \<Rightarrow> string result" where
  "win_GetJournalOutput u = Inr []"

definition win_ReadJournalOutputSince :: "string \<Rightarrow> int \<Rightarrow> stream result" where
  "win_ReadJournalOutputSince u d = Inl ''there is no journal on Windows''"

section \<open>Windows: health\<close>

definition svc_Running :: int where "svc_Running = 4"

definition win_CheckUnitHealth :: "UnitPropertiesResponse \<Rightarrow> (Health \<times> string) result" where
  "win_CheckUnitHealth u =
     (if p_ActiveState u \<noteq> itoa svc_Running then
        Inr (Unhealthy, msg [''The ActiveState is '', p_ActiveState u, '', not in running state(4)''])
      else Inr (Healthy, []))"

definition win_normalizeProperty :: "win_env \<Rightarrow> (string \<rightharpoonup> string) \<Rightarrow> HealthResponseValues result" where
  "win_normalizeProperty env props = normalize_with win_CheckUnitHealth win_GetJournalOutput (we_decode env props)"

definition failed_unit :: "string \<Rightarrow> HealthResponseValues" where
  "failed_unit u = \<lparr>hv_UnitID = u, hv_UnitHealth = Unhealthy, hv_UnitOutput = [], hv_UnitTitle = [], hv_Help = [], hv_PrettyName = []\<rparr>"

fun win_units_loop :: "win_env \<Rightarrow> win_tools \<Rightarrow> string list \<Rightarrow> HealthResponseValues list \<Rightarrow> HealthResponseValues list" where
  "win_units_loop env st [] allUnits = allUnits"
| "win_units_loop env st (u # us) allUnits =
     (let normalized =
            (case win_GetUnitProperties env st u of
               Inl e \<Rightarrow> None
             | Inr props \<Rightarrow> (case win_normalizeProperty env props of Inl e \<Rightarrow> None | Inr v \<Rightarrow> Some v));
          v = (case normalized of
                 None \<Rightarrow> failed_unit u
               | Some v \<Rightarrow> if hv_UnitID v = [] then failed_unit u else v)
      in win_units_loop env st us (allUnits @ [v]))"

text \<open>The errors of connecting and disconnecting are arguments; \<open>None\<close> is a deadlock on the mutex. The deferred close runs when a
  call panics, but not when the process ends.\<close>

definition win_GetUnits ::
  "win_env \<Rightarrow> string option \<Rightarrow> string option \<Rightarrow> win_tools \<Rightarrow> (HealthResponseValues list result outcome_win \<times> win_tools) option" where
  "win_GetUnits env connectErr disconnectErr st =
     (case win_InitializeUnitControllerConnection connectErr st of
        None \<Rightarrow> None
      | Some (Some e, st1) \<Rightarrow> Some (Returned (Inl e), st1)
      | Some (None, st1) \<Rightarrow>
          (case win_GetUnitNames env of
             ProcessPanic e \<Rightarrow> map_option (\<lambda>(ignored, st2). (ProcessPanic e, st2)) (win_CloseUnitControllerConnection disconnectErr st1)
           | ProcessExit e \<Rightarrow> Some (ProcessExit e, st1)
           | Returned us \<Rightarrow>
               (let r = win_units_loop env st1 us [] in
                case win_CloseUnitControllerConnection disconnectErr st1 of
                  None \<Rightarrow> None
                | Some (ignored, st2) \<Rightarrow> Some (Returned (Inr r), st2))))"

definition win_GetUnitsProperties ::
  "win_env \<Rightarrow> string option \<Rightarrow> string option \<Rightarrow> Tools \<Rightarrow> string \<Rightarrow> string result \<Rightarrow> string result \<Rightarrow> string result \<Rightarrow> string \<Rightarrow>
     win_tools \<Rightarrow> (UnitsHealthResponseJSONStruct result outcome_win \<times> win_tools) option" where
  "win_GetUnitsProperties env connectErr disconnectErr tools version hostname ip mesosID dcosVersion st =
     (case win_GetUnits env connectErr disconnectErr st of
        None \<Rightarrow> None
      | Some (ProcessPanic e, st1) \<Rightarrow> Some (ProcessPanic e, st1)
      | Some (ProcessExit e, st1) \<Rightarrow> Some (ProcessExit e, st1)
      | Some (Returned us, st1) \<Rightarrow>
          Some (Returned
            (if dcosVersion = [] then Inl ''DCOS_VERSION was not defined''
             else Inr \<lparr>ur_Array = or_zero [] us, ur_Hostname = or_zero [] hostname, ur_IPAddress = or_zero [] ip,
                       ur_DcosVersion = dcosVersion, ur_Role = or_zero [] (GetNodeRole tools),
                       ur_MesosID = or_zero [] mesosID, ur_TdtVersion = version\<rparr>), st1))"

interpretation windows: unit_controller wt_locked win_InitializeUnitControllerConnection win_CloseUnitControllerConnection
  by unfold_locales
    (auto simp: win_InitializeUnitControllerConnection_def win_CloseUnitControllerConnection_def split: option.splits)

section \<open>Darwin\<close>

definition not_on_darwin :: "'a result" where "not_on_darwin = Inl ''does not work on darwin''"

definition darwin_CheckUnitHealth :: "UnitPropertiesResponse \<Rightarrow> (Health \<times> string) result" where
  "darwin_CheckUnitHealth u = not_on_darwin"

definition darwin_GetUnits :: "HealthResponseValues list result" where "darwin_GetUnits = not_on_darwin"

definition darwin_GetUnitsProperties :: "UnitsHealthResponseJSONStruct result" where
  "darwin_GetUnitsProperties = not_on_darwin"

definition darwin_InitializeUnitControllerConnection :: "string option" where
  "darwin_InitializeUnitControllerConnection = Some ''does not work on darwin''"

definition darwin_CloseUnitControllerConnection :: "string option" where
  "darwin_CloseUnitControllerConnection = Some ''does not work on darwin''"

definition darwin_GetUnitProperties :: "string \<Rightarrow> (string \<rightharpoonup> string) result" where
  "darwin_GetUnitProperties pname = not_on_darwin"

definition darwin_GetUnitNames :: "string list result" where "darwin_GetUnitNames = not_on_darwin"

definition darwin_GetJournalOutput :: "string \<Rightarrow> string result" where "darwin_GetJournalOutput u = not_on_darwin"

definition darwin_ReadJournalOutputSince :: "string \<Rightarrow> int \<Rightarrow> stream result" where
  "darwin_ReadJournalOutputSince u d = not_on_darwin"

section \<open>Properties\<close>

text \<open>What is reported of one service.\<close>

definition win_unit_value :: "win_env \<Rightarrow> string \<Rightarrow> HealthResponseValues" where
  "win_unit_value env u = hd (win_units_loop env \<lparr>wt_locked = True, wt_svcManager = True\<rparr> [u] [])"

lemma win_units_loop_eq:
  "win_units_loop env \<lparr>wt_locked = True, wt_svcManager = True\<rparr> us acc = acc @ map (win_unit_value env) us"
proof (induction us arbitrary: acc)
  case (Cons u us)
  have "win_units_loop env \<lparr>wt_locked = True, wt_svcManager = True\<rparr> (u # us) acc =
      win_units_loop env \<lparr>wt_locked = True, wt_svcManager = True\<rparr> us (acc @ [win_unit_value env u])"
    by (simp add: win_unit_value_def Let_def)
  then show ?case by (simp only: Cons) simp
qed simp

text \<open>\<^verbatim>\<open>mapstructure\<close> fills the fields by their names, whatever the case of the key.\<close>

definition decodes :: "win_env \<Rightarrow> bool" where
  "decodes env = (\<forall>m p. we_decode env m = Inr p \<longrightarrow> m ''id'' = Some (p_ID p) \<and> m ''ActiveState'' = Some (p_ActiveState p))"

lemma normalize_with_ok:
  "normalize_with check journal props = Inr v \<Longrightarrow>
     \<exists>p out. props = Inr p \<and> check p = Inr (hv_UnitHealth v, out) \<and> hv_UnitID v = p_ID p"
  by (auto simp: normalize_with_def Let_def split: sum.splits prod.splits)

lemma win_GetUnitProperties_ok:
  "win_GetUnitProperties env st u = Inr m \<Longrightarrow> m ''id'' = Some u \<and> (\<exists>n. we_Query env u = Inr n \<and> m ''ActiveState'' = Some (itoa n))"
  by (auto simp: win_GetUnitProperties_def split: if_splits sum.splits option.splits)

lemma win_unit_value_cases:
  "win_unit_value env u = failed_unit u \<or>
   (\<exists>st m. win_GetUnitProperties env st u = Inr m \<and> win_normalizeProperty env m = Inr (win_unit_value env u))"
  by (auto simp: win_unit_value_def Let_def split: sum.splits)

lemma win_unit_value_from:
  assumes "decodes env"
  shows "hv_UnitID (win_unit_value env u) = u"
    and "hv_UnitHealth (win_unit_value env u) = Healthy \<Longrightarrow> \<exists>n. we_Query env u = Inr n \<and> itoa n = itoa svc_Running"
proof -
  have "hv_UnitID (win_unit_value env u) = u \<and>
    (hv_UnitHealth (win_unit_value env u) = Healthy \<longrightarrow> (\<exists>n. we_Query env u = Inr n \<and> itoa n = itoa svc_Running))"
  proof (cases "win_unit_value env u = failed_unit u")
    case True
    then show ?thesis by (simp add: failed_unit_def Healthy_def Unhealthy_def)
  next
    case False
    then obtain st m where g: "win_GetUnitProperties env st u = Inr m" and n: "win_normalizeProperty env m = Inr (win_unit_value env u)"
      using win_unit_value_cases by blast
    obtain p out where p: "we_decode env m = Inr p" "win_CheckUnitHealth p = Inr (hv_UnitHealth (win_unit_value env u), out)"
      "hv_UnitID (win_unit_value env u) = p_ID p" using normalize_with_ok n unfolding win_normalizeProperty_def by blast
    have "m ''id'' = Some (p_ID p)" "m ''ActiveState'' = Some (p_ActiveState p)" using assms p(1) by (simp_all add: decodes_def)
    then show ?thesis using win_GetUnitProperties_ok [OF g] p(2,3) by (auto simp: win_CheckUnitHealth_def Healthy_def Unhealthy_def split: if_splits)
  qed
  then show "hv_UnitID (win_unit_value env u) = u"
    and "hv_UnitHealth (win_unit_value env u) = Healthy \<Longrightarrow> \<exists>n. we_Query env u = Inr n \<and> itoa n = itoa svc_Running" by blast+
qed

text \<open>
  On Windows no listed service is missing from the report. If the service manager can be reached and the list file read, the
  report has one entry per line of the file, in order and under that name (services that cannot be queried are reported as
  unhealthy, not left out), a service is reported healthy only if its state is running, and the connection is closed
  again unless closing it fails.
\<close>

theorem win_units_complete:
  assumes "decodes env" and "we_Executable env = None" and "we_lines env = Inr us"
  shows "\<exists>vs. win_GetUnits env None disconnectErr \<lparr>wt_locked = False, wt_svcManager = False\<rparr> =
      Some (Returned (Inr vs), \<lparr>wt_locked = False, wt_svcManager = disconnectErr \<noteq> None\<rparr>) \<and>
    map hv_UnitID vs = us \<and>
    (\<forall>v\<in>set vs. hv_UnitHealth v = Healthy \<longrightarrow> (\<exists>n. we_Query env (hv_UnitID v) = Inr n \<and> itoa n = itoa svc_Running))"
proof -
  have "win_GetUnits env None disconnectErr \<lparr>wt_locked = False, wt_svcManager = False\<rparr> =
      Some (Returned (Inr (map (win_unit_value env) us)), \<lparr>wt_locked = False, wt_svcManager = disconnectErr \<noteq> None\<rparr>)"
    using assms(2,3)
    by (simp add: win_GetUnits_def win_InitializeUnitControllerConnection_def win_GetUnitNames_def win_units_loop_eq
        win_CloseUnitControllerConnection_def split: option.splits)
  then show ?thesis using win_unit_value_from [OF assms(1)] by (auto simp: comp_def)
qed

definition sample_win :: win_env where
  "sample_win = \<lparr>we_ListServices = Inr [''a''], we_OpenService = (\<lambda>_. None), we_Config = (\<lambda>_. Inr ''A: service''), we_Query = (\<lambda>_. Inr 4),
     we_decode = (\<lambda>m. case (m ''id'', m ''ActiveState'') of
        (Some i, Some s) \<Rightarrow> Inr (sample_unit\<lparr>p_ID := i, p_ActiveState := s\<rparr>) | _ \<Rightarrow> Inl ''missing''),
     we_Executable = None, we_lines = Inr [''a'', ''b'']\<rparr>"

theorem win_units_complete_witness:
  "\<exists>vs. win_GetUnits sample_win None None \<lparr>wt_locked = False, wt_svcManager = False\<rparr> =
     Some (Returned (Inr vs), \<lparr>wt_locked = False, wt_svcManager = False\<rparr>) \<and> map hv_UnitID vs = [''a'', ''b'']"
proof -
  have d: "decodes sample_win" by (auto simp: decodes_def sample_win_def split: option.splits)
  from win_units_complete [OF d, of "[''a'', ''b'']" None] show ?thesis by (auto simp: sample_win_def)
qed

text \<open>
  On Windows a failed disconnect is permanent. If closing the connection fails once, the manager stays set, and every later
  attempt to read the units fails with the error that the connection is already open, whatever the service
  manager would answer; the health report then lists no units at all.
\<close>

theorem win_disconnect_error_sticks:
  assumes "win_GetUnits env None (Some e) \<lparr>wt_locked = False, wt_svcManager = False\<rparr> = Some (Returned r, st)"
  shows "win_GetUnits env' connectErr disconnectErr st = Some (Returned (Inl ''connection is already opened''), st)"
proof -
  have "st = \<lparr>wt_locked = False, wt_svcManager = True\<rparr>"
    using assms
    by (auto simp: win_GetUnits_def win_InitializeUnitControllerConnection_def win_CloseUnitControllerConnection_def Let_def
        split: outcome_win.splits)
  then show ?thesis by (simp add: win_GetUnits_def win_InitializeUnitControllerConnection_def)
qed

theorem win_disconnect_error_sticks_witness:
  "\<exists>r st. win_GetUnits sample_win None (Some ''x'') \<lparr>wt_locked = False, wt_svcManager = False\<rparr> = Some (Returned r, st) \<and>
     win_GetUnits sample_win None None st = Some (Returned (Inl ''connection is already opened''), st)"
proof -
  have "\<exists>r st. win_GetUnits sample_win None (Some ''x'') \<lparr>wt_locked = False, wt_svcManager = False\<rparr> = Some (Returned r, st)"
    by (simp add: win_GetUnits_def win_InitializeUnitControllerConnection_def win_CloseUnitControllerConnection_def
        win_GetUnitNames_def sample_win_def Let_def)
  then show ?thesis using win_disconnect_error_sticks by blast
qed

text \<open>
  Reading the units never deadlocks and never keeps the lock. On Linux and on Windows, with the connection free, whatever its state
  and whichever calls fail, reading the units returns, and the lock of the connection is free again afterwards,
  unless the process has ended.
\<close>

theorem unit_reads_release:
  shows "\<not> db_locked d \<longrightarrow> (\<exists>r d' w'. GetUnits env newErr d w = Some (r, d', w') \<and> \<not> db_locked d')"
    and "\<not> wt_locked t \<longrightarrow> (\<exists>r t'. win_GetUnits wenv connectErr disconnectErr t = Some (r, t') \<and>
      (\<not> wt_locked t' \<or> (\<exists>e. r = ProcessExit e)))"
proof -
  show "\<not> db_locked d \<longrightarrow> (\<exists>r d' w'. GetUnits env newErr d w = Some (r, d', w') \<and> \<not> db_locked d')"
    using linux.session [of d newErr] by (cases "GetUnitNames w") (auto simp: GetUnits_def)
  show "\<not> wt_locked t \<longrightarrow> (\<exists>r t'. win_GetUnits wenv connectErr disconnectErr t = Some (r, t') \<and>
      (\<not> wt_locked t' \<or> (\<exists>e. r = ProcessExit e)))"
    using windows.session [of t connectErr disconnectErr] by (cases "win_GetUnitNames wenv") (auto simp: win_GetUnits_def)
qed

end
