(* ===== verification/Daemon.thy ===== *)
theory Daemon
  imports Puller_Protocol Cluster_Handler Platforms
begin

text \<open>
  The command line and the start of the daemon: \<^verbatim>\<open>cmd/root.go\<close>, \<^verbatim>\<open>cmd/daemon.go\<close>, \<^verbatim>\<open>cmd/mesos_state.go\<close>, and the HTTP client of
  \<^verbatim>\<open>util/utils.go\<close>. Parsing of the flags and of the configuration file is done by third-party packages; the values a run
  starts with are the defaults changed by what they set. \<^verbatim>\<open>logrus.Fatal\<close> ends the process, so a fatal error is an error
  value of the start.
\<close>

section \<open>Flags\<close>

definition diagnosticsTCPPort :: int where "diagnosticsTCPPort = 1050"
definition diagnosticsBundleDir :: string where "diagnosticsBundleDir = ''/var/run/dcos/dcos-diagnostics/diagnostic_bundles''"
definition diagnosticsEndpointConfig :: string where "diagnosticsEndpointConfig = ''/opt/mesosphere/etc/endpoints_config.json''"
definition exhibitorURL :: string where "exhibitorURL = ''http://127.0.0.1:8181/exhibitor/v1/cluster/status''"

definition default_flags :: "string \<Rightarrow> Config" where
  "default_flags hostname = zero_Config\<lparr>
     FlagPort := diagnosticsTCPPort, FlagMasterPort := diagnosticsTCPPort, FlagAgentPort := diagnosticsTCPPort,
     FlagCommandExecTimeoutSec := 50, FlagPullInterval := 60, FlagPullTimeoutSec := 3, FlagUpdateHealthReportInterval := 60,
     FlagExhibitorClusterStatusURL := exhibitorURL, FlagHostname := hostname,
     FlagDiagnosticsBundleDir := diagnosticsBundleDir,
     FlagDiagnosticsBundleEndpointsConfigFiles := [diagnosticsEndpointConfig],
     FlagDiagnosticsBundleUnitsLogsSinceString := ''24h'', FlagDiagnosticsJobTimeoutMinutes := 720,
     FlagDiagnosticsJobGetSingleURLTimeoutMinutes := 1, FlagDiagnosticsBundleFetchersCount := 1\<rparr>"

text \<open>\<open>file\<close> is what \<^verbatim>\<open>viper\<close> has read: nothing, a file it cannot decode, or a change of the configuration. It is applied after
  the flags were parsed.\<close>

definition initConfig :: "(string + (Config \<Rightarrow> Config)) option \<Rightarrow> Config \<Rightarrow> Config result" where
  "initConfig file cfg =
     (case file of None \<Rightarrow> Inr cfg | Some (Inl e) \<Rightarrow> Inl (msg [''Error loading config file'', e]) | Some (Inr f) \<Rightarrow> Inr (f cfg))"

section \<open>Checking the units from the command line\<close>

definition diag_line :: "HealthResponseValues \<Rightarrow> string" where
  "diag_line u = msg [''['', hv_UnitID u, '']: '', hv_UnitTitle u, '' '', hv_UnitOutput u, [CHR 0x0A]]"

fun diag_loop :: "HealthResponseValues list \<Rightarrow> bool \<Rightarrow> string list \<Rightarrow> bool \<times> string list" where
  "diag_loop [] fail out = (fail, out)"
| "diag_loop (u # us) fail out =
     (if hv_UnitHealth u \<noteq> 0 then diag_loop us True (out @ [diag_line u]) else diag_loop us fail out)"

definition runDiag :: "HealthResponseValues list result \<Rightarrow> int \<times> string list" where
  "runDiag units =
     (case units of
        Inl e \<Rightarrow> (1, [])
      | Inr us \<Rightarrow> (case diag_loop us False [] of (fail, out) \<Rightarrow> (if fail then 1 else 0, out)))"

datatype root_action = PrintVersion | ExitDiag "int \<times> string list" | ShowHelp

definition root_Run :: "bool \<Rightarrow> bool \<Rightarrow> HealthResponseValues list result \<Rightarrow> root_action" where
  "root_Run version diag units = (if version then PrintVersion else if diag then ExitDiag (runDiag units) else ShowHelp)"

section \<open>The HTTP client\<close>

text \<open>The redirect policy: the headers of the first request that the next one lacks are copied, and the redirect is followed.\<close>

definition CheckRedirect :: "header_map \<Rightarrow> header_map list \<Rightarrow> header_map \<times> string option" where
  "CheckRedirect req via =
     (fold (\<lambda>(k, vs) h. if map_of h k = None then AList.update k vs h else h) (case via of [] \<Rightarrow> [] | v # _ \<Rightarrow> v) req, None)"

section \<open>Printing the Mesos state\<close>

text \<open>\<open>get\<close> is the client's \<^verbatim>\<open>Get\<close>, \<open>write\<close> the error of writing to the output. The body is printed before the code is checked.\<close>

definition state_url :: "Config \<Rightarrow> (string \<Rightarrow> string result) \<Rightarrow> string result" where
  "state_url cfg https = UseTLSScheme https ''http://leader.mesos:5050/state'' (FlagForceTLS cfg)"

definition getMesosState ::
  "Config \<Rightarrow> (string \<Rightarrow> string result) \<Rightarrow> (string \<Rightarrow> http_resp result) \<Rightarrow> (string \<Rightarrow> string option) \<Rightarrow> string option \<times> string" where
  "getMesosState cfg https get write =
     (case state_url cfg https of
        Inl e \<Rightarrow> (Some e, [])
      | Inr url \<Rightarrow>
          (case get url of
             Inl e \<Rightarrow> (Some e, [])
           | Inr resp \<Rightarrow>
               (case h_body resp of
                  (raw, Some e) \<Rightarrow> (Some (msg [''could not read response: '', e]), [])
                | (raw, None) \<Rightarrow>
                    (case write raw of
                       Some e \<Rightarrow> (Some (msg [''could not wrtie output: '', e]), [])
                     | None \<Rightarrow>
                         (if h_status resp \<noteq> 200 then Some (msg [''unexpected status code: '', itoa (h_status resp)]) else None, raw)))))"

section \<open>Starting the daemon\<close>

datatype listen = ListenTCP int | ListenSocket string

record Dt =
  dt_Cfg :: Config
  dt_Tools :: Tools
  dt_Job :: DiagnosticsJob
  dt_logProviders :: logProviders
  dt_BundleHandler :: BundleHandler
  dt_ClusterBundleHandler :: ClusterBundleHandler
  dt_MR :: MonitoringResponse
  dt_pulling :: "pulling option"

text \<open>The options for the transport and for the node's information, as the packages of \<^verbatim>\<open>dcos-go\<close> get them.\<close>

datatype transport_option = OptionCaCertificatePath string | OptionIAMConfigPath string

definition transport_options :: "Config \<Rightarrow> transport_option list" where
  "transport_options cfg =
     (if FlagCACertFile cfg \<noteq> [] then [OptionCaCertificatePath (FlagCACertFile cfg)] else []) @
     (if FlagIAMConfig cfg \<noteq> [] then [OptionIAMConfigPath (FlagIAMConfig cfg)] else [])"

definition initTransport :: "(transport_option list \<Rightarrow> string option) \<Rightarrow> Config \<Rightarrow> string option" where
  "initTransport newTransport cfg =
     map_option (\<lambda>e. msg [''unable to initialize HTTP transport: '', e]) (newTransport (transport_options cfg))"

datatype nodeinfo_option = OptionMesosStateURL string | OptionDetectIP string

definition nodeinfo_options :: "Config \<Rightarrow> nodeinfo_option list" where
  "nodeinfo_options cfg =
     (if FlagForceTLS cfg then [OptionMesosStateURL ''https://leader.mesos:5050/state''] else []) @
     (if FlagIPDiscoveryCommandLocation cfg \<noteq> [] then [OptionDetectIP (FlagIPDiscoveryCommandLocation cfg)] else [])"

text \<open>What the start reads of its surroundings: the two constructors of \<^verbatim>\<open>dcos-go\<close>, the providers' files and the units, the
  node's role, the address parser, and the socket that systemd has passed.\<close>

record daemon_env =
  de_newTransport :: "transport_option list \<Rightarrow> string option"
  de_newNodeInfo :: "nodeinfo_option list \<Rightarrow> string option"
  de_providers :: provider_env
  de_units :: "string list result"
  de_ip :: "string \<Rightarrow> string"
  de_activation :: "string option list result"

text \<open>The command \<^verbatim>\<open>mesos-state\<close>, and the end of the process: an error of a command is printed and gives the exit status -1.\<close>

definition state_RunE ::
  "(transport_option list \<Rightarrow> string option) \<Rightarrow> Config \<Rightarrow> (string \<Rightarrow> string result) \<Rightarrow> (string \<Rightarrow> http_resp result) \<Rightarrow>
     (string \<Rightarrow> string option) \<Rightarrow> string option \<times> string" where
  "state_RunE newTransport cfg https get write =
     (case initTransport newTransport cfg of Some e \<Rightarrow> (Some e, []) | None \<Rightarrow> getMesosState cfg https get write)"

definition Execute :: "string option \<times> string \<Rightarrow> int \<times> string" where
  "Execute r = (case r of (Some e, out) \<Rightarrow> (-1, out @ e @ [CHR 0x0A]) | (None, out) \<Rightarrow> (0, out))"

definition new_job :: "Config \<Rightarrow> DiagnosticsJob" where
  "new_job cfg = \<lparr>dj_Cfg = cfg, dj_Running = False, dj_Status = [], dj_Errors = [], dj_LastBundlePath = [], dj_JobStarted = 0,
     dj_JobEnded = 0, dj_cancelled = False\<rparr>"

text \<open>The listeners of the platform: on Linux those of systemd's socket activation, on Darwin and Windows none.\<close>

definition linux_getListener :: "string option list result \<Rightarrow> string option list result" where
  "linux_getListener activation = activation"

definition darwin_getListener :: "string option list result" where
  "darwin_getListener = Inr []"

definition win_getListener :: "string option list result" where
  "win_getListener = Inr []"

definition getListener :: "daemon_env \<Rightarrow> string option list result" where
  "getListener env =
     (if pe_goos (de_providers env) = ''windows'' then win_getListener
      else if pe_goos (de_providers env) = ''darwin'' then darwin_getListener
      else linux_getListener (de_activation env))"

definition choose_listener :: "daemon_env \<Rightarrow> Config \<Rightarrow> listen result" where
  "choose_listener env cfg =
     (if FlagDisableUnixSocket cfg then Inr (ListenTCP (FlagPort cfg))
      else
        (case getListener env of
           Inl e \<Rightarrow> Inl (msg [''Unable to initialize listener: '', e])
         | Inr (Some l # _) \<Rightarrow> Inr (ListenSocket l)
         | Inr _ \<Rightarrow> Inl ''Unix socket not found''))"

definition make_handlers ::
  "daemon_env \<Rightarrow> Config \<Rightarrow> Tools \<Rightarrow> logProviders \<Rightarrow> Collector list \<Rightarrow> world \<Rightarrow> Dt result \<times> world" where
  "make_handlers env cfg tools lp collectors w =
     (case NewBundleHandler (FlagDiagnosticsBundleDir cfg) collectors w of
        (Inl e, w1) \<Rightarrow> (Inl (msg [''BundleHandler could not be created: '', e]), w1)
      | (Inr bh, w1) \<Rightarrow>
          (case NewClusterBundleHandler (FlagDiagnosticsBundleDir cfg)
                  (NewURLBuilder (FlagAgentPort cfg) (FlagMasterPort cfg) (FlagForceTLS cfg))
                  (pe_https (de_providers env)) (de_ip env) w1 of
             (Inl e, w2) \<Rightarrow> (Inl (msg [''ClusterBundleHandler could not be created: '', e]), w2)
           | (Inr cbh, w2) \<Rightarrow>
               (Inr \<lparr>dt_Cfg = cfg, dt_Tools = tools, dt_Job = new_job cfg, dt_logProviders = lp, dt_BundleHandler = bh,
                     dt_ClusterBundleHandler = cbh, dt_MR = \<lparr>mr_Units = [], mr_Nodes = [], mr_UpdatedTime = 0\<rparr>,
                     dt_pulling = (if FlagPull cfg then Some pull_init else None)\<rparr>, w2)))"

definition startDiagnosticsDaemon :: "daemon_env \<Rightarrow> Config \<Rightarrow> world \<Rightarrow> (Dt \<times> listen) result \<times> world" where
  "startDiagnosticsDaemon env cfg w =
     (case initTransport (de_newTransport env) cfg of
        Some e \<Rightarrow> (Inl (msg [''Could not start: '', e]), w)
      | None \<Rightarrow>
          (case de_newNodeInfo env (nodeinfo_options cfg) of
             Some e \<Rightarrow> (Inl (msg [''Could not initialize nodeInfo: '', e]), w)
           | None \<Rightarrow>
               if FlagDiagnosticsBundleFetchersCount cfg < 1 then (Inl ''workers-count must be greater than 0'', w)
               else
                 (let tools = \<lparr>ExhibitorURL = FlagExhibitorClusterStatusURL cfg, ToolsRole = FlagRole cfg, ToolsForceTLS = FlagForceTLS cfg\<rparr> in
                  case Init_providers (de_providers env) cfg (de_units env) (GetNodeRole tools) of
                    Inl e \<Rightarrow> (Inl (msg [''Could not init diagnostics job properly: '', e]), w)
                  | Inr lp \<Rightarrow>
                      (case LoadCollectors (de_providers env) cfg (de_units env) (GetNodeRole tools) of
                         Inl e \<Rightarrow> (Inl (msg [''Could not init collectors properly: '', e]), w)
                       | Inr collectors \<Rightarrow>
                           (case make_handlers env cfg tools lp collectors w of
                              (Inl e, w1) \<Rightarrow> (Inl e, w1)
                            | (Inr dt, w1) \<Rightarrow>
                                (case choose_listener env cfg of
                                   Inl e \<Rightarrow> (Inl e, w1)
                                 | Inr l \<Rightarrow> (Inr (dt, l), w1)))))))"

section \<open>Properties\<close>

lemma diag_loop_eq:
  "diag_loop us fail out = (fail \<or> (\<exists>u\<in>set us. hv_UnitHealth u \<noteq> 0), out @ map diag_line (filter (\<lambda>u. hv_UnitHealth u \<noteq> 0) us))"
  by (induction us arbitrary: fail out) auto

lemma runDiag_eq:
  "runDiag (Inr us) = (if \<exists>u\<in>set us. hv_UnitHealth u \<noteq> 0 then 1 else 0, map diag_line (filter (\<lambda>u. hv_UnitHealth u \<noteq> 0) us))"
  by (simp add: runDiag_def diag_loop_eq)

text \<open>
  What the exit code of the unit check says. The check exits with 0 precisely if the connection to systemd and the list of the
  units could be had and every unit that could be read and judged is healthy; it prints one line for every other one of
  these, in order. A unit that cannot be read neither fails the check nor is printed.
\<close>

theorem diag_exit_code:
  assumes "GetUnits env newErr \<lparr>db_locked = False, db_open = False\<rparr> w = Some (units, st, w')"
  shows "(fst (runDiag units) = 0 \<longleftrightarrow> newErr = None \<and>
      (\<exists>us. fst (GetUnitNames w) = Inr us \<and> (\<forall>v\<in>set (List.map_filter (unit_value env) us). hv_UnitHealth v = 0))) \<and>
    (\<forall>us. newErr = None \<longrightarrow> fst (GetUnitNames w) = Inr us \<longrightarrow>
       snd (runDiag units) = map diag_line (filter (\<lambda>v. hv_UnitHealth v \<noteq> 0) (List.map_filter (unit_value env) us)))"
proof -
  have u: "units = (case newErr of Some e \<Rightarrow> Inl e
      | None \<Rightarrow> (case fst (GetUnitNames w) of Inl e \<Rightarrow> Inl e | Inr us \<Rightarrow> Inr (List.map_filter (unit_value env) us)))"
    using assms GetUnits_eq [of env newErr w] by auto
  show ?thesis
  proof (cases newErr)
    case None
    then show ?thesis using u runDiag_def [of "Inl _"] by (cases "fst (GetUnitNames w)") (auto simp: runDiag_eq)
  next
    case (Some e)
    then show ?thesis using u by (simp add: runDiag_def)
  qed
qed

theorem diag_exit_code_witness:
  "\<exists>units st w'. GetUnits \<lparr>ue_props = (\<lambda>_. Inr Map.empty), ue_service = (\<lambda>_ n. Inr (n, ())), ue_decode = (\<lambda>_. Inr sample_unit), ue_journal = (\<lambda>_. Inl ''x'')\<rparr>
      None \<lparr>db_locked = False, db_open = False\<rparr>
      (sample_world [(''/etc/systemd/system/dcos.target.wants'', Dir), (''/etc/systemd/system/dcos.target.wants/u.service'', File (Bytes []))]) =
      Some (units, st, w') \<and> fst (runDiag units) \<noteq> 0"
proof -
  let ?env = "\<lparr>ue_props = (\<lambda>_. Inr Map.empty), ue_service = (\<lambda>_ n. Inr (n, ())), ue_decode = (\<lambda>_. Inr sample_unit), ue_journal = (\<lambda>_. Inl ''x'')\<rparr>"
  let ?w = "sample_world [(''/etc/systemd/system/dcos.target.wants'', Dir), (''/etc/systemd/system/dcos.target.wants/u.service'', File (Bytes []))]"
  have n: "fst (GetUnitNames ?w) = Inr [''u.service'']" by code_simp
  have v: "map hv_UnitHealth (List.map_filter (unit_value ?env) [''u.service'']) = [1]" by code_simp
  obtain units st w' where g: "GetUnits ?env None \<lparr>db_locked = False, db_open = False\<rparr> ?w = Some (units, st, w')"
    using GetUnits_eq by blast
  have "\<exists>x\<in>set (List.map_filter (unit_value ?env) [''u.service'']). hv_UnitHealth x \<noteq> 0" using v by (auto simp: map_eq_Cons_conv)
  then have "fst (runDiag units) \<noteq> 0" using diag_exit_code [OF g] n by auto
  then show ?thesis using g by blast
qed

lemma daemon_started_cases:
  assumes "startDiagnosticsDaemon env cfg w = (Inr (dt, l), w')"
  obtains lp cs w1 tools where "tools = \<lparr>ExhibitorURL = FlagExhibitorClusterStatusURL cfg, ToolsRole = FlagRole cfg, ToolsForceTLS = FlagForceTLS cfg\<rparr>"
    and "1 \<le> FlagDiagnosticsBundleFetchersCount cfg" and "LoadCollectors (de_providers env) cfg (de_units env) (GetNodeRole tools) = Inr cs"
    and "Init_providers (de_providers env) cfg (de_units env) (GetNodeRole tools) = Inr lp"
    and "make_handlers env cfg tools lp cs w = (Inr dt, w')" and "choose_listener env cfg = Inr l"
  using assms
  by (auto simp: startDiagnosticsDaemon_def Let_def split: option.splits if_splits sum.splits prod.splits)

lemma listener_cases:
  "choose_listener env cfg = Inr l \<Longrightarrow>
     (if FlagDisableUnixSocket cfg then l = ListenTCP (FlagPort cfg)
      else pe_goos (de_providers env) \<notin> {''darwin'', ''windows''} \<and> (\<exists>sock ls. de_activation env = Inr (Some sock # ls) \<and> l = ListenSocket sock))"
  by (auto simp: choose_listener_def getListener_def linux_getListener_def darwin_getListener_def win_getListener_def
      split: if_splits sum.splits list.splits option.splits)

text \<open>
  The command \<^verbatim>\<open>mesos-state\<close> exits with 0 precisely if the leader has answered with 200 and the whole body was read and
  written; then the output is that body and nothing else. An answer with another code is printed as well, before the error.
\<close>

theorem state_command_exit:
  shows "(fst (Execute (state_RunE newTransport cfg https get write)) = 0 \<longleftrightarrow>
      (\<exists>url resp raw. newTransport (transport_options cfg) = None \<and> state_url cfg https = Inr url \<and> get url = Inr resp \<and>
        h_body resp = (raw, None) \<and> write raw = None \<and> h_status resp = 200)) \<and>
    (\<forall>url resp raw. newTransport (transport_options cfg) = None \<and> state_url cfg https = Inr url \<and> get url = Inr resp \<and>
       h_body resp = (raw, None) \<and> write raw = None \<longrightarrow>
       snd (Execute (state_RunE newTransport cfg https get write)) =
         raw @ (if h_status resp = 200 then [] else msg [''unexpected status code: '', itoa (h_status resp), [CHR 0x0A]]))"
  by (auto simp: Execute_def state_RunE_def getMesosState_def initTransport_def msg_def split: option.splits sum.splits prod.splits)

theorem state_command_exit_witness:
  "Execute (state_RunE (\<lambda>_. None) zero_Config Inr (\<lambda>_. Inr \<lparr>h_status = 500, h_headers = [], h_body = (''busy'', None)\<rparr>) (\<lambda>_. None)) \<noteq> (0, ''busy'')"
  using state_command_exit [of "\<lambda>_. None" zero_Config Inr "\<lambda>_. Inr \<lparr>h_status = 500, h_headers = [], h_body = (''busy'', None)\<rparr>" "\<lambda>_. None"] by auto

lemma make_handlers_cases:
  assumes "make_handlers env cfg tools lp cs w = (Inr dt, w')"
  shows "dt_Cfg dt = cfg \<and> dt_Tools dt = tools \<and> dt_Job dt = new_job cfg \<and> dt_logProviders dt = lp \<and>
    dt_BundleHandler dt = \<lparr>bh_workDir = FlagDiagnosticsBundleDir cfg, bh_collectors = cs\<rparr> \<and>
    cb_workDir (dt_ClusterBundleHandler dt) = FlagDiagnosticsBundleDir cfg \<and> (dt_pulling dt = Some pull_init \<longleftrightarrow> FlagPull cfg)"
    and "\<exists>w1 w2. sys_mkdir_all (FlagDiagnosticsBundleDir cfg) w1 = (None, w2) \<and> w' = w2"
  using assms
  by (auto simp: make_handlers_def NewBundleHandler_def NewClusterBundleHandler_def initializeWorkDir_def
      split: sum.splits prod.splits option.splits if_splits)

text \<open>
  C38. A daemon that has started is in order. There is at least one fetcher, the bundle directory exists, the node's and the
  cluster's bundle handlers and the legacy job all work on that directory, the node's handler has the collectors of the
  node's role, the legacy job is not running, the status tree is empty, and the puller runs precisely if it was asked for.
  It listens on the TCP port if the unix socket is disabled, and else on the first socket that systemd has passed to it; on
  Darwin and Windows, where there is none, a daemon has only started if the unix socket is disabled.
\<close>

theorem daemon_starts_in_order:
  assumes "startDiagnosticsDaemon env cfg w = (Inr (dt, l), w')" and "path_comps (FlagDiagnosticsBundleDir cfg) \<noteq> []"
  shows "1 \<le> FlagDiagnosticsBundleFetchersCount cfg \<and> is_dir w' (clean (FlagDiagnosticsBundleDir cfg)) \<and>
    bh_workDir (dt_BundleHandler dt) = FlagDiagnosticsBundleDir cfg \<and>
    cb_workDir (dt_ClusterBundleHandler dt) = FlagDiagnosticsBundleDir cfg \<and> dj_Cfg (dt_Job dt) = cfg \<and>
    LoadCollectors (de_providers env) cfg (de_units env) (GetNodeRole (dt_Tools dt)) = Inr (bh_collectors (dt_BundleHandler dt)) \<and>
    \<not> dj_Running (dt_Job dt) \<and> GetAllUnits (dt_MR dt) = [] \<and> (dt_pulling dt = Some pull_init \<longleftrightarrow> FlagPull cfg) \<and>
    (if FlagDisableUnixSocket cfg then l = ListenTCP (FlagPort cfg)
     else pe_goos (de_providers env) \<notin> {''darwin'', ''windows''} \<and> (\<exists>sock ls. de_activation env = Inr (Some sock # ls) \<and> l = ListenSocket sock))"
proof -
  obtain lp cs tools where 1: "1 \<le> FlagDiagnosticsBundleFetchersCount cfg"
    and 2: "LoadCollectors (de_providers env) cfg (de_units env) (GetNodeRole tools) = Inr cs"
    and 3: "make_handlers env cfg tools lp cs w = (Inr dt, w')" and 4: "choose_listener env cfg = Inr l"
    using assms(1) by (rule daemon_started_cases)
  obtain wa where "sys_mkdir_all (FlagDiagnosticsBundleDir cfg) wa = (None, w')" using make_handlers_cases(2) [OF 3] by blast
  then have "is_dir w' (clean (FlagDiagnosticsBundleDir cfg))" using mkdir_all_ok(1) assms(2) by (simp add: is_dir_def)
  moreover have "dt_MR dt = \<lparr>mr_Units = [], mr_Nodes = [], mr_UpdatedTime = 0\<rparr>"
    using 3 by (auto simp: make_handlers_def split: sum.splits prod.splits)
  ultimately show ?thesis using 1 2 make_handlers_cases(1) [OF 3] listener_cases [OF 4] by (simp add: new_job_def GetAllUnits_def)
qed

text \<open>A directory of the id makes both kinds of creation answer 409.\<close>

lemma create_conflict:
  assumes "fs_get w (bundle_dir wd i) = Some Dir" and "failing w = None"
  shows "bh_workDir h = wd \<Longrightarrow> outcome_code (fst (bh_Create h i w)) = Some 409"
    and "cb_workDir c = wd \<Longrightarrow> getOptionsFromRequest body = Inr opts \<Longrightarrow> outcome_code (fst (cb_Create c body ms as uuid i w)) = Some 409"
  using assms by (simp_all add: bh_Create_def cb_Create_def bundleExists_def sys_stat_def writeJSONError_def)

lemma stored_dir: "slot_of h w i = Stored b d \<Longrightarrow> fs_get w (bundle_dir (bh_workDir h) i) = Some Dir"
  by (auto simp: slot_of_def split: if_splits)

text \<open>
  The two bundle APIs share their ids. In a daemon that has started, once a bundle was created by the node's API or by the
  cluster's API, creating one with the same id by either of them is answered with 409: no bundle of one API is
  overwritten by the other, although both keep theirs in the same directory.
\<close>

theorem apis_share_ids:
  assumes "startDiagnosticsDaemon env cfg w0 = (Inr (dt, l), w1)" and "valid_id i" and "failing w' = None"
    and "getOptionsFromRequest body = Inr opts"
    and "bh_Create (dt_BundleHandler dt) i w = (out, w', Some b) \<or>
      cb_Create (dt_ClusterBundleHandler dt) body' masters agents uuid i w = (out, w', Some (b, loc, ns))"
  shows "outcome_code (fst (bh_Create (dt_BundleHandler dt) i w')) = Some 409 \<and>
    outcome_code (fst (cb_Create (dt_ClusterBundleHandler dt) body ms as uuid' i w')) = Some 409"
proof -
  let ?d = "FlagDiagnosticsBundleDir cfg"
  have wd: "bh_workDir (dt_BundleHandler dt) = ?d" "cb_workDir (dt_ClusterBundleHandler dt) = ?d"
    using assms(1) make_handlers_cases(1) by (auto elim!: daemon_started_cases)
  have "fs_get w' (bundle_dir ?d i) = Some Dir"
    using assms(5)
  proof
    assume "bh_Create (dt_BundleHandler dt) i w = (out, w', Some b)"
    then obtain wa where "create_new (dt_BundleHandler dt) i wa = (out, w', Some b)"
      by (auto simp: bh_Create_def split: prod.splits option.splits bool.splits)
    then show ?thesis using create_new_spawns(1) assms(2) stored_dir wd(1) by metis
  next
    assume "cb_Create (dt_ClusterBundleHandler dt) body' masters agents uuid i w = (out, w', Some (b, loc, ns))"
    then obtain o2 wa where "cb_create_new (dt_ClusterBundleHandler dt) o2 masters agents uuid i wa = (out, w', Some (b, loc, ns))"
      by (auto simp: cb_Create_def split: prod.splits option.splits bool.splits sum.splits)
    then have "slot_of (cb_handler (dt_ClusterBundleHandler dt)) w' i = Stored b (Some (File (Bytes [])))"
      using cb_create_new_cases assms(2) by blast
    then show ?thesis using stored_dir wd(2) by (fastforce simp: cb_handler_def)
  qed
  from create_conflict [OF this assms(3)] wd assms(4) show ?thesis by blast
qed

definition sample_daemon :: daemon_env where
  "sample_daemon = \<lparr>de_newTransport = (\<lambda>_. None), de_newNodeInfo = (\<lambda>_. None), de_providers = sample_providers,
     de_units = Inr [''dcos-net.service''], de_ip = id, de_activation = Inr []\<rparr>"

definition sample_daemon_cfg :: Config where
  "sample_daemon_cfg = sample_provider_cfg\<lparr>FlagRole := ''master'', FlagDiagnosticsBundleDir := ''/b'',
     FlagDiagnosticsBundleFetchersCount := 1, FlagDisableUnixSocket := True\<rparr>"

lemma sample_daemon_starts: "\<exists>dt l w'. startDiagnosticsDaemon sample_daemon sample_daemon_cfg (sample_world []) = (Inr (dt, l), w')"
proof -
  have "is_ok (fst (startDiagnosticsDaemon sample_daemon sample_daemon_cfg (sample_world [])))" by code_simp
  then show ?thesis by (auto simp: is_ok_def split: sum.splits) (metis prod.collapse)
qed

theorem daemon_starts_in_order_witness:
  "\<exists>dt l w'. startDiagnosticsDaemon sample_daemon sample_daemon_cfg (sample_world []) = (Inr (dt, l), w') \<and>
     bh_workDir (dt_BundleHandler dt) = ''/b'' \<and> \<not> dj_Running (dt_Job dt)"
proof -
  obtain dt l w' where s: "startDiagnosticsDaemon sample_daemon sample_daemon_cfg (sample_world []) = (Inr (dt, l), w')"
    using sample_daemon_starts by blast
  have "path_comps (FlagDiagnosticsBundleDir sample_daemon_cfg) \<noteq> []" "FlagDiagnosticsBundleDir sample_daemon_cfg = ''/b''" by code_simp+
  then show ?thesis using daemon_starts_in_order [OF s] s by auto
qed

lemma bh_Create_workDir:
  assumes "bh_workDir h = bh_workDir h'"
  shows "bh_Create h i w = bh_Create h' i w"
  unfolding bh_Create_def create_new_def writeStateFile_def assms by (rule refl)

theorem apis_share_ids_witness:
  "\<exists>dt l w1 out w' b. startDiagnosticsDaemon sample_daemon sample_daemon_cfg (sample_world []) = (Inr (dt, l), w1) \<and>
     bh_Create (dt_BundleHandler dt) ''a'' (sample_world []) = (out, w', Some b) \<and>
     outcome_code (fst (cb_Create (dt_ClusterBundleHandler dt) NilBody (Inr []) (Inr []) (Inr ''u'') ''a'' w')) = Some 409"
proof -
  obtain dt l w1 where s: "startDiagnosticsDaemon sample_daemon sample_daemon_cfg (sample_world []) = (Inr (dt, l), w1)"
    using sample_daemon_starts by blast
  have d: "FlagDiagnosticsBundleDir sample_daemon_cfg = ''/b''" by (simp add: sample_daemon_cfg_def)
  obtain cs where h: "dt_BundleHandler dt = \<lparr>bh_workDir = ''/b'', bh_collectors = cs\<rparr>"
    using s make_handlers_cases(1) d by (auto elim!: daemon_started_cases)
  have "snd (snd (bh_Create \<lparr>bh_workDir = ''/b'', bh_collectors = []\<rparr> ''a'' (sample_world []))) \<noteq> None" by code_simp
  moreover have "bh_Create (dt_BundleHandler dt) ''a'' (sample_world []) = bh_Create \<lparr>bh_workDir = ''/b'', bh_collectors = []\<rparr> ''a'' (sample_world [])"
    by (rule bh_Create_workDir) (simp add: h)
  ultimately obtain out w' b where c: "bh_Create (dt_BundleHandler dt) ''a'' (sample_world []) = (out, w', Some b)"
    by (metis option.exhaust prod.collapse)
  have "failing (fst (snd (bh_Create \<lparr>bh_workDir = ''/b'', bh_collectors = []\<rparr> ''a'' (sample_world [])))) = None" by code_simp
  then have f: "failing w' = None"
    using c bh_Create_workDir [of "dt_BundleHandler dt" "\<lparr>bh_workDir = ''/b'', bh_collectors = []\<rparr>"] by (simp add: h)
  have i: "valid_id ''a''" by code_simp
  from apis_share_ids [OF s i f, of NilBody _ "sample_world []" out b] c s show ?thesis by auto
qed

end
