(* ===== verification/Http_Api.thy ===== *)
theory Http_Api
  imports Daemon Bundle_Contract
begin

text \<open>
  The HTTP interface of a running daemon: the router, the middleware and the handlers together. A request is a method and a
  path; what it does to the files and what it answers follows from the route it takes (\<^verbatim>\<open>api/router.go\<close>) and from the
  handler's own specification.
\<close>

section \<open>Requests of the node's bundle API\<close>

text \<open>\<^verbatim>\<open>mux.Vars\<close>: a missing variable reads as the empty string.\<close>

definition var :: "(string \<times> string) list \<Rightarrow> string \<Rightarrow> string" where
  "var vs k = (case map_of vs k of None \<Rightarrow> [] | Some v \<Rightarrow> v)"

fun node_request_of :: "endpoint \<Rightarrow> (string \<times> string) list \<Rightarrow> node_request option" where
  "node_request_of EP_bh_Create vs = Some (PutBundle (var vs ''id''))"
| "node_request_of EP_bh_Delete vs = Some (DeleteBundle (var vs ''id''))"
| "node_request_of EP_bh_List vs = Some ListBundles"
| "node_request_of EP_bh_Get vs = Some (GetBundle (var vs ''id''))"
| "node_request_of EP_bh_GetFile vs = Some (GetBundleFile (var vs ''id''))"
| "node_request_of _ vs = None"

definition serve_node_http :: "Dt \<Rightarrow> string \<Rightarrow> string \<Rightarrow> world \<Rightarrow> (served \<times> world \<times> Bundle option) option" where
  "serve_node_http dt m path w =
     (case dispatch (dt_Cfg dt) m path of
        Serve r vs \<Rightarrow>
          (case node_request_of (rh_handler r) vs of
             None \<Rightarrow> None
           | Some q \<Rightarrow>
               (case serve_node (dt_BundleHandler dt) q w of
                  (out, w1, sp) \<Rightarrow> Some (of_outcome (headerMiddleware (rh_headers r) []) out, w1, sp)))
      | _ \<Rightarrow> None)"

fun request_line :: "node_request \<Rightarrow> string \<times> string" where
  "request_line (PutBundle i) = (''PUT'', nodeBundlesEndpoint @ ''/'' @ i)"
| "request_line (DeleteBundle i) = (''DELETE'', nodeBundlesEndpoint @ ''/'' @ i)"
| "request_line ListBundles = (''GET'', nodeBundlesEndpoint)"
| "request_line (GetBundle i) = (''GET'', nodeBundlesEndpoint @ ''/'' @ i)"
| "request_line (GetBundleFile i) = (''GET'', nodeBundlesEndpoint @ ''/'' @ i @ ''/file'')"

fun request_route :: "node_request \<Rightarrow> routeHandler" where
  "request_route (PutBundle i) = (route nodeBundleEndpoint EP_bh_Create)\<lparr>rh_methods := [''PUT'']\<rparr>"
| "request_route (DeleteBundle i) = (route nodeBundleEndpoint EP_bh_Delete)\<lparr>rh_methods := [''DELETE'']\<rparr>"
| "request_route ListBundles = (route nodeBundlesEndpoint EP_bh_List)\<lparr>rh_methods := [''GET'']\<rparr>"
| "request_route (GetBundle i) = (route nodeBundleEndpoint EP_bh_Get)\<lparr>rh_methods := [''GET'']\<rparr>"
| "request_route (GetBundleFile i) = (route nodeBundleFileEndpoint EP_bh_GetFile)\<lparr>rh_methods := [''GET'']\<rparr>"

section \<open>From the request line to the handler\<close>

lemma node_templates:
  "template_segs nodeBundleEndpoint = map Lit [[], ''system'', ''health'', ''v1'', ''node'', ''diagnostics''] @ [Var ''id'']"
  "template_segs nodeBundleFileEndpoint = map Lit [[], ''system'', ''health'', ''v1'', ''node'', ''diagnostics''] @ [Var ''id'', Lit ''file'']"
  "template_segs nodeBundlesEndpoint = map Lit [[], ''system'', ''health'', ''v1'', ''node'', ''diagnostics'']"
  by code_simp+

lemma node_route_in: "request_route q \<in> set (loadRoutes cfg)"
proof -
  have "r\<lparr>rh_methods := ms\<rparr> \<in> set (loadRoutes cfg)" if "r\<lparr>rh_methods := ms\<rparr> \<in> set node_bundle_routes" "ms \<noteq> []" for r ms
    using that by (force simp: loadRoutes_def getRoutes_def)
  then show ?thesis by (cases q) (auto simp: node_bundle_routes_def)
qed

lemma dispatch_request_line:
  assumes "\<not> FlagDebug cfg" and "pred_option valid_id (request_id q)"
  shows "\<exists>vs. dispatch cfg (fst (request_line q)) (snd (request_line q)) = Serve (request_route q) vs \<and>
    node_request_of (rh_handler (request_route q)) vs = Some q"
proof -
  note D = dispatch_route_path [OF assms(1) node_route_in, of _ q]
  have p: "route_path nodeBundleEndpoint [i] = nodeBundlesEndpoint @ ''/'' @ i"
    "route_path nodeBundleFileEndpoint [i] = nodeBundlesEndpoint @ ''/'' @ i @ ''/file''"
    "route_path nodeBundlesEndpoint [] = nodeBundlesEndpoint" for i
    by (simp_all add: route_path_def node_templates) (simp_all add: nodeBundlesEndpoint_def baseRoute_def)
  show ?thesis
    using assms(2) D [of "fst (request_line q)" "case request_id q of None \<Rightarrow> [] | Some i \<Rightarrow> [i]"]
    by (cases q) (simp_all add: route_def node_templates p var_def)
qed

section \<open>Properties\<close>

lemma of_outcome_code: "outcome_code out = Some c \<Longrightarrow> \<exists>rep. of_outcome h out = Reply rep \<and> rp_code rep = c"
  by (cases out) (auto simp: of_outcome_def Let_def split: body.splits)

text \<open>
  C4. The node's bundle API over HTTP. For every request of the API, sent as its method and path to a daemon without faults, the
  router finds the handler, and the answer on the wire has the code that the specification gives for the bundle of that id and leaves
  that bundle as the specification says.
\<close>

theorem node_http_refines:
  assumes "\<not> FlagDebug (dt_Cfg dt)" and "calm w" and "valid_id i" and "regular (dt_BundleHandler dt) w i"
    and "own_id (dt_BundleHandler dt) w i" and "request_id q = Some i"
  shows "\<exists>rep w' sp. serve_node_http dt (fst (request_line q)) (snd (request_line q)) w = Some (Reply rep, w', sp) \<and>
    (rp_code rep, slot_of (dt_BundleHandler dt) w' i) =
      spec_serve (clock w (calls w + 2)) (presented w) q (slot_of (dt_BundleHandler dt) w i)"
proof -
  let ?h = "dt_BundleHandler dt"
  obtain vs where d: "dispatch (dt_Cfg dt) (fst (request_line q)) (snd (request_line q)) = Serve (request_route q) vs"
    and q: "node_request_of (rh_handler (request_route q)) vs = Some q"
    using dispatch_request_line [OF assms(1), of q] assms(3,6) by auto
  obtain out w' sp where s: "serve_node ?h q w = (out, w', sp)" by (metis prod_cases3)
  note S = serve_node_spec [OF assms(2-6) s refl]
  obtain rep where "of_outcome (headerMiddleware (rh_headers (request_route q)) []) out = Reply rep"
    "rp_code rep = fst (spec_serve (clock w (calls w + 2)) (presented w) q (slot_of ?h w i))"
    using of_outcome_code S by blast
  then show ?thesis using d q s S by (simp add: serve_node_http_def)
qed

text \<open>The files that a request of the API can touch: those of its id, and the directories on the way to them.\<close>

definition reach_of :: "BundleHandler \<Rightarrow> string \<Rightarrow> string set" where
  "reach_of h i = files_of h i \<union> set (ancestors (bundle_dir (bh_workDir h) i))"

lemma serve_node_frame:
  assumes "serve_node h q w = (out, w', sp)" and "pred_option valid_id (request_id q)" and "owns h w"
  shows "same_except (case request_id q of None \<Rightarrow> {} | Some i \<Rightarrow> reach_of h i) w w'"
proof (cases q)
  case (PutBundle i)
  then show ?thesis using assms bh_Create_frame by (auto simp: reach_of_def)
next
  case (DeleteBundle i)
  with assms owns_own_id [OF assms(3)] have "same_except (files_of h i) w w'"
    by (auto split: prod.splits intro: bh_Delete_frame)
  then show ?thesis using DeleteBundle by (auto simp: reach_of_def intro: same_except_mono)
next
  case (GetBundle i)
  then show ?thesis using assms(1) by (auto split: prod.splits intro: same_except_mono [OF bh_Get_frame])
next
  case (GetBundleFile i)
  then show ?thesis using assms(1) by (auto split: prod.splits intro: same_except_mono [OF bh_GetFile_frame])
qed (use assms in \<open>auto split: prod.splits intro: bh_List_frame\<close>)

lemma node_handlers_vars:
  assumes "r \<in> set (loadRoutes cfg)" and "node_request_of (rh_handler r) vs = Some q" and "request_id q = Some i"
  shows "template_vars (rh_url r) = [''id''] \<and> i = var vs ''id''"
proof -
  have "rh_handler r \<in> {EP_bh_Create, EP_bh_Delete, EP_bh_Get, EP_bh_GetFile}" and i: "i = var vs ''id''"
    using assms(2,3) by (cases "rh_handler r"; auto)+
  then have "rh_url r = nodeBundleEndpoint \<or> rh_url r = nodeBundleFileEndpoint"
    using assms(1)
    by (auto simp: loadRoutes_def getRoutes_def tree_routes_def log_routes_def node_bundle_routes_def cluster_bundle_routes_def
        legacy_routes_def debug_routes_def route_def split: if_splits)
  then show ?thesis using i by (auto simp: node_templates)
qed


definition sample_dt :: Dt where
  "sample_dt = \<lparr>dt_Cfg = sample_cfg, dt_Tools = \<lparr>ExhibitorURL = [], ToolsRole = ''master'', ToolsForceTLS = False\<rparr>, dt_Job = new_job sample_cfg,
     dt_logProviders = \<lparr>lp_HTTPEndpoints = [], lp_LocalFiles = [], lp_LocalCommands = []\<rparr>, dt_BundleHandler = sample_handler,
     dt_ClusterBundleHandler = sample_cluster, dt_MR = \<lparr>mr_Units = [], mr_Nodes = [], mr_UpdatedTime = 0\<rparr>, dt_pulling = None\<rparr>"

lemma sample_dt_simps [simp]: "dt_BundleHandler sample_dt = sample_handler" "\<not> FlagDebug (dt_Cfg sample_dt)"
  by (simp_all add: sample_dt_def sample_cfg_def zero_Config_def)

theorem node_http_refines_witness:
  "\<exists>rep w' sp. serve_node_http sample_dt ''GET'' (nodeBundlesEndpoint @ ''/a/file'') (sample_world done_files) = Some (Reply rep, w', sp) \<and>
     rp_code rep = 200"
proof -
  have 1: "calm (sample_world done_files)" by (simp add: calm_def sample_world_def)
  have 2: "valid_id ''a''" "regular sample_handler (sample_world done_files) ''a''" "own_id sample_handler (sample_world done_files) ''a''"
    "slot_of sample_handler (sample_world done_files) ''a'' = Stored done_bundle (Some (File (Zip [])))" "bStatus done_bundle = Done"
    by code_simp+
  show ?thesis using node_http_refines [of sample_dt "sample_world done_files" "''a''" "GetBundleFile ''a''"] 1 2 by (auto simp: usable_def)
qed


section \<open>The health tree over HTTP\<close>

fun tree_handler :: "endpoint \<Rightarrow> (string \<times> string) list \<Rightarrow> (MonitoringResponse \<Rightarrow> header_map \<Rightarrow> served) option" where
  "tree_handler EP_reportHandler vs = Some (\<lambda>mr h. reportHandler h mr)"
| "tree_handler EP_getAllUnitsHandler vs = Some (\<lambda>mr h. getAllUnitsHandler h mr)"
| "tree_handler EP_getUnitByIDHandler vs = Some (\<lambda>mr h. getUnitByIDHandler h mr (var vs ''unitid''))"
| "tree_handler EP_getNodesByUnitIDHandler vs = Some (\<lambda>mr h. getNodesByUnitIDHandler h mr (var vs ''unitid''))"
| "tree_handler EP_getNodeByUnitIDNodeIDHandler vs =
     Some (\<lambda>mr h. getNodeByUnitIDNodeIDHandler h mr (var vs ''unitid'') (var vs ''nodeid''))"
| "tree_handler EP_getNodesHandler vs = Some (\<lambda>mr h. getNodesHandler h mr)"
| "tree_handler EP_getNodeByIDHandler vs = Some (\<lambda>mr h. getNodeByIDHandler h mr (var vs ''nodeid''))"
| "tree_handler EP_getNodeUnitsByNodeIDHandler vs = Some (\<lambda>mr h. getNodeUnitsByNodeIDHandler h mr (var vs ''nodeid''))"
| "tree_handler EP_getNodeUnitByNodeIDUnitIDHandler vs =
     Some (\<lambda>mr h. getNodeUnitByNodeIDUnitIDHandler h mr (var vs ''nodeid'') (var vs ''unitid''))"
| "tree_handler _ vs = None"

text \<open>\<open>cache\<close> and \<open>pull\<close> as for the middleware.\<close>

definition serve_tree ::
  "(time \<Rightarrow> string) \<Rightarrow> Config \<Rightarrow> bool \<Rightarrow> MonitoringResponse option \<Rightarrow> string \<Rightarrow> string \<Rightarrow> MonitoringResponse \<Rightarrow> served option" where
  "serve_tree ansic cfg cache pull m path mr =
     (case dispatch cfg m path of
        Serve r vs \<Rightarrow>
          (case tree_handler (rh_handler r) vs of
             None \<Rightarrow> None
           | Some f \<Rightarrow> Some (wrapHandler ansic cfg cache pull r f mr []))
      | _ \<Rightarrow> None)"

definition unit_route :: routeHandler where
  "unit_route = (route (baseRoute @ ''/nodes/{nodeid}/units/{unitid}'') EP_getNodeUnitByNodeIDUnitIDHandler)
     \<lparr>rh_canFlushCache := True, rh_methods := [''GET'']\<rparr>"

lemma unit_route_in: "unit_route \<in> set (loadRoutes cfg)"
  by (simp add: loadRoutes_def getRoutes_def tree_routes_def unit_route_def route_def)

lemma unit_template:
  "template_segs (rh_url unit_route) =
     map Lit [[], ''system'', ''health'', ''v1'', ''nodes''] @ [Var ''nodeid'', Lit ''units'', Var ''unitid'']"
  by code_simp

lemma dispatch_unit_path:
  assumes "\<not> FlagDebug cfg" and "real_comp n" and "real_comp u"
  shows "dispatch cfg ''GET'' (msg [baseRoute, ''/nodes/'', n, ''/units/'', u]) = Serve unit_route [(''nodeid'', n), (''unitid'', u)]"
proof -
  have "route_path (rh_url unit_route) [n, u] = msg [baseRoute, ''/nodes/'', n, ''/units/'', u]"
    by (simp add: route_path_def unit_template msg_def baseRoute_def)
  moreover have "''GET'' \<in> set (rh_methods unit_route)" by (simp add: unit_route_def)
  ultimately show ?thesis
    using dispatch_route_path [OF assms(1) unit_route_in, of "''GET''" "[n, u]"] assms(2,3) by (simp add: unit_template)
qed



end
