(* ===== verification/Job_Run.thy ===== *)
theory Job_Run
  imports Diagnostics_Job
begin

text \<open>
  The background job with its fetchers, end to end: how \<^verbatim>\<open>collectDataFromNodes\<close> of \<^verbatim>\<open>api/diagnostics.go\<close> makes
  and runs the fetchers of \<^verbatim>\<open>fetcher/fetcher.go\<close>, what a run without faults leaves in the archive, and
  what it reports.
\<close>

section \<open>Making and running the fetchers\<close>

text \<open>\<^verbatim>\<open>ioutil.TempFile\<close> picks the name of a new file; the name is an argument.\<close>

definition fetcher_New :: "string \<Rightarrow> string \<Rightarrow> world \<Rightarrow> string result \<times> world" where
  "fetcher_New tempdir name w =
     (let path = join [tempdir, name] in
      case sys_create path w of
        (Some e, w1) \<Rightarrow> (Inl (msg [''could not create temp zip file in '', tempdir, '': '', e]), w1)
      | (None, w1) \<Rightarrow> (Inr path, w1))"

fun new_fetchers :: "string \<Rightarrow> string list \<Rightarrow> world \<Rightarrow> string list result \<times> world" where
  "new_fetchers tempdir [] w = (Inr [], w)"
| "new_fetchers tempdir (n # ns) w =
     (case fetcher_New tempdir n w of
        (Inl e, w1) \<Rightarrow> (Inl e, w1)
      | (Inr p, w1) \<Rightarrow>
          (case new_fetchers tempdir ns w1 of
             (Inl e, w2) \<Rightarrow> (Inl e, w2)
           | (Inr ps, w2) \<Rightarrow> (Inr (p # ps), w2)))"

text \<open>
  The fetchers share nothing but the channel of requests, so a run is determined by which of them takes which
  requests (\<open>share\<close>); here they run one after the other and are not cancelled.
\<close>

fun run_fetchers ::
  "fetch_env \<Rightarrow> (string \<times> EndpointRequest list) list \<Rightarrow> world \<Rightarrow> StatusUpdate list \<times> BulkResponse list \<times> world" where
  "run_fetchers fenv [] w = ([], [], w)"
| "run_fetchers fenv ((p, rs) # fs) w =
     (case fetcher_Run fenv (\<lambda>_. False) p rs w of
        (us, resp, w1) \<Rightarrow>
          (case run_fetchers fenv fs w1 of (vs, resps, w2) \<Rightarrow> (us @ vs, resp # resps, w2)))"

definition start_fetchers ::
  "fetch_env \<Rightarrow> string \<Rightarrow> string list \<Rightarrow> (EndpointRequest list \<Rightarrow> EndpointRequest list list) \<Rightarrow> fetchers" where
  "start_fetchers fenv tempdir names share reqs w =
     (case new_fetchers tempdir names w of
        (Inl e, w1) \<Rightarrow> (NoFetchers e, w1)
      | (Inr ps, w1) \<Rightarrow>
          (case run_fetchers fenv (List.zip ps (share reqs)) w1 of
             (us, resps, w2) \<Rightarrow> (Fetched us resps None, w2)))"

section \<open>What a job should fetch and report\<close>

definition node_url :: "job_env \<Rightarrow> Config \<Rightarrow> Node \<Rightarrow> endpointSpec \<Rightarrow> string result" where
  "node_url env cfg n ep = UseTLSScheme (je_https env) (msg [''http://'', IP n, PortAndPath ep]) (FlagForceTLS cfg)"

definition endpoint_request :: "job_env \<Rightarrow> Config \<Rightarrow> Node \<Rightarrow> string \<times> endpointSpec \<Rightarrow> EndpointRequest list" where
  "endpoint_request env cfg n fe =
     (case node_url env cfg n (snd fe) of
        Inl e \<Rightarrow> []
      | Inr url \<Rightarrow> [\<lparr>er_URL = url, er_Node = n, er_FileName = fst fe, er_Optional = SpecOptional (snd fe)\<rparr>])"

definition endpoint_errors :: "job_env \<Rightarrow> Config \<Rightarrow> Node \<Rightarrow> string \<times> endpointSpec \<Rightarrow> string list" where
  "endpoint_errors env cfg n fe =
     (case node_url env cfg n (snd fe) of Inl e \<Rightarrow> [msg [''could prepare URL: '', e]] | Inr url \<Rightarrow> [])"

definition wanted :: "job_env \<Rightarrow> Config \<Rightarrow> Node \<Rightarrow> EndpointRequest list" where
  "wanted env cfg n =
     (case getNodeEndpoints env cfg n of Inl e \<Rightarrow> [] | Inr eps \<Rightarrow> concat (map (endpoint_request env cfg n) eps))"

definition unwanted :: "job_env \<Rightarrow> Config \<Rightarrow> Node \<Rightarrow> string list" where
  "unwanted env cfg n =
     (case getNodeEndpoints env cfg n of Inl e \<Rightarrow> [e] | Inr eps \<Rightarrow> concat (map (endpoint_errors env cfg n) eps))"

definition fetch_errors :: "fetch_env \<Rightarrow> EndpointRequest list \<Rightarrow> string list" where
  "fetch_errors fenv rs = List.map_filter (fetch_error fenv) rs"

section \<open>Progress of the background job\<close>

text \<open>The job goes on without faults, leaves the files alone and has met the errors \<open>es\<close>; every error is in the
  report of the errors too.\<close>

definition goes_on :: "string list \<Rightarrow> background \<Rightarrow> background \<Rightarrow> bool" where
  "goes_on es b b' =
     ((calm (bg_world b) \<longrightarrow> calm (bg_world b') \<and> fs_get (bg_world b') = fs_get (bg_world b)) \<and>
      dj_Errors (bg_job b') = dj_Errors (bg_job b) @ es \<and>
      (bg_errors b' = [] \<longleftrightarrow> bg_errors b = [] \<and> es = []))"

lemma goes_on_refl: "goes_on [] b b"
  by (simp add: goes_on_def)

lemma goes_on_trans: "goes_on es b b1 \<Longrightarrow> goes_on fs b1 b2 \<Longrightarrow> goes_on (es @ fs) b b2"
  by (auto simp: goes_on_def)

lemma report_line_nonempty: "report_line env now p e \<noteq> []"
  by (simp add: report_line_def msg_def)

lemma goes_on_steps:
  "goes_on [] b (update_report env p e b)"
  "goes_on [e] b (logError env e m b)"
  "goes_on [] b (b\<lparr>bg_job := setStatus st (bg_job b)\<rparr>)"
  by (simp_all add: goes_on_def update_report_def logError_def sys_now_def appendError_def setStatus_def report_line_nonempty)

lemma node_requests_wanted:
  "\<exists>b' k'. node_requests env cfg (\<lambda>_. False) n eps k reqs b = (Some k', reqs @ concat (map (endpoint_request env cfg n) eps), b') \<and>
     goes_on (concat (map (endpoint_errors env cfg n) eps)) b b'"
proof (induction eps arbitrary: k reqs b)
  case Nil
  then show ?case by (simp add: goes_on_refl)
next
  case (Cons fe eps)
  obtain f ep where fe: "fe = (f, ep)" by fastforce
  show ?case
  proof (cases "node_url env cfg n ep")
    case (Inl e)
    let ?b = "logError env (msg [''could prepare URL: '', e]) (IP n) b"
    obtain b' k' where "node_requests env cfg (\<lambda>_. False) n eps (Suc k) reqs ?b =
        (Some k', reqs @ concat (map (endpoint_request env cfg n) eps), b')"
      and g: "goes_on (concat (map (endpoint_errors env cfg n) eps)) ?b b'" using Cons.IH by blast
    moreover have "endpoint_request env cfg n fe = []" "endpoint_errors env cfg n fe = [msg [''could prepare URL: '', e]]"
      using Inl by (simp_all add: fe endpoint_request_def endpoint_errors_def)
    ultimately show ?thesis
      using goes_on_trans [OF goes_on_steps(2) g] Inl [unfolded node_url_def] by (simp add: fe)
  next
    case (Inr url)
    have "endpoint_request env cfg n fe = [\<lparr>er_URL = url, er_Node = n, er_FileName = f, er_Optional = SpecOptional ep\<rparr>]"
      "endpoint_errors env cfg n fe = []" using Inr by (simp_all add: fe endpoint_request_def endpoint_errors_def)
    then show ?thesis
      using Cons.IH [of "Suc k" "reqs @ endpoint_request env cfg n fe" b] Inr [unfolded node_url_def] by (simp add: fe)
  qed
qed

lemma requests_loop_wanted:
  "\<exists>b'. requests_loop env cfg (\<lambda>_. False) ns k reqs b = (False, reqs @ concat (map (wanted env cfg) ns), b') \<and>
     goes_on (concat (map (unwanted env cfg) ns)) b b'"
proof (induction ns arbitrary: k reqs b)
  case Nil
  then show ?case by (simp add: goes_on_refl)
next
  case (Cons n ns)
  let ?b1 = "update_report env (msg [''START collecting logs '', IP n]) [] b"
  obtain k' b2 where b2: "goes_on (unwanted env cfg n) ?b1 b2"
    and go: "requests_loop env cfg (\<lambda>_. False) (n # ns) k reqs b =
      requests_loop env cfg (\<lambda>_. False) ns k' (reqs @ wanted env cfg n) b2"
  proof (cases "getNodeEndpoints env cfg n")
    case (Inl e)
    then show ?thesis
      using that [of "logError env e (IP n) ?b1" k] goes_on_steps(2) by (simp add: unwanted_def wanted_def)
  next
    case (Inr eps)
    obtain b2 k' where "node_requests env cfg (\<lambda>_. False) n eps k reqs ?b1 =
        (Some k', reqs @ concat (map (endpoint_request env cfg n) eps), b2)"
      "goes_on (concat (map (endpoint_errors env cfg n) eps)) ?b1 b2" using node_requests_wanted by blast
    with Inr show ?thesis using that [of b2 k'] by (simp add: unwanted_def wanted_def Let_def)
  qed
  obtain b3 where "requests_loop env cfg (\<lambda>_. False) ns k' (reqs @ wanted env cfg n) b2 =
      (False, (reqs @ wanted env cfg n) @ concat (map (wanted env cfg) ns), b3)"
    and b3: "goes_on (concat (map (unwanted env cfg) ns)) b2 b3" using Cons.IH by blast
  with go show ?case
    using goes_on_trans [OF goes_on_trans [OF goes_on_steps(1) b2] b3] by (auto simp del: requests_loop.simps)
qed

lemma updates_go_on:
  "goes_on (List.map_filter su_Error us) b (waitForStatusUpdates env us b)"
proof (induction us arbitrary: b)
  case Nil
  then show ?case by (simp add: waitForStatusUpdates_def goes_on_refl map_filter_simps)
next
  case (Cons u us)
  have "goes_on (case su_Error u of None \<Rightarrow> [] | Some e \<Rightarrow> [e]) b (on_update env u b)"
    using goes_on_trans [OF goes_on_trans [OF goes_on_steps(1) goes_on_steps(3)] goes_on_steps(2)]
      goes_on_trans [OF goes_on_steps(1) goes_on_steps(3)]
    by (auto simp: on_update_def Let_def split: option.splits)
  from goes_on_trans [OF this Cons.IH [of "on_update env u b"]] show ?case
    by (simp add: waitForStatusUpdates_def map_filter_simps split: option.splits)
qed

section \<open>A run without faults\<close>

lemma create_calm:
  assumes "calm w" and "fs_get w p \<noteq> Some Dir" and "is_dir w (parent p)"
  shows "\<exists>w'. sys_create p w = (None, w') \<and> calm w' \<and> fs_get w' = (fs_get w)(p \<mapsto> File (Bytes []))"
  using assms by (auto simp: sys_create_def calm_failing calm_def fun_eq_iff)

text \<open>The places of the fetchers' files: different ones, in a directory and not directories.\<close>

definition places :: "world \<Rightarrow> string list \<Rightarrow> bool" where
  "places w ps = (distinct ps \<and> (\<forall>p\<in>set ps. fs_get w p \<noteq> Some Dir \<and> is_dir w (parent p)))"

lemma is_dir_upd: "fs_get w' = (fs_get w)(p \<mapsto> File c) \<Longrightarrow> fs_get w p \<noteq> Some Dir \<Longrightarrow> is_dir w' d = is_dir w d"
  by (auto simp: is_dir_def)

lemma new_fetchers_calm:
  assumes "calm w" and "places w (map (\<lambda>n. join [tempdir, n]) names)"
  shows "\<exists>w'. new_fetchers tempdir names w = (Inr (map (\<lambda>n. join [tempdir, n]) names), w') \<and> calm w' \<and>
    fs_get w' = (\<lambda>q. if q \<in> (\<lambda>n. join [tempdir, n]) ` set names then Some (File (Bytes [])) else fs_get w q)"
  using assms
proof (induction names arbitrary: w)
  case (Cons n ns)
  let ?p = "join [tempdir, n]"
  obtain w1 where c: "sys_create ?p w = (None, w1)" and w1: "calm w1" "fs_get w1 = (fs_get w)(?p \<mapsto> File (Bytes []))"
    using create_calm [OF Cons.prems(1), of ?p] Cons.prems(2) by (auto simp: places_def simp del: join.simps)
  have "places w1 (map (\<lambda>n. join [tempdir, n]) ns)"
    using Cons.prems(2) w1(2) is_dir_upd [OF w1(2)] by (auto simp: places_def simp del: join.simps)
  then obtain w2 where "new_fetchers tempdir ns w1 = (Inr (map (\<lambda>n. join [tempdir, n]) ns), w2)" "calm w2"
    "fs_get w2 = (\<lambda>q. if q \<in> (\<lambda>n. join [tempdir, n]) ` set ns then Some (File (Bytes [])) else fs_get w1 q)"
    using Cons.IH [OF w1(1)] by blast
  then show ?case using c w1 by (auto simp: fetcher_New_def Let_def fun_eq_iff simp del: join.simps)
qed (simp add: fun_eq_iff)

lemma run_fetchers_calm:
  assumes "calm w" and "distinct ps" and "\<forall>p\<in>set ps. is_file w p" and "length ps = length shares"
  shows "\<exists>w'. run_fetchers fenv (List.zip ps shares) w =
      (map (\<lambda>r. \<lparr>su_URL = er_URL r, su_Error = fetch_error fenv r\<rparr>) (concat shares),
       map (\<lambda>p. \<lparr>br_ZipFilePath = p, br_Error = None\<rparr>) ps, w') \<and> calm w' \<and>
    (\<forall>(p, rs)\<in>set (List.zip ps shares). fs_get w' p = Some (File (Zip (concat (map (fetch_entries fenv) rs))))) \<and>
    (\<forall>q. q \<notin> set ps \<longrightarrow> fs_get w' q = fs_get w q)"
  using assms(4,1-3)
proof (induction ps shares arbitrary: w rule: list_induct2)
  case (Cons p ps rs shares)
  obtain w1 where r: "fetcher_Run fenv (\<lambda>_. False) p rs w =
      (map (\<lambda>r. \<lparr>su_URL = er_URL r, su_Error = fetch_error fenv r\<rparr>) rs, \<lparr>br_ZipFilePath = p, br_Error = None\<rparr>, w1)"
    and w1: "calm w1" "fs_get w1 = (fs_get w)(p \<mapsto> File (Zip (concat (map (fetch_entries fenv) rs))))"
    using fetcher_run_calm [of w p fenv rs] Cons.prems by auto
  have "\<forall>q\<in>set ps. is_file w1 q" using Cons.prems w1(2) by (auto simp: is_file_def)
  then obtain w2 where "run_fetchers fenv (List.zip ps shares) w1 =
      (map (\<lambda>r. \<lparr>su_URL = er_URL r, su_Error = fetch_error fenv r\<rparr>) (concat shares),
       map (\<lambda>p. \<lparr>br_ZipFilePath = p, br_Error = None\<rparr>) ps, w2)" and w2: "calm w2"
    "\<forall>(p, rs)\<in>set (List.zip ps shares). fs_get w2 p = Some (File (Zip (concat (map (fetch_entries fenv) rs))))"
    "\<forall>q. q \<notin> set ps \<longrightarrow> fs_get w2 q = fs_get w1 q"
    using Cons.IH [OF w1(1)] Cons.prems(2) by auto
  moreover have "fs_get w2 p = Some (File (Zip (concat (map (fetch_entries fenv) rs))))"
    using w2(3) w1(2) Cons.prems(2) by simp
  ultimately show ?case using r w1(2) by auto
qed simp

lemma copy_entries_calm:
  "calm w \<Longrightarrow> \<exists>w'. copy_entries z es w = (None, z @ es, w') \<and> calm w' \<and> fs_get w' = fs_get w"
proof (induction es arbitrary: z w)
  case (Cons e es)
  have "copy_entries z (e # es) w = copy_entries (z @ [e]) es (tick (tick (tick w)))"
    using Cons.prems by (cases e) (simp add: sys_entry_def zip_Create_def zip_CopyEntry_def calm_failing)
  then show ?case using Cons.IH [of "tick (tick (tick w))" "z @ [e]"] Cons.prems by simp
qed simp

lemma appendToZip_calm:
  assumes "calm w" and "fs_get w p = Some (File (Zip es))"
  shows "\<exists>w'. job_appendToZip z p w = (None, z @ es, w') \<and> calm w' \<and> fs_get w' = fs_get w"
  using copy_entries_calm [of "tick w" z es] assms
  by (simp add: job_appendToZip_def zip_OpenReader_def read_file_calm)

lemma merge_fetched_calm:
  assumes "calm (bg_world b)" and "distinct ps" and "length ps = length zs"
    and "\<forall>(p, z)\<in>set (List.zip ps zs). fs_get (bg_world b) p = Some (File (Zip z))"
  shows "\<exists>w'. merge_fetched env ps z b = (z @ concat zs, b\<lparr>bg_world := w'\<rparr>) \<and> calm w' \<and>
    fs_get w' = (\<lambda>q. if q \<in> set ps then None else fs_get (bg_world b) q)"
  using assms(3,1,2,4)
proof (induction ps zs arbitrary: z b rule: list_induct2)
  case Nil
  then show ?case by (intro exI [of _ "bg_world b"]) (simp add: fun_eq_iff)
next
  case (Cons p ps es zs)
  obtain w1 where a: "job_appendToZip z p (bg_world b) = (None, z @ es, w1)" and w1: "calm w1" "fs_get w1 = fs_get (bg_world b)"
    using appendToZip_calm [OF Cons.prems(1), of p es z] Cons.prems(3) by auto
  have r: "sys_remove p w1 = (None, fs_del p (tick w1))"
    using remove_file_calm(1) [OF w1(1)] w1(2) Cons.prems(3) by auto
  let ?b = "b\<lparr>bg_world := fs_del p (tick w1)\<rparr>"
  have c: "calm (bg_world ?b)" using w1(1) by (simp add: calm_def)
  have "\<forall>(q, z)\<in>set (List.zip ps zs). fs_get (bg_world ?b) q = Some (File (Zip z))"
    using Cons.prems(2,3) w1(2) by (auto dest: set_zip_leftD)
  then obtain w' where "merge_fetched env ps (z @ es) ?b = ((z @ es) @ concat zs, ?b\<lparr>bg_world := w'\<rparr>)" "calm w'"
    "fs_get w' = (\<lambda>q. if q \<in> set ps then None else fs_get (bg_world ?b) q)"
    using Cons.IH [OF c] Cons.prems(2) by fastforce
  then show ?case using a r w1(2) by (auto simp: Let_def fun_eq_iff)
qed

lemma flushReport_calm:
  assumes "calm (bg_world b)"
  shows "\<exists>w'. flushReport f r z b = (z @ [(f, Bytes r)], b\<lparr>bg_world := w'\<rparr>) \<and> calm w' \<and> fs_get w' = fs_get (bg_world b)"
  using assms
  by (intro exI [of _ "tick (tick (bg_world b))"]) (simp add: flushReport_def zip_Create_def zip_CopyEntry_def calm_failing)

lemma collectData_calm:
  assumes "calm (bg_world b)" and "dj_Errors (bg_job b) = []" and "bg_errors b = []"
    and "places (bg_world b) ps" and ps: "ps = map (\<lambda>n. join [tempdir, n]) names"
    and "\<And>rs. length (share rs) = length names"
    and reqs: "reqs = shuffle (concat (map (wanted env cfg) nodes))"
    and errs: "errs = concat (map (unwanted env cfg) nodes) @ fetch_errors fenv (concat (share reqs))"
  shows "\<exists>b' err. collectDataFromNodes env cfg (\<lambda>_. False) shuffle (start_fetchers fenv tempdir names share) nodes b = (ps, err, b') \<and>
    (err = None \<longleftrightarrow> errs = []) \<and> calm (bg_world b') \<and> dj_Errors (bg_job b') = errs \<and> (bg_errors b' = [] \<longleftrightarrow> errs = []) \<and>
    (\<forall>(p, rs)\<in>set (List.zip ps (share reqs)). fs_get (bg_world b') p = Some (File (Zip (concat (map (fetch_entries fenv) rs))))) \<and>
    (\<forall>q. q \<notin> set ps \<longrightarrow> fs_get (bg_world b') q = fs_get (bg_world b) q)"
proof -
  let ?us = "map (\<lambda>r. \<lparr>su_URL = er_URL r, su_Error = fetch_error fenv r\<rparr>) (concat (share reqs))"
  obtain b1 where r: "requests_loop env cfg (\<lambda>_. False) nodes 0 [] b = (False, concat (map (wanted env cfg) nodes), b1)"
    and g1: "goes_on (concat (map (unwanted env cfg) nodes)) b b1" using requests_loop_wanted [of env cfg nodes 0 "[]" b] by auto
  have c1: "calm (bg_world b1)" "fs_get (bg_world b1) = fs_get (bg_world b)" using g1 assms(1) by (simp_all add: goes_on_def)
  have "places (bg_world b1) ps" using assms(4) c1(2) by (simp add: places_def is_dir_def)
  then obtain w2 where n: "new_fetchers tempdir names (bg_world b1) = (Inr ps, w2)" and w2: "calm w2"
    "fs_get w2 = (\<lambda>q. if q \<in> set ps then Some (File (Bytes [])) else fs_get (bg_world b1) q)"
    using new_fetchers_calm [OF c1(1), of tempdir names] by (auto simp: ps simp del: join.simps)
  have d: "distinct ps" "\<forall>p\<in>set ps. is_file w2 p" "length ps = length (share reqs)"
    using assms(4,6) w2(2) by (simp_all add: places_def is_file_def ps del: join.simps)
  obtain w3 where f: "run_fetchers fenv (List.zip ps (share reqs)) w2 = (?us, map (\<lambda>p. \<lparr>br_ZipFilePath = p, br_Error = None\<rparr>) ps, w3)"
    and w3: "calm w3" "\<forall>(p, rs)\<in>set (List.zip ps (share reqs)). fs_get w3 p = Some (File (Zip (concat (map (fetch_entries fenv) rs))))"
      "\<forall>q. q \<notin> set ps \<longrightarrow> fs_get w3 q = fs_get w2 q"
    using run_fetchers_calm [OF w2(1) d, of fenv] by blast
  let ?b2 = "b1\<lparr>bg_world := w3\<rparr>" let ?b3 = "waitForStatusUpdates env ?us ?b2"
  have e: "List.map_filter su_Error ?us = fetch_errors fenv (concat (share reqs))"
    by (simp add: fetch_errors_def List.map_filter_def filter_map comp_def)
  have g: "goes_on (fetch_errors fenv (concat (share reqs))) ?b2 ?b3" using updates_go_on [of ?us ?b2 env] e by simp
  have z: "gatherAllResults (map (\<lambda>p. \<lparr>br_ZipFilePath = p, br_Error = None\<rparr>) ps) = (ps, [])"
    by (simp add: gatherAllResults_def comp_def)
  have "collectDataFromNodes env cfg (\<lambda>_. False) shuffle (start_fetchers fenv tempdir names share) nodes b =
      (ps, if length (dj_Errors (bg_job ?b3)) \<noteq> 0
           then Some (msg [''diagnostics job failed: ['', str_join '' '' (dj_Errors (bg_job ?b3)), '']'']) else None, ?b3)"
    using r n f z by (simp add: collectDataFromNodes_def getEndpointsToFetch_def start_fetchers_def reqs [symmetric] Let_def)
  moreover have "dj_Errors (bg_job ?b3) = errs" "bg_errors ?b3 = [] \<longleftrightarrow> errs = []"
    using g1 g assms(2,3) by (auto simp: goes_on_def errs)
  moreover have "calm (bg_world ?b3)" "fs_get (bg_world ?b3) = fs_get w3" using g w3(1) by (simp_all add: goes_on_def)
  ultimately show ?thesis using w3(2,3) w2(2) c1(2) by auto
qed

lemma mset_concat_map: "mset xs = mset ys \<Longrightarrow> mset (concat (map f xs)) = mset (concat (map f ys))"
  by (metis mset_concat mset_map sum_mset_sum_list)

lemma mset_fetch_errors: "mset xs = mset ys \<Longrightarrow> mset (fetch_errors fenv xs) = mset (fetch_errors fenv ys)"
  by (simp add: fetch_errors_def List.map_filter_def)

lemma concat_shares: "concat (map (\<lambda>rs. concat (map f rs)) rss) = concat (map f (concat rss))"
  by (induction rss) simp_all

text \<open>What is done after the requests: the archive and the job in the end.\<close>

lemma fill_bundle_calm:
  assumes "calm w" and "dj_Errors j = []" and "places w ps" and ps: "ps = map (\<lambda>n. join [tempdir, n]) names"
    and "\<And>rs. length (share rs) = length names"
    and reqs: "reqs = shuffle (concat (map (wanted env (dj_Cfg j)) nodes))"
    and errs: "errs = concat (map (unwanted env (dj_Cfg j)) nodes) @ fetch_errors fenv (concat (share reqs))"
  shows "\<exists>b rep err. fill_bundle env (\<lambda>_. False) shuffle (start_fetchers fenv tempdir names share) nodes j w =
      (concat (map (fetch_entries fenv) (concat (share reqs))) @ [(''summaryReport.txt'', Bytes rep)] @
       (if errs = [] then [] else [(''summaryErrorsReport.txt'', Bytes err)]), b) \<and>
    calm (bg_world b) \<and> dj_Errors (bg_job b) = errs \<and>
    dj_Status (bg_job b) = (if errs = [] then ''Diagnostics job successfully collected all data'' else ''Diagnostics job failed'') \<and>
    fs_get (bg_world b) = (\<lambda>q. if q \<in> set ps then None else fs_get w q)"
proof -
  let ?b0 = "\<lparr>bg_job = j, bg_report = [], bg_errors = [], bg_world = w\<rparr>"
  let ?zs = "map (\<lambda>rs. concat (map (fetch_entries fenv) rs)) (share reqs)"
  obtain b1 err where co: "collectDataFromNodes env (dj_Cfg j) (\<lambda>_. False) shuffle (start_fetchers fenv tempdir names share) nodes ?b0 =
      (ps, err, b1)" and b1: "err = None \<longleftrightarrow> errs = []" "calm (bg_world b1)" "dj_Errors (bg_job b1) = errs" "bg_errors b1 = [] \<longleftrightarrow> errs = []"
      "\<forall>(p, rs)\<in>set (List.zip ps (share reqs)). fs_get (bg_world b1) p = Some (File (Zip (concat (map (fetch_entries fenv) rs))))"
      "\<forall>q. q \<notin> set ps \<longrightarrow> fs_get (bg_world b1) q = fs_get w q"
    using collectData_calm [of ?b0 ps tempdir names share reqs shuffle env "dj_Cfg j" nodes errs fenv] assms by auto
  let ?st = "case err of Some e \<Rightarrow> ''Diagnostics job failed'' | None \<Rightarrow> ''Diagnostics job successfully collected all data''"
  let ?b2 = "b1\<lparr>bg_job := setStatus ?st (bg_job b1)\<rparr>"
  have l: "distinct ps" "length ps = length ?zs" using assms(3,5) by (simp_all add: places_def ps del: join.simps)
  have "\<forall>(p, z)\<in>set (List.zip ps ?zs). fs_get (bg_world ?b2) p = Some (File (Zip z))"
    using b1(5) by (auto simp: zip_map2)
  then obtain w3 where m: "merge_fetched env ps [] ?b2 = (concat ?zs, ?b2\<lparr>bg_world := w3\<rparr>)" and w3: "calm w3"
    "\<forall>q. fs_get w3 q = (if q \<in> set ps then None else fs_get (bg_world b1) q)"
    using merge_fetched_calm [of ?b2 ps ?zs env "[]"] l b1(2) by auto
  let ?b3 = "?b2\<lparr>bg_world := w3\<rparr>" let ?z = "concat ?zs @ [(''summaryReport.txt'', Bytes (bg_report b1))]"
  obtain w4 where f: "flushReport ''summaryReport.txt'' (bg_report ?b3) (concat ?zs) ?b3 = (?z, ?b3\<lparr>bg_world := w4\<rparr>)"
    and w4: "calm w4" "fs_get w4 = fs_get w3" using flushReport_calm [of ?b3 "''summaryReport.txt''" "bg_report ?b3" "concat ?zs"] w3(1) by auto
  let ?b4 = "?b3\<lparr>bg_world := w4\<rparr>"
  obtain w5 where h: "flushReport ''summaryErrorsReport.txt'' (bg_errors b1) ?z ?b4 =
      (?z @ [(''summaryErrorsReport.txt'', Bytes (bg_errors b1))], ?b4\<lparr>bg_world := w5\<rparr>)"
    and w5: "calm w5" "fs_get w5 = fs_get w4" using flushReport_calm [of ?b4 "''summaryErrorsReport.txt''" "bg_errors b1" ?z] w4(1) by auto
  let ?b = "if errs = [] then ?b4 else ?b4\<lparr>bg_world := w5\<rparr>"
  have "fill_bundle env (\<lambda>_. False) shuffle (start_fetchers fenv tempdir names share) nodes j w =
      (?z @ (if errs = [] then [] else [(''summaryErrorsReport.txt'', Bytes (bg_errors b1))]), ?b)"
    using co m f h b1(4) by (simp add: fill_bundle_def Let_def)
  moreover have "fs_get (bg_world ?b) = (\<lambda>q. if q \<in> set ps then None else fs_get w q)"
    using w3(2) w4(2) w5(2) b1(6) by (auto simp: fun_eq_iff)
  moreover have "calm (bg_world ?b)" "dj_Errors (bg_job ?b) = errs"
    "dj_Status (bg_job ?b) = (if errs = [] then ''Diagnostics job successfully collected all data'' else ''Diagnostics job failed'')"
    using b1(1,3) w4(1) w5(1) by (auto simp: setStatus_def)
  ultimately show ?thesis by (auto simp: concat_shares)
qed

section \<open>Properties\<close>

definition started_job :: DiagnosticsJob where
  "started_job = sample_job\<lparr>dj_Running := True, dj_Errors := [], dj_LastBundlePath := ''/b/bundle-1.zip''\<rparr>"

definition sample_fetch_env :: fetch_env where
  "sample_fetch_env =
     \<lparr>ft_request = (\<lambda>_. None), ft_do = (\<lambda>_. Inr \<lparr>h_status = 200, h_headers = [], h_body = (''ok'', None)\<rparr>), ft_gunzip = Inr\<rparr>"

text \<open>
  C11. The legacy bundle is complete. Let a job with at least one node run to its end without I/O faults and without
  cancellation, with any number of fetchers that share the requests in any way and in any order. Then the
  archive holds, exactly once each, the bodies of all answered requests to the endpoints that the nodes have
  named, followed by the summary and, if and only if there was an error, the summary of the errors; the temporary files of
  the fetchers are gone, the job is not running, its errors are exactly those of the nodes that gave no
  endpoints and of the failed requests, and its status tells success from failure by them.
\<close>

theorem job_bundle_complete:
  assumes "calm w" and "nodes \<noteq> []" and "dj_Errors j = []"
    and "fs_get w (dj_LastBundlePath j) \<noteq> Some Dir" and "is_dir w (parent (dj_LastBundlePath j))"
    and ps: "ps = map (\<lambda>n. join [FlagDiagnosticsBundleDir (dj_Cfg j), n]) names"
    and "places w ps" and "dj_LastBundlePath j \<notin> set ps"
    and "\<And>rs. mset (shuffle rs) = mset rs"
    and "\<And>rs. length (share rs) = length names" and "\<And>rs. mset (concat (share rs)) = mset rs"
    and run: "runBackgroundJob env (\<lambda>_. False) shuffle
      (start_fetchers fenv (FlagDiagnosticsBundleDir (dj_Cfg j)) names share) nodes j w = (j', w')"
    and reqs: "reqs = concat (map (wanted env (dj_Cfg j)) nodes)"
  shows "\<exists>z rep err. fs_get w' (dj_LastBundlePath j) =
      Some (File (Zip (z @ [(''summaryReport.txt'', Bytes rep)] @
        (if dj_Errors j' = [] then [] else [(''summaryErrorsReport.txt'', Bytes err)])))) \<and>
    mset z = mset (concat (map (fetch_entries fenv) reqs)) \<and>
    (\<forall>p\<in>set ps. fs_get w' p = None) \<and> \<not> dj_Running j' \<and>
    mset (dj_Errors j') = mset (concat (map (unwanted env (dj_Cfg j)) nodes)) + mset (fetch_errors fenv reqs) \<and>
    dj_Status j' = (if dj_Errors j' = [] then ''Diagnostics job successfully collected all data'' else ''Diagnostics job failed'')"
proof -
  let ?p = "dj_LastBundlePath j" let ?d = "FlagDiagnosticsBundleDir (dj_Cfg j)"
  let ?rs = "concat (share (shuffle reqs))"
  let ?errs = "concat (map (unwanted env (dj_Cfg j)) nodes) @ fetch_errors fenv ?rs"
  obtain w1 where c: "sys_create ?p w = (None, w1)" and w1: "calm w1" "fs_get w1 = (fs_get w)(?p \<mapsto> File (Bytes []))"
    using create_calm [OF assms(1,4,5)] by blast
  have "places w1 ps" using assms(7,8) w1(2) is_dir_upd [OF w1(2) assms(4)] by (auto simp: places_def)
  then obtain b rep err where f: "fill_bundle env (\<lambda>_. False) shuffle (start_fetchers fenv ?d names share) nodes j w1 =
      (concat (map (fetch_entries fenv) ?rs) @ [(''summaryReport.txt'', Bytes rep)] @
       (if ?errs = [] then [] else [(''summaryErrorsReport.txt'', Bytes err)]), b)" (is "_ = (?z, b)")
    and b: "calm (bg_world b)" "dj_Errors (bg_job b) = ?errs"
      "dj_Status (bg_job b) = (if ?errs = [] then ''Diagnostics job successfully collected all data'' else ''Diagnostics job failed'')"
      "fs_get (bg_world b) = (\<lambda>q. if q \<in> set ps then None else fs_get w1 q)"
    using fill_bundle_calm [OF w1(1) assms(3) _ ps, where share = share and shuffle = shuffle and env = env and fenv = fenv and
        nodes = nodes and reqs = "shuffle reqs" and errs = ?errs] assms(10) reqs by blast
  have "is_file (bg_world b) ?p" using b(4) w1(2) assms(8) by (simp add: is_file_def)
  then obtain w2 where cl: "close_all ?p [] ?z (bg_world b) = ([], w2)"
    and w2: "fs_get w2 = (fs_get (bg_world b))(?p \<mapsto> File (Zip ?z))" "calm w2"
    using b(1) by (simp add: close_all_def calm_failing flush_zip_def calm_def failing_def fun_eq_iff)
  have r: "j' = (bg_job b)\<lparr>dj_Running := False, dj_JobEnded := clock w2 (calls w2)\<rparr>" "w' = tick w2"
    using run c f cl assms(2) by (simp_all add: runBackgroundJob_def job_stop_def sys_now_def)
  have m: "mset ?rs = mset reqs" using assms(9,11) by simp
  then have "mset (concat (map (fetch_entries fenv) ?rs)) = mset (concat (map (fetch_entries fenv) reqs))"
    "mset ?errs = mset (concat (map (unwanted env (dj_Cfg j)) nodes)) + mset (fetch_errors fenv reqs)"
    using mset_concat_map mset_fetch_errors [OF m] by (blast, simp)
  moreover have E: "dj_Errors j' = ?errs" and "\<not> dj_Running j'" using r(1) b(2) by simp_all
  moreover have "dj_Status j' = (if ?errs = [] then ''Diagnostics job successfully collected all data'' else ''Diagnostics job failed'')"
    using r(1) b(3) by simp
  moreover have "fs_get w' ?p = Some (File (Zip ?z))" "\<forall>p\<in>set ps. fs_get w' p = None"
    using r(2) w2(1) b(4) assms(8) by auto
  ultimately show ?thesis unfolding E by (intro exI conjI)
qed

theorem job_bundle_complete_witness:
  "\<exists>j' w' z rep. runBackgroundJob sample_job_env (\<lambda>_. False) id
      (start_fetchers sample_fetch_env ''/b'' [''t1''] (\<lambda>rs. [rs])) [plain_Node True MasterRole ''10.0.0.1'']
      started_job (sample_world [(''/b'', Dir)]) = (j', w') \<and>
    fs_get w' ''/b/bundle-1.zip'' = Some (File (Zip (z @ [(''summaryReport.txt'', Bytes rep)]))) \<and>
    mset z = {#(''10.0.0.1_master/health.json'', Bytes ''ok'')#} \<and> fs_get w' ''/b/t1'' = None \<and> \<not> dj_Running j'"
proof -
  let ?n = "plain_Node True MasterRole ''10.0.0.1''" and ?w = "sample_world [(''/b'', Dir)]"
  let ?f = "start_fetchers sample_fetch_env (FlagDiagnosticsBundleDir (dj_Cfg started_job)) [''t1''] (\<lambda>rs. [rs])"
  obtain j' w' where r: "runBackgroundJob sample_job_env (\<lambda>_. False) id ?f [?n] started_job ?w = (j', w')" by fastforce
  have c: "calm ?w" by (simp add: calm_def sample_world_def)
  have e: "dj_Errors started_job = []" "dj_LastBundlePath started_job = ''/b/bundle-1.zip''"
    "FlagDiagnosticsBundleDir (dj_Cfg started_job) = ''/b''" "fs_get ?w ''/b/bundle-1.zip'' \<noteq> Some Dir" "is_dir ?w (parent ''/b/bundle-1.zip'')"
    and p: "[''/b/t1''] = map (\<lambda>n. join [''/b'', n]) [''t1'']" "places ?w [''/b/t1'']" by code_simp+
  have q: "concat (map (wanted sample_job_env (dj_Cfg started_job)) [?n]) = [sample_request\<lparr>er_URL := ''http://10.0.0.1:1050/h'', er_Node := ?n\<rparr>]"
    and u: "concat (map (unwanted sample_job_env (dj_Cfg started_job)) [?n]) = []"
    and x: "fetch_errors sample_fetch_env [sample_request\<lparr>er_URL := ''http://10.0.0.1:1050/h'', er_Node := ?n\<rparr>] = []"
    and y: "concat (map (fetch_entries sample_fetch_env) [sample_request\<lparr>er_URL := ''http://10.0.0.1:1050/h'', er_Node := ?n\<rparr>]) =
      [(''10.0.0.1_master/health.json'', Bytes ''ok'')]" by code_simp+
  have d: "mset (id rs) = mset rs" "length [rs] = length [''t1'']" "mset (concat [rs]) = mset rs" for rs :: "EndpointRequest list"
    by simp_all
  have "\<exists>z rep err. fs_get w' ''/b/bundle-1.zip'' = Some (File (Zip (z @ [(''summaryReport.txt'', Bytes rep)] @
        (if dj_Errors j' = [] then [] else [(''summaryErrorsReport.txt'', Bytes err)])))) \<and>
    mset z = mset [(''10.0.0.1_master/health.json'', Bytes ''ok'')] \<and> (\<forall>p\<in>set [''/b/t1'']. fs_get w' p = None) \<and> \<not> dj_Running j' \<and>
    mset (dj_Errors j') = mset [] + mset [] \<and>
    dj_Status j' = (if dj_Errors j' = [] then ''Diagnostics job successfully collected all data'' else ''Diagnostics job failed'')"
    by (rule job_bundle_complete [where j = started_job, unfolded e, OF c _ _ e(4,5) p(1,2) _ d r [unfolded e] q [symmetric], unfolded u x y]) simp_all
  then obtain z rep err where z: "fs_get w' ''/b/bundle-1.zip'' = Some (File (Zip (z @ [(''summaryReport.txt'', Bytes rep)] @
        (if dj_Errors j' = [] then [] else [(''summaryErrorsReport.txt'', Bytes err)]))))"
    "mset z = mset [(''10.0.0.1_master/health.json'', Bytes ''ok'')]" "fs_get w' ''/b/t1'' = None" "\<not> dj_Running j'" "dj_Errors j' = []"
    by auto
  have "fs_get w' ''/b/bundle-1.zip'' = Some (File (Zip (z @ [(''summaryReport.txt'', Bytes rep)])))" using z(1,5) by simp
  moreover have "mset z = {#(''10.0.0.1_master/health.json'', Bytes ''ok'')#}" using z(2) by simp
  ultimately show ?thesis using r [unfolded e] z(3,4) by blast
qed

end
