(* ===== verification/Job_Protocol.thy ===== *)
theory Job_Protocol
  imports Diagnostics_Job
begin

text \<open>
  The requests that start the legacy job, over time. \<^verbatim>\<open>run\<close> of \<^verbatim>\<open>api/diagnostics.go\<close> first asks whether a job runs, which takes
  requests to the other masters, and sets the job's fields afterwards, without a lock around the two. The model takes the
  check, the start and the end of a background job as separate steps of one master, in any interleaving.
\<close>

section \<open>The check and the start\<close>

text \<open>The part of \<^verbatim>\<open>run\<close> before the first field of the job is set: a refusal, or the nodes to collect from.\<close>

definition dj_check ::
  "job_env \<Rightarrow> string result \<Rightarrow> Node list result \<Rightarrow> string result \<Rightarrow> Node list result \<Rightarrow> Node list result \<Rightarrow>
     string list \<Rightarrow> DiagnosticsJob \<Rightarrow> world \<Rightarrow> run_result + Node list \<times> world" where
  "dj_check env role statusMasters ip masters agents reqNodes j w =
     (case role of
        Inl e \<Rightarrow> Inl (refuse StatusServiceUnavailable e j w)
      | Inr r \<Rightarrow>
          if r = AgentRole \<or> r = AgentPublicRole then
            Inl (refuse StatusBadRequest ''running diagnostics job on agent node is not implemented'' j w)
          else
            (case isRunning env statusMasters ip j of
               Inl e \<Rightarrow> Inl (refuse StatusServiceUnavailable e j w)
             | Inr (True, node) \<Rightarrow> Inl (refuse StatusConflict ''Job is already running'' j w)
             | Inr (False, node) \<Rightarrow>
                 (case findRequestedNodes reqNodes masters agents of
                    Inl e \<Rightarrow> Inl (refuse StatusServiceUnavailable e j w)
                  | Inr foundNodes \<Rightarrow>
                      (case sys_stat (FlagDiagnosticsBundleDir (dj_Cfg j)) w of
                         (StatNotExist, w1) \<Rightarrow>
                           (case sys_mkdir_all (FlagDiagnosticsBundleDir (dj_Cfg j)) w1 of
                              (Some e, w2) \<Rightarrow>
                                (let e1 = msg [''could not create directory: '', FlagDiagnosticsBundleDir (dj_Cfg j)]
                                 in Inl (refuse StatusServiceUnavailable e1 (setStatus e1 j) w2))
                            | (None, w2) \<Rightarrow> Inr (foundNodes, w2))
                       | (st, w1) \<Rightarrow> Inr (foundNodes, w1)))))"

text \<open>A request that nothing disturbs is the check followed by the start.\<close>

lemma dj_run_split:
  "dj_run env role sm ip ms as req j w =
     (case dj_check env role sm ip ms as req j w of Inl r \<Rightarrow> r | Inr (nodes, w') \<Rightarrow> start_job env nodes j w')"
  by (auto simp: dj_run_def dj_check_def Let_def split: sum.splits prod.splits bool.splits stat_result.splits option.splits)

lemma dj_check_idle: "dj_check env role sm ip ms as req j w = Inr r \<Longrightarrow> \<not> dj_Running j"
  by (auto simp: dj_check_def isRunning_def split: sum.splits if_splits)

lemma dj_check_refused: "dj_check env role sm ip ms as req j w = Inl (r, j', w', sp) \<Longrightarrow> dj_Running j' = dj_Running j \<and> sp = None"
  by (auto simp: dj_check_def refuse_def setStatus_def Let_def
      split: sum.splits if_splits prod.splits bool.splits stat_result.splits option.splits)

lemma start_job_running: "start_job env nodes j w = (r, j', w', sp) \<Longrightarrow> dj_Running j' \<and> sp = Some nodes"
  by (auto simp: start_job_def sys_now_def Let_def)

section \<open>Steps\<close>

text \<open>
  \<open>jn_admitted\<close> are the requests that have passed the check and not yet set the fields, \<open>jn_active\<close> the background jobs that
  run. A background job reports its status and its errors through the fields that all jobs share.
\<close>

record job_node =
  jn_job :: DiagnosticsJob
  jn_world :: world
  jn_admitted :: "Node list list"
  jn_active :: "Node list list"

inductive job_step :: "job_env \<Rightarrow> job_node \<Rightarrow> job_node \<Rightarrow> bool" for env :: job_env where
  admit: "dj_check env role sm ip ms as req (jn_job s) (jn_world s) = Inr (nodes, w') \<Longrightarrow>
    job_step env s (s\<lparr>jn_world := w', jn_admitted := nodes # jn_admitted s\<rparr>)"
| refused: "dj_check env role sm ip ms as req (jn_job s) (jn_world s) = Inl (r, j', w', sp) \<Longrightarrow>
    job_step env s (s\<lparr>jn_job := j', jn_world := w'\<rparr>)"
| start: "jn_admitted s = us @ nodes # vs \<Longrightarrow> start_job env nodes (jn_job s) (jn_world s) = (r, j', w', Some found) \<Longrightarrow>
    job_step env s (s\<lparr>jn_job := j', jn_world := w', jn_admitted := us @ vs, jn_active := found # jn_active s\<rparr>)"
| work: "jn_active s \<noteq> [] \<Longrightarrow> job_step env s (s\<lparr>jn_job := fold appendError es (setStatus st (jn_job s)), jn_world := w'\<rparr>)"
| finish: "jn_active s = us @ nodes # vs \<Longrightarrow> job_stop (jn_job s) (jn_world s) = (j', w') \<Longrightarrow>
    job_step env s (s\<lparr>jn_job := j', jn_world := w', jn_active := us @ vs\<rparr>)"
| cancelled: "job_step env s (s\<lparr>jn_job := (jn_job s)\<lparr>dj_cancelled := True\<rparr>\<rparr>)"

inductive_cases job_step_cases: "job_step env s t"

definition job_idle :: "DiagnosticsJob \<Rightarrow> world \<Rightarrow> job_node" where
  "job_idle j w = \<lparr>jn_job = j, jn_world = w, jn_admitted = [], jn_active = []\<rparr>"

text \<open>The steps of a master that gets its requests one after the other: none is checked while another is between its check and
  its start.\<close>

definition serial_step :: "job_env \<Rightarrow> job_node \<Rightarrow> job_node \<Rightarrow> bool" where
  "serial_step env s t = (job_step env s t \<and> length (jn_admitted t) \<le> 1)"

definition job_inv :: "job_node \<Rightarrow> bool" where
  "job_inv s = (length (jn_admitted s) + length (jn_active s) \<le> 1 \<and> (dj_Running (jn_job s) \<longleftrightarrow> jn_active s \<noteq> []))"

lemma fold_appendError_running [simp]: "dj_Running (fold appendError es j) = dj_Running j"
  by (induction es arbitrary: j) (simp_all add: appendError_def)

lemma job_inv_step:
  assumes "serial_step env s t" and "job_inv s"
  shows "job_inv t"
proof -
  have "job_step env s t" and one: "length (jn_admitted t) \<le> 1" using assms(1) by (simp_all add: serial_step_def)
  then show ?thesis
  proof cases
    case (admit role sm ip ms as req nodes w')
    then show ?thesis using assms(2) one dj_check_idle [OF admit(2)] by (auto simp: job_inv_def)
  next
    case (refused role sm ip ms as req r j' w' sp)
    then show ?thesis using assms(2) dj_check_refused [OF refused(2)] by (auto simp: job_inv_def)
  next
    case (start us nodes vs r j' w' found)
    then show ?thesis using assms(2) start_job_running [OF start(3)] by (auto simp: job_inv_def)
  next
    case (work es st w')
    then show ?thesis using assms(2) by (auto simp: job_inv_def setStatus_def)
  next
    case (finish us nodes vs j' w')
    then show ?thesis using assms(2) by (auto simp: job_inv_def job_stop_def sys_now_def)
  next
    case cancelled
    then show ?thesis using assms(2) by (auto simp: job_inv_def)
  qed
qed

interpretation serial_jobs: invariant_system "serial_step env" job_inv for env
  by unfold_locales (rule job_inv_step)

section \<open>Properties\<close>

text \<open>
  C13. One legacy job at a time, if the requests come one at a time. As long as no request is checked while another is between its
  check and its start, whatever else happens at most one background job runs on a master, its field \<^verbatim>\<open>Running\<close> says so,
  and a request is admitted only while none runs.
\<close>

theorem serial_jobs_exclusive:
  assumes "(serial_step env)\<^sup>*\<^sup>* (job_idle j w) s" and "\<not> dj_Running j"
  shows "length (jn_active s) \<le> 1 \<and> (dj_Running (jn_job s) \<longleftrightarrow> jn_active s \<noteq> []) \<and> (jn_admitted s \<noteq> [] \<longrightarrow> jn_active s = [])"
proof -
  have "job_inv (job_idle j w)" using assms(2) by (simp add: job_inv_def job_idle_def)
  from serial_jobs.steps_inv [OF assms(1) this] show ?thesis by (cases "jn_admitted s") (auto simp: job_inv_def)
qed

text \<open>A request for all nodes that an idle master admits.\<close>

lemma sample_admitted:
  assumes "w = sample_world [(''/b'', Dir)] \<or> w = tick (sample_world [(''/b'', Dir)])"
  shows "dj_check sample_job_env (Inr ''master'') (Inr [plain_Node True MasterRole ''10.0.0.1'']) (Inr ''10.0.0.1'')
      (Inr [plain_Node True MasterRole ''10.0.0.1'']) (Inr []) [''all''] sample_job w = Inr ([plain_Node True MasterRole ''10.0.0.1''], tick w)"
proof -
  have r: "isRunning sample_job_env (Inr [plain_Node True MasterRole ''10.0.0.1'']) (Inr ''10.0.0.1'') sample_job = Inr (False, [])"
    and f: "findRequestedNodes [''all''] (Inr [plain_Node True MasterRole ''10.0.0.1'']) (Inr []) = Inr [plain_Node True MasterRole ''10.0.0.1'']"
    and d: "FlagDiagnosticsBundleDir (dj_Cfg sample_job) = ''/b''" by code_simp+
  have "sys_stat ''/b'' w = (StatOk Dir, tick w)"
    using assms by (auto simp: sys_stat_def failing_def sample_world_def fs_get_def tick_def)
  then show ?thesis using r f d by (simp add: dj_check_def AgentRole_def AgentPublicRole_def)
qed

theorem serial_jobs_exclusive_witness:
  "\<exists>s. (serial_step sample_job_env)\<^sup>*\<^sup>* (job_idle sample_job (sample_world [(''/b'', Dir)])) s \<and> length (jn_active s) = 1 \<and> dj_Running (jn_job s)"
proof -
  let ?w = "sample_world [(''/b'', Dir)]" and ?n = "[plain_Node True MasterRole ''10.0.0.1'']"
  let ?s0 = "job_idle sample_job ?w"
  let ?s1 = "?s0\<lparr>jn_world := tick ?w, jn_admitted := [?n]\<rparr>"
  have 1: "serial_step sample_job_env ?s0 ?s1"
    using job_step.admit [of sample_job_env _ _ _ _ _ _ ?s0 ?n "tick ?w"] sample_admitted [of ?w] by (simp add: serial_step_def job_idle_def)
  obtain r j' w' where st: "start_job sample_job_env ?n sample_job (tick ?w) = (r, j', w', Some ?n)"
    using start_job_running by (metis prod_cases4)
  let ?s2 = "?s1\<lparr>jn_job := j', jn_world := w', jn_admitted := [], jn_active := [?n]\<rparr>"
  have 2: "serial_step sample_job_env ?s1 ?s2"
    using job_step.start [of ?s1 "[]" ?n "[]" sample_job_env r j' w' ?n] st by (simp add: serial_step_def job_idle_def)
  have p: "(serial_step sample_job_env)\<^sup>*\<^sup>* ?s0 ?s2" using 1 2 by (meson rtranclp.rtrancl_into_rtrancl rtranclp.rtrancl_refl)
  have "\<not> dj_Running sample_job" by (simp add: sample_job_def)
  from serial_jobs_exclusive [OF p this] p show ?thesis by (intro exI [of _ ?s2]) simp
qed

text \<open>
  Two requests at the same time start two jobs. If two requests pass the check before either sets the fields, which nothing
  prevents, two background jobs run on the one master and share its fields; and when the first of them ends, the master
  says that no job runs although the second one does.
\<close>

theorem concurrent_runs_overlap:
  assumes "dj_check env role sm ip ms as req j w = Inr (n1, w1)" and "dj_check env role' sm' ip' ms' as' req' j w1 = Inr (n2, w2)"
  shows "\<exists>s t. (job_step env)\<^sup>*\<^sup>* (job_idle j w) s \<and> jn_active s = [n2, n1] \<and> dj_Running (jn_job s) \<and>
    job_step env s t \<and> jn_active t = [n2] \<and> \<not> dj_Running (jn_job t)"
proof -
  let ?s0 = "job_idle j w"
  let ?s1 = "?s0\<lparr>jn_world := w1, jn_admitted := [n1]\<rparr>"
  let ?s2 = "?s1\<lparr>jn_world := w2, jn_admitted := [n2, n1]\<rparr>"
  have 1: "job_step env ?s0 ?s1" using job_step.admit [of env role sm ip ms as req ?s0 n1 w1] assms(1) by (simp add: job_idle_def)
  have 2: "job_step env ?s1 ?s2" using job_step.admit [of env role' sm' ip' ms' as' req' ?s1 n2 w2] assms(2) by (simp add: job_idle_def)
  obtain r3 j3 w3 where st3: "start_job env n1 j w2 = (r3, j3, w3, Some n1)" using start_job_running by (metis prod_cases4)
  let ?s3 = "?s2\<lparr>jn_job := j3, jn_world := w3, jn_admitted := [n2], jn_active := [n1]\<rparr>"
  have 3: "job_step env ?s2 ?s3" using job_step.start [of ?s2 "[n2]" n1 "[]" env r3 j3 w3 n1] st3 by (simp add: job_idle_def)
  obtain r4 j4 w4 where st4: "start_job env n2 j3 w3 = (r4, j4, w4, Some n2)" using start_job_running by (metis prod_cases4)
  let ?s4 = "?s3\<lparr>jn_job := j4, jn_world := w4, jn_admitted := [], jn_active := [n2, n1]\<rparr>"
  have 4: "job_step env ?s3 ?s4" using job_step.start [of ?s3 "[]" n2 "[]" env r4 j4 w4 n2] st4 by (simp add: job_idle_def)
  obtain j5 w5 where st5: "job_stop j4 w4 = (j5, w5)" by fastforce
  let ?s5 = "?s4\<lparr>jn_job := j5, jn_world := w5, jn_active := [n2]\<rparr>"
  have 5: "job_step env ?s4 ?s5" using job_step.finish [of ?s4 "[n2]" n1 "[]" j5 w5] st5 by simp
  have "(job_step env)\<^sup>*\<^sup>* ?s0 ?s4" using 1 2 3 4 by (meson rtranclp.rtrancl_into_rtrancl rtranclp.rtrancl_refl)
  moreover have "dj_Running j4" "\<not> dj_Running j5"
    using start_job_running [OF st4] st5 by (auto simp: job_stop_def sys_now_def)
  ultimately show ?thesis using 5 by (intro exI [of _ ?s4] exI [of _ ?s5]) simp
qed

theorem concurrent_runs_overlap_witness:
  "\<exists>s t. (job_step sample_job_env)\<^sup>*\<^sup>* (job_idle sample_job (sample_world [(''/b'', Dir)])) s \<and> length (jn_active s) = 2 \<and>
     job_step sample_job_env s t \<and> jn_active t \<noteq> [] \<and> \<not> dj_Running (jn_job t)"
proof -
  let ?w = "sample_world [(''/b'', Dir)]"
  have "?w = ?w \<or> ?w = tick ?w" "tick ?w = ?w \<or> tick ?w = tick ?w" by simp_all
  from concurrent_runs_overlap [OF sample_admitted [OF this(1)] sample_admitted [OF this(2)]] obtain s t where
    "(job_step sample_job_env)\<^sup>*\<^sup>* (job_idle sample_job ?w) s" "length (jn_active s) = 2" "job_step sample_job_env s t"
    "jn_active t \<noteq> []" "\<not> dj_Running (jn_job t)" by auto
  then show ?thesis by blast
qed

end
