(* ===== verification/Pull_Limiter.thy ===== *)
theory Pull_Limiter
  imports Pull Transitions
begin

text \<open>
  The goroutines of one pull, \<^verbatim>\<open>runPull\<close> and \<^verbatim>\<open>pullHostStatus\<close> of \<^verbatim>\<open>api/pull.go\<close>: one per node, each of which takes a token from the
  channel \<^verbatim>\<open>rateLimiter\<close>, asks its node, puts the answer on \<^verbatim>\<open>respChan\<close> and gives the token back. The wait group lets \<^verbatim>\<open>runPull\<close> go
  on when all of them have ended.
\<close>

section \<open>Steps\<close>

text \<open>
  \<open>ph_tokens\<close> are the elements of \<^verbatim>\<open>rateLimiter\<close>, \<open>ph_waiting\<close> the nodes whose goroutine has no token yet, \<open>ph_active\<close> those that are being
  asked, and \<open>ph_returning\<close> counts the goroutines that still have to give their token back. Both channels have a capacity.
\<close>

record pull_hosts =
  ph_tokens :: nat
  ph_waiting :: "Node list"
  ph_active :: "Node list"
  ph_returning :: nat
  ph_responses :: "httpResponse list"

definition pull_start :: "nat \<Rightarrow> Node list \<Rightarrow> pull_hosts" where
  "pull_start n hosts = \<lparr>ph_tokens = n, ph_waiting = hosts, ph_active = [], ph_returning = 0, ph_responses = []\<rparr>"

inductive host_step :: "nat \<Rightarrow> nat \<Rightarrow> (Node \<Rightarrow> httpResponse) \<Rightarrow> pull_hosts \<Rightarrow> pull_hosts \<Rightarrow> bool" for n m ask where
  acquire: "ph_tokens s = Suc k \<Longrightarrow> ph_waiting s = us @ h # vs \<Longrightarrow>
    host_step n m ask s (s\<lparr>ph_tokens := k, ph_waiting := us @ vs, ph_active := h # ph_active s\<rparr>)"
| answer: "ph_active s = us @ h # vs \<Longrightarrow> length (ph_responses s) < m \<Longrightarrow>
    host_step n m ask s (s\<lparr>ph_active := us @ vs, ph_responses := ph_responses s @ [ask h], ph_returning := Suc (ph_returning s)\<rparr>)"
| release: "ph_returning s = Suc k \<Longrightarrow> ph_tokens s < n \<Longrightarrow>
    host_step n m ask s (s\<lparr>ph_returning := k, ph_tokens := Suc (ph_tokens s)\<rparr>)"

inductive_cases host_step_cases: "host_step n m ask s t"

definition pull_joined :: "pull_hosts \<Rightarrow> bool" where
  "pull_joined s = (ph_waiting s = [] \<and> ph_active s = [] \<and> ph_returning s = 0)"

section \<open>Tokens and answers\<close>

definition host_inv :: "nat \<Rightarrow> (Node \<Rightarrow> httpResponse) \<Rightarrow> Node list \<Rightarrow> pull_hosts \<Rightarrow> bool" where
  "host_inv n ask hosts s =
     (ph_tokens s + length (ph_active s) + ph_returning s = n \<and>
      mset (map ask (ph_waiting s)) + mset (map ask (ph_active s)) + mset (ph_responses s) = mset (map ask hosts))"

lemma host_inv_size: "host_inv n ask hosts s \<Longrightarrow> length (ph_waiting s) + length (ph_active s) + length (ph_responses s) = length hosts"
  by (drule conjunct2 [OF host_inv_def [THEN iffD1]], drule arg_cong [where f = size]) simp

definition host_weight :: "pull_hosts \<Rightarrow> nat" where
  "host_weight s = 3 * length (ph_waiting s) + 2 * length (ph_active s) + ph_returning s"

definition pull_answered :: "(Node \<Rightarrow> httpResponse) \<Rightarrow> Node list \<Rightarrow> pull_hosts \<Rightarrow> bool" where
  "pull_answered ask hosts s = (pull_joined s \<and> mset (ph_responses s) = mset (map ask hosts))"

lemma host_inv_step: "host_step n m ask s t \<Longrightarrow> host_inv n ask hosts s \<Longrightarrow> host_inv n ask hosts t"
  by (induction rule: host_step.induct) (auto simp: host_inv_def ac_simps)

lemma host_step_weight: "host_step n m ask s t \<Longrightarrow> host_weight t < host_weight s"
  by (induction rule: host_step.induct) (auto simp: host_weight_def)

lemma host_rest:
  assumes "host_inv n ask hosts s" and "0 < n" and stuck: "\<nexists>t. host_step n (length hosts) ask s t"
  shows "pull_answered ask hosts s"
proof -
  have tok: "ph_tokens s + length (ph_active s) + ph_returning s = n" using assms(1) by (simp add: host_inv_def)
  have a: "ph_active s = []"
  proof (cases "ph_active s")
    case (Cons h hs)
    then have "length (ph_responses s) < length hosts" using host_inv_size [OF assms(1)] by simp
    then show ?thesis using stuck host_step.answer [of s "[]" h hs] Cons by (metis append_Nil)
  qed
  have r: "ph_returning s = 0"
  proof (cases "ph_returning s")
    case (Suc k)
    then show ?thesis using stuck host_step.release [of s k n] tok by auto
  qed
  have w: "ph_waiting s = []"
  proof (cases "ph_waiting s")
    case (Cons h hs)
    obtain k where "ph_tokens s = Suc k" using tok a r assms(2) by (cases "ph_tokens s") auto
    then show ?thesis using stuck host_step.acquire [of s k "[]" h hs] Cons by (metis append_Nil)
  qed
  show ?thesis using assms(1) a r w by (simp add: pull_answered_def pull_joined_def host_inv_def)
qed

interpretation pulling_hosts: settling_system "host_step n (length hosts) ask" "\<lambda>s. host_inv n ask hosts s \<and> 0 < n" host_weight
  "pull_answered ask hosts" for n hosts ask
  by unfold_locales (auto intro: host_inv_step host_step_weight host_rest)

section \<open>Properties\<close>



text \<open>
  Where a pull fails: with an interval of zero it panics, and with a limit of zero, which a negative timeout can give, no goroutine
  ever gets a token, so that the puller blocks for ever.
\<close>

theorem pull_blocks:
  assumes "hosts = or_zero [] masters @ or_zero [] agents" and "hosts \<noteq> []"
  shows "(FlagPullInterval cfg = 0 \<longrightarrow> runPull cfg masters agents ask order now mr = PullPanic) \<and>
    (pull_limit cfg (length hosts) = Some 0 \<longrightarrow> runPull cfg masters agents ask order now mr = PullBlocked \<and>
       (\<nexists>t. host_step 0 (length hosts) ask (pull_start 0 hosts) t) \<and> \<not> pull_joined (pull_start 0 hosts))"
  using assms by (auto simp: runPull_def pull_limit_def Let_def pull_start_def pull_joined_def elim!: host_step_cases)

theorem pull_blocks_witness:
  "\<forall>ask order now mr. runPull (sample_cfg\<lparr>FlagPullTimeoutSec := -60\<rparr>) (Inr [sample_host]) (Inr []) ask order now mr = PullBlocked"
proof -
  have 1: "[sample_host] = or_zero [] (Inr [sample_host]) @ or_zero [] (Inr [])" by (simp add: or_zero_def)
  have "pull_limit (sample_cfg\<lparr>FlagPullTimeoutSec := -60\<rparr>) (length [sample_host]) = Some 0" by code_simp
  then show ?thesis using pull_blocks [OF 1] by blast
qed

end
