(* ===== verification/Client_Node.thy ===== *)
theory Client_Node
  imports Rest_Client
begin

text \<open>
  The client of \<^verbatim>\<open>api/rest/client.go\<close> in front of the handlers of \<^verbatim>\<open>api/rest/bundle_handler.go\<close>, over a transport that
  delivers: what the commands of a coordinator do to a node and what it learns from their results.
\<close>

section \<open>Calls\<close>

text \<open>The error that the client makes of a status code.\<close>

definition error_fits :: "string \<Rightarrow> int \<Rightarrow> client_error option \<Rightarrow> bool" where
  "error_fits i c e =
     (if c = 200 then e = None
      else if c = 404 then e = Some (DiagnosticsBundleNotFoundError i)
      else if c = 500 then e = Some (DiagnosticsBundleUnreadableError i)
      else \<exists>m. e = Some (OtherError m))"

lemma handleErrorCode_fits: "error_fits i (rcode resp) (handleErrorCode rd resp url i)"
  by (simp add: error_fits_def handleErrorCode_def)

text \<open>A call that reaches the handler of a request returns what the handler answers.\<close>

lemma node_call:
  assumes "node_route base meth url = Some q" and "serve_node h q w = (o', w', sp)" and "outcome_code o' = Some c"
  obtains resp where "o' = Respond resp" and "rcode resp = c"
    and "client_call (node_http h base rd) meth url i w =
      (case handleErrorCode rd resp url i of Some e \<Rightarrow> (Inl e, w') | None \<Rightarrow> (Inr resp, w'))"
proof (cases o')
  case (Respond resp)
  then show thesis using assms by (intro that [of resp]) (simp_all add: client_call_def node_http_def node_do_def)
next
  case (Panic e)
  then show thesis using assms(3) by simp
qed

text \<open>Deleting: the result is that of the specification, and so is the bundle afterwards.\<close>

lemma client_Delete_spec:
  assumes "calm w" and "valid_id i" and "regular h w i" and "own_id h w i"
    and "s = spec_serve (clock w (calls w + 2)) (presented w) (DeleteBundle i) (slot_of h w i)"
    and "client_Delete (node_http h base rd) base i w = (e, w')"
  shows "error_fits i (fst s) e \<and> slot_of h w' i = snd s"
proof -
  obtain o' w1 sp where sv: "serve_node h (DeleteBundle i) w = (o', w1, sp)" by (metis prod_cases3)
  note spec = serve_node_spec [OF assms(1-4) _ sv assms(5)]
  obtain resp where r: "rcode resp = fst s" and c: "client_call (node_http h base rd) DELETE (remoteURL base i) i w =
      (case handleErrorCode rd resp (remoteURL base i) i of Some e \<Rightarrow> (Inl e, w1) | None \<Rightarrow> (Inr resp, w1))"
    using node_call [OF node_route_bundle(3) [OF assms(2)] sv] spec by (metis request_id.simps(2))
  then show ?thesis
    using assms(6) spec handleErrorCode_fits [of i resp rd "remoteURL base i"]
    by (auto simp: client_Delete_def split: option.splits)
qed

text \<open>Creating: the client gets the bundle precisely if the node has started it.\<close>

lemma client_Create_started:
  assumes "client_CreateBundle (node_http h base rd) base i w = (Inr b, w')" and "valid_id i"
  obtains r where "bh_Create h i w = (r, w', Some b)"
proof -
  obtain o' w1 sp where cr: "bh_Create h i w = (o', w1, sp)" by (metis prod_cases3)
  note rt = node_route_bundle(2) [OF assms(2), of base]
  have code: "outcome_code o' = Some 200"
    using assms(1) cr
    by (cases o') (auto simp: client_CreateBundle_def client_call_def node_http_def node_do_def rt decode_to_def handleErrorCode_def
        split: option.splits if_splits)
  then obtain b' where sp: "sp = Some b'" "o' = respond 200 (JsonBundle (marshal_bundle b'))"
    using bh_Create_spawns [OF cr assms(2)] by auto
  then have "b' = b" "w1 = w'"
    using assms(1) cr
    by (simp_all add: client_CreateBundle_def client_call_def node_http_def node_do_def rt decode_to_def handleErrorCode_def
        respond_def unmarshal_zero)
  then show thesis using that cr sp(1) by simp
qed

lemma client_Create_spec:
  assumes "calm w" and "valid_id i" and "regular h w i" and "own_id h w i"
    and "s = spec_serve (clock w (calls w + 2)) (presented w) (PutBundle i) (slot_of h w i)"
    and "client_CreateBundle (node_http h base rd) base i w = (r, w')"
  shows "slot_of h w' i = snd s \<and>
    (case r of Inr b \<Rightarrow> fst s = 200 \<and> snd s = Stored b (Some (File (Bytes []))) | Inl e \<Rightarrow> fst s = 409 \<and> (\<exists>m. e = OtherError m))"
proof -
  obtain o' w1 sp where cr: "bh_Create h i w = (o', w1, sp)" by (metis prod_cases3)
  then have sv: "serve_node h (PutBundle i) w = (o', w1, sp)" by simp
  note spec = serve_node_spec [OF assms(1-4) _ sv assms(5), simplified]
  have code: "fst s = 200 \<or> fst s = 409" using assms(5) by (cases "slot_of h w i") simp_all
  obtain resp where o: "o' = Respond resp" and rc: "rcode resp = fst s"
    and c: "client_call (node_http h base rd) PUT (remoteURL base i) i w =
      (case handleErrorCode rd resp (remoteURL base i) i of Some e \<Rightarrow> (Inl e, w1) | None \<Rightarrow> (Inr resp, w1))"
    using node_call [OF node_route_bundle(2) [OF assms(2)] sv] spec by metis
  show ?thesis
  proof (cases "fst s = 200")
    case True
    then obtain b where b: "sp = Some b" "slot_of h w1 i = Stored b (Some (File (Bytes [])))"
      "o' = respond 200 (JsonBundle (marshal_bundle b))" using bh_Create_spawns [OF cr assms(2)] spec by auto
    then have "client_CreateBundle (node_http h base rd) base i w = (Inr b, w1)"
      using c o by (auto simp: client_CreateBundle_def decode_to_def handleErrorCode_def respond_def unmarshal_zero)
    then show ?thesis using assms(6) spec b True by auto
  next
    case False
    then have "\<exists>m. handleErrorCode rd resp (remoteURL base i) i = Some (OtherError m)"
      using code rc by (simp add: handleErrorCode_def)
    then show ?thesis using c assms(6) spec False code by (auto simp: client_CreateBundle_def decode_to_def)
  qed
qed

section \<open>Properties\<close>





end
