(* ===== verification/Cluster_Run.thy ===== *)
theory Cluster_Run
  imports Cluster_Handler Client_Node
begin

text \<open>
  A cluster bundle from end to end: the coordinator of \<^verbatim>\<open>api/rest/coordinator.go\<close> and the waiting goroutine of
  \<^verbatim>\<open>api/rest/cluster_bundle_handler.go\<close>, over the client of \<^verbatim>\<open>api/rest/client.go\<close>, against a cluster of node handlers of
  \<^verbatim>\<open>api/rest/bundle_handler.go\<close>. The transport brings a request to the node its URL names; every node has its own files,
  and the coordinator's files are a world of their own.
\<close>

section \<open>A cluster of nodes\<close>

text \<open>The part of a URL that names a host: the scheme, the empty string between two slashes, and the authority.\<close>

definition host_of :: "string \<Rightarrow> string" where
  "host_of url = str_join [slash] (take 3 (split_on slash url))"

definition host_url :: "string \<Rightarrow> bool" where
  "host_url b = (length (split_on slash b) = 3)"

definition cluster_do ::
  "(string \<Rightarrow> BundleHandler) \<Rightarrow> http_method \<Rightarrow> string \<Rightarrow> (string \<Rightarrow> world) \<Rightarrow> response result \<times> (string \<Rightarrow> world)" where
  "cluster_do hs meth url s =
     (let b = host_of url in case node_do (hs b) b meth url (s b) of (r, w) \<Rightarrow> (r, s(b := w)))"

definition cluster_http :: "(string \<Rightarrow> BundleHandler) \<Rightarrow> (body \<Rightarrow> string) \<Rightarrow> (string \<Rightarrow> world) http" where
  "cluster_http hs rd = \<lparr>ht_new = (\<lambda>_. None), ht_do = cluster_do hs, ht_read = rd\<rparr>"

lemma host_of_append: "host_url b \<Longrightarrow> host_of (b @ slash # rest) = b"
  by (simp add: host_of_def host_url_def split_on_append str_join_split_on)

lemma host_of_remote [simp]:
  assumes "host_url b"
  shows "host_of (remoteURL b i) = b" and "host_of (remoteURL b i @ ''/file'') = b"
proof -
  have 1: "remoteURL b i = b @ slash # tl bundlesEndpoint @ ''/'' @ i"
    and 2: "remoteURL b i @ ''/file'' = b @ slash # tl bundlesEndpoint @ ''/'' @ i @ ''/file''"
    by (simp_all add: remoteURL_def bundlesEndpoint_def)
  show "host_of (remoteURL b i) = b" unfolding 1 by (rule host_of_append [OF assms])
  show "host_of (remoteURL b i @ ''/file'') = b" unfolding 2 by (rule host_of_append [OF assms])
qed

text \<open>A call to one node of the cluster is a call to that node; the other nodes do not notice.\<close>

lemma cluster_call:
  "host_of url = b \<Longrightarrow> client_call (cluster_http hs rd) meth url i s =
     (case client_call (node_http (hs b) b rd) meth url i (s b) of (r, w) \<Rightarrow> (r, s(b := w)))"
  by (auto simp: client_call_def cluster_http_def node_http_def cluster_do_def Let_def split: prod.splits sum.splits option.splits)

lemma cluster_GetFile:
  assumes "host_url b"
  shows "client_GetFile (cluster_http hs rd) b i p s lw =
    (case client_GetFile (node_http (hs b) b rd) b i p (s b) lw of (e, w, lw') \<Rightarrow> (e, s(b := w), lw'))"
proof -
  have "ht_read (cluster_http hs rd) = ht_read (node_http (hs b) b rd)" by (simp add: cluster_http_def node_http_def)
  then show ?thesis
    unfolding client_GetFile_def cluster_call [OF host_of_remote(2) [OF assms]]
    by (auto split: prod.splits sum.splits option.splits)
qed

lemma cluster_Delete:
  assumes "host_url b"
  shows "client_Delete (cluster_http hs rd) b i s =
    (case client_Delete (node_http (hs b) b rd) b i (s b) of (e, w) \<Rightarrow> (e, s(b := w)))"
  unfolding client_Delete_def cluster_call [OF host_of_remote(1) [OF assms]] by (auto split: prod.splits sum.splits)

section \<open>A client whose nodes are ready\<close>

text \<open>
  What the receiving loop needs of a client to get every archive: where a node holds an archive the download gives it, and
  downloading takes no archive away.
\<close>

locale ready_client = bundle_client get_file
  for get_file :: "string \<Rightarrow> string \<Rightarrow> string \<Rightarrow> 's \<Rightarrow> world \<Rightarrow> client_error option \<times> 's \<times> world" +
  fixes holds :: "string \<Rightarrow> string \<Rightarrow> (string \<times> blob) list \<Rightarrow> 's \<Rightarrow> bool"
  assumes get_file_delivers:
    "holds b i es s \<Longrightarrow> calm w \<Longrightarrow> fs_get w p \<noteq> Some Dir \<Longrightarrow> is_dir w (parent p) \<Longrightarrow>
       \<exists>s' w'. get_file b i p s w = (None, s', w') \<and> fs_get w' p = Some (File (Zip es)) \<and>
         (\<forall>b' i' es'. holds b' i' es' s \<longrightarrow> holds b' i' es' s')"

definition download_path :: "string \<Rightarrow> node \<Rightarrow> string" where
  "download_path workDir n = join [workDir, nodeBundleFilename n]"

definition mark_done :: "report_doc \<Rightarrow> node \<Rightarrow> report_doc" where
  "mark_done r n = r\<lparr>rep_nodes := AList.update (n_IP n) \<lparr>nr_status = Done, nr_err = []\<rparr> (rep_nodes r)\<rparr>"

lemma marked_done:
  "rep_id (foldl mark_done r ns) = rep_id r"
  "map_of (rep_nodes (foldl mark_done r ns)) ip =
     (if ip \<in> n_IP ` set ns then Some \<lparr>nr_status = Done, nr_err = []\<rparr> else map_of (rep_nodes r) ip)"
  by (induction ns arbitrary: r) (auto simp: mark_done_def update_conv')

text \<open>A place that can be written stays so while other places are written.\<close>

definition writable :: "world \<Rightarrow> string \<Rightarrow> bool" where
  "writable w p = (fs_get w p \<noteq> Some Dir \<and> is_dir w (parent p))"

lemma writable_frame:
  assumes "same_except P w w'" and "writable w q" and "\<forall>p\<in>P. writable w p" and "q \<notin> P"
  shows "writable w' q"
  using assms by (auto simp: writable_def is_dir_def same_except_def)

definition node_ready :: "('s \<Rightarrow> string \<Rightarrow> string \<Rightarrow> (string \<times> blob) list \<Rightarrow> bool) \<Rightarrow> (node \<Rightarrow> (string \<times> blob) list) \<Rightarrow> string \<Rightarrow> 's \<Rightarrow> world \<Rightarrow>
    BundleStatus \<Rightarrow> bool" where
  "node_ready has arch workDir s w st =
     (s_err st = None \<and> has s (n_baseURL (s_node st)) (s_id st) (arch (s_node st)) \<and> writable w (download_path workDir (s_node st)))"

context ready_client
begin

lemma on_status_ready:
  assumes "s_done st" and "node_ready (\<lambda>s b i es. holds b i es s) arch workDir s w st" and "calm w"
  obtains c1 s1 w1 where "on_status get_file workDir st c s w = (c1, s1, w1)" and "c_finished c1 = Suc (c_finished c)"
    and "c_paths c1 = c_paths c @ [download_path workDir (s_node st)]" and "c_report c1 = mark_done (c_report c) (s_node st)"
    and "same_except {download_path workDir (s_node st)} w w1"
    and "fs_get w1 (download_path workDir (s_node st)) = Some (File (Zip (arch (s_node st))))"
    and "\<And>b i es. holds b i es s \<Longrightarrow> holds b i es s1"
proof -
  let ?p = "join [workDir, nodeBundleFilename (s_node st)]"
  have r: "s_err st = None" "holds (n_baseURL (s_node st)) (s_id st) (arch (s_node st)) s" "fs_get w ?p \<noteq> Some Dir" "is_dir w (parent ?p)"
    using assms(2) by (simp_all add: node_ready_def writable_def download_path_def del: join.simps)
  obtain s1 w1 where g: "get_file (n_baseURL (s_node st)) (s_id st) ?p s w = (None, s1, w1)"
    and f: "fs_get w1 ?p = Some (File (Zip (arch (s_node st))))" "\<forall>b i es. holds b i es s \<longrightarrow> holds b i es s1"
    using get_file_delivers [OF r(2) assms(3) r(3,4)] by blast
  obtain c1 where o: "on_status get_file workDir st c s w = (c1, s1, w1)" "c_finished c1 = Suc (c_finished c)"
      "c_paths c1 = c_paths c @ [?p]" "c_report c1 = mark_done (c_report c) (s_node st)"
    using assms(1) r(1) g by (simp add: on_status_def set_report_def mark_done_def Let_def del: join.simps)
  show thesis
    by (rule that [OF o(1,2)]) (use o f get_file_frame [OF g] in \<open>simp_all add: download_path_def del: join.simps\<close>)
qed

lemma receive_all:
  assumes "n = c_finished c + length (filter s_done sts)"
    and "\<forall>st\<in>set (filter s_done sts). node_ready (\<lambda>s b i es. holds b i es s) arch workDir s w st"
    and "distinct (map (\<lambda>st. download_path workDir (s_node st)) (filter s_done sts))" and "calm w"
  shows "\<exists>c' s' w'. receive_loop get_file workDir n sts c s w = Some (c', s', w') \<and>
    c_paths c' = c_paths c @ map (\<lambda>st. download_path workDir (s_node st)) (filter s_done sts) \<and>
    c_report c' = foldl mark_done (c_report c) (map s_node (filter s_done sts)) \<and>
    same_except ((\<lambda>st. download_path workDir (s_node st)) ` set (filter s_done sts)) w w' \<and>
    (\<forall>st\<in>set (filter s_done sts). fs_get w' (download_path workDir (s_node st)) = Some (File (Zip (arch (s_node st))))) \<and>
    (\<forall>b i es. holds b i es s \<longrightarrow> holds b i es s')"
  using assms
proof (induction sts arbitrary: c s w)
  case Nil
  then show ?case by (subst receive_loop.simps) simp
next
  case (Cons st sts)
  consider (none) "filter s_done (st # sts) = []" | (skip) "\<not> s_done st" "c_finished c < n" | (take) "s_done st"
    using Cons.prems(1) by fastforce
  then show ?case
  proof cases
    case none
    then show ?thesis using Cons.prems(1) by (subst receive_loop.simps) simp
  next
    case skip
    then have f: "filter s_done (st # sts) = filter s_done sts"
      and l: "receive_loop get_file workDir n (st # sts) c s w = receive_loop get_file workDir n sts c s w"
      by (simp, subst receive_loop.simps) (simp add: on_status_def)
    show ?thesis using Cons.IH Cons.prems unfolding f l by blast
  next
    case take
    let ?P = "\<lambda>st. download_path workDir (s_node st)"
    have ready: "node_ready (\<lambda>s b i es. holds b i es s) arch workDir s w st" using Cons.prems(2) take by simp
    obtain c1 s1 w1 where o: "on_status get_file workDir st c s w = (c1, s1, w1)" and fin: "c_finished c1 = Suc (c_finished c)"
      and pth: "c_paths c1 = c_paths c @ [?P st]" and rep: "c_report c1 = mark_done (c_report c) (s_node st)"
      and fr: "same_except {?P st} w w1" and got: "fs_get w1 (?P st) = Some (File (Zip (arch (s_node st))))"
      and keep: "\<And>b i es. holds b i es s \<Longrightarrow> holds b i es s1"
      by (rule on_status_ready [OF take ready Cons.prems(4), of c]) simp_all
    have d: "?P st \<notin> ?P ` set (filter s_done sts)" "distinct (map ?P (filter s_done sts))" using Cons.prems(3) take by auto
    have "\<forall>st'\<in>set (filter s_done sts). node_ready (\<lambda>s b i es. holds b i es s) arch workDir s1 w1 st'"
    proof
      fix st'
      assume m: "st' \<in> set (filter s_done sts)"
      have "?P st' \<noteq> ?P st" using d(1) m by (metis imageI)
      then have "writable w1 (?P st')"
        using Cons.prems(2) take m by (intro writable_frame [OF fr]) (auto simp: node_ready_def)
      then show "node_ready (\<lambda>s b i es. holds b i es s) arch workDir s1 w1 st'"
        using Cons.prems(2) m keep by (auto simp: node_ready_def)
    qed
    from Cons.IH [OF _ this d(2), of c1] Cons.prems(1) take fin calm_same [OF fr] Cons.prems(4)
    obtain c' s' w' where l: "receive_loop get_file workDir n sts c1 s1 w1 = Some (c', s', w')"
      and p': "c_paths c' = c_paths c1 @ map ?P (filter s_done sts)"
      and r': "c_report c' = foldl mark_done (c_report c1) (map s_node (filter s_done sts))"
      and f': "same_except (?P ` set (filter s_done sts)) w1 w'"
      and g': "\<forall>st\<in>set (filter s_done sts). fs_get w' (?P st) = Some (File (Zip (arch (s_node st))))"
      and k': "\<forall>b i es. holds b i es s1 \<longrightarrow> holds b i es s'"
      by auto
    have "receive_loop get_file workDir n (st # sts) c s w = Some (c', s', w')"
      using l o Cons.prems(1) take by (subst receive_loop.simps) simp
    moreover have "fs_get w' (?P st) = Some (File (Zip (arch (s_node st))))"
      using same_except_get [OF f' d(1)] got by simp
    ultimately show ?thesis
      using p' r' g' k' keep pth rep take same_except_trans [OF fr f'] by auto
  qed
qed

end

text \<open>A node of the cluster holds an archive: its bundle is stored as \<^const>\<open>Done\<close> with the archive as data file.\<close>

definition cluster_holds :: "(string \<Rightarrow> BundleHandler) \<Rightarrow> string \<Rightarrow> string \<Rightarrow> (string \<times> blob) list \<Rightarrow> (string \<Rightarrow> world) \<Rightarrow> bool" where
  "cluster_holds hs b i es s =
     (host_url b \<and> valid_id i \<and> calm (s b) \<and> regular (hs b) (s b) i \<and>
      (case slot_of (hs b) (s b) i of Stored x (Some (File c)) \<Rightarrow> bID x = i \<and> bStatus x = Done \<and> c = Zip es | _ \<Rightarrow> False))"

lemma cluster_holds_slot:
  assumes "cluster_holds hs b i es s"
  obtains x where "host_url b" and "calm (s b)" and "valid_id i" and "regular (hs b) (s b) i" and "own_id (hs b) (s b) i"
    and "slot_of (hs b) (s b) i = Stored x (Some (File (Zip es)))" and "bStatus x = Done"
  using assms by (auto simp: cluster_holds_def own_id_def split: slot.splits option.splits inode.splits)

lemma regular_same: "same_except {} w w' \<Longrightarrow> regular h w' i = regular h w i"
  by (simp add: regular_def ready_def is_file_def same_except_def)

lemma cluster_holds_other: "b' \<noteq> b \<Longrightarrow> cluster_holds hs b i es (s(b' := w)) = cluster_holds hs b i es s"
  by (simp add: cluster_holds_def)

lemma cluster_holds_same:
  "cluster_holds hs b i es s \<Longrightarrow> same_except {} (s b') w \<Longrightarrow> cluster_holds hs b i es (s(b' := w))"
  using calm_same [of "{}" "s b'" w] slot_of_same [of "s b'" w "hs b'" i] regular_same [of "s b'" w "hs b'" i]
  by (cases "b = b'") (auto simp: cluster_holds_def)

interpretation cluster_client: ready_client "client_GetFile (cluster_http hs rd)" "cluster_holds hs" for hs rd
proof
  fix b i es s w p
  assume h: "cluster_holds hs b i es s" and w: "calm w" "fs_get w p \<noteq> Some Dir" "is_dir w (parent p)"
  obtain x where x: "host_url b" "calm (s b)" "valid_id i" "slot_of (hs b) (s b) i = Stored x (Some (File (Zip es)))" "bStatus x = Done"
    by (rule cluster_holds_slot [OF h])
  from client_GetFile_delivers [OF x(2-5) w, of b rd] obtain v w' where
    g: "client_GetFile (node_http (hs b) b rd) b i p (s b) w = (None, v, w')" "fs_get w' p = Some (File (Zip es))" "same_except {} (s b) v"
    by blast
  then have "client_GetFile (cluster_http hs rd) b i p s w = (None, s(b := v), w')" using cluster_GetFile [OF x(1)] by simp
  then show "\<exists>s' w'. client_GetFile (cluster_http hs rd) b i p s w = (None, s', w') \<and> fs_get w' p = Some (File (Zip es)) \<and>
      (\<forall>b' i' es'. cluster_holds hs b' i' es' s \<longrightarrow> cluster_holds hs b' i' es' s')"
    using g(2) cluster_holds_same [of hs _ _ _ s b v] g(3) by blast
qed

section \<open>Names of downloads\<close>

text \<open>The text of an IP address, of either version.\<close>

definition ip_text :: "string \<Rightarrow> bool" where
  "ip_text = list_all (\<lambda>c. c \<in> set ''0123456789abcdef.:'')"

definition good_node :: "node \<Rightarrow> bool" where
  "good_node n = (ip_text (n_IP n) \<and> slash \<notin> set (n_Role n))"

lemma ip_text_chars: "ip_text s \<Longrightarrow> slash \<notin> set s \<and> CHR ''_'' \<notin> set s \<and> CHR ''u'' \<notin> set s"
proof -
  assume ip: "ip_text s"
  have m: "c \<notin> set s" if "c \<notin> set ''0123456789abcdef.:''" for c using ip that by (auto simp only: ip_text_def list_all_iff)
  show ?thesis by (intro conjI m) simp_all
qed

lemma node_name_real:
  assumes "good_node n"
  shows "real_comp (nodeBundleFilename n)" and "real_comp (n_IP n @ ''_'' @ n_Role n)"
    and "archive_name (download_path wd n) = n_IP n @ ''_'' @ n_Role n"
proof -
  have ne: "xs @ ''_'' @ ys \<noteq> ''.''" "xs @ ''_'' @ ys \<noteq> ''..''" for xs ys :: string
    by (auto simp: append_eq_Cons_conv)
  have f: "nodeBundleFilename n = (n_IP n @ ''_'' @ n_Role n) @ ''.zip''" by (simp add: nodeBundleFilename_def msg_def)
  show r: "real_comp (nodeBundleFilename n)" "real_comp (n_IP n @ ''_'' @ n_Role n)"
    using assms ip_text_chars [of "n_IP n"] ne [of "n_IP n"] ne [of "n_IP n" "n_Role n @ ''.zip''"] unfolding f
    by (auto simp: real_comp_def good_node_def)
  show "archive_name (download_path wd n) = n_IP n @ ''_'' @ n_Role n"
    using base_name_join [OF r(1), of wd] unfolding archive_name_def download_path_def f
    by (simp only: trim_suffix_append)
qed

lemma download_path_IP:
  assumes "download_path wd n = download_path wd m" and "good_node n" and "good_node m"
  shows "n_IP n = n_IP m"
proof -
  let ?t = "takeWhile (\<lambda>c. c \<noteq> CHR ''_'')"
  have "nodeBundleFilename n = nodeBundleFilename m"
    using join_real_inject [of wd "[nodeBundleFilename n]" "[nodeBundleFilename m]"] assms node_name_real(1)
    by (auto simp: download_path_def simp del: join.simps)
  moreover have "?t (nodeBundleFilename k) = n_IP k" if "good_node k" for k
  proof -
    have "\<forall>c\<in>set (n_IP k). c \<noteq> CHR ''_''" using ip_text_chars that by (auto simp: good_node_def)
    then show ?thesis by (simp add: nodeBundleFilename_def msg_def takeWhile_append2)
  qed
  ultimately show ?thesis using assms(2,3) by metis
qed

lemma merged_name_real: "valid_id i \<Longrightarrow> real_comp (msg [''bundle-'', i, ''.zip''])"
  by (auto simp: real_comp_def msg_def)

lemma download_not_merged:
  assumes "good_node n" and "valid_id i"
  shows "download_path wd n \<noteq> merged_path wd i"
proof
  assume "download_path wd n = merged_path wd i"
  then have e: "n_IP n @ ''_'' @ n_Role n @ ''.zip'' = ''bundle-'' @ i @ ''.zip''"
    using join_real_inject [of wd "[nodeBundleFilename n]" "[msg [''bundle-'', i, ''.zip'']]"] node_name_real(1) [OF assms(1)] merged_name_real [OF assms(2)]
    by (simp add: download_path_def merged_path_def nodeBundleFilename_def msg_def del: join.simps)
  have u: "CHR ''u'' \<notin> set (n_IP n)" using assms(1) ip_text_chars by (simp add: good_node_def)
  show False
  proof (cases "n_IP n")
    case (Cons a as)
    then show ?thesis using e u by (cases as) simp_all
  qed (use e in simp)
qed

lemma parent_join1: "real_comp c \<Longrightarrow> parent (join [wd, c]) = clean wd"
  using path_comps_join [of "[c]" wd] by (simp add: parent_def clean_def del: join.simps)

section \<open>Cleaning up\<close>

text \<open>The cleanup asks node by node; a node keeps its files while another is asked.\<close>

lemma cleanup_other:
  "\<forall>n\<in>set ns. host_url (n_baseURL n) \<Longrightarrow> b \<notin> n_baseURL ` set ns \<Longrightarrow>
     cleanup (client_Delete (cluster_http hs rd)) (map (\<lambda>n. (n_baseURL n, i)) ns) s b = s b"
  by (induction ns arbitrary: s) (auto simp: cluster_Delete split: prod.splits)

lemma client_Delete_done:
  assumes "cluster_holds hs b i es s" and "client_Delete (node_http (hs b) b rd) b i (s b) = (e, w)"
  shows "e = None \<and> (\<exists>x. slot_of (hs b) w i = Stored x None \<and> bStatus x = Deleted)"
proof -
  obtain x where x: "calm (s b)" "valid_id i" "regular (hs b) (s b) i" "own_id (hs b) (s b) i"
    "slot_of (hs b) (s b) i = Stored x (Some (File (Zip es)))" "bStatus x = Done" by (rule cluster_holds_slot [OF assms(1)])
  show ?thesis using client_Delete_spec [OF x(1-4) refl assms(2)] x(5,6) by (simp add: error_fits_def)
qed

lemma cleanup_deletes:
  assumes "\<forall>n\<in>set ns. cluster_holds hs (n_baseURL n) i (arch n) s" and "distinct (map n_baseURL ns)" and "n \<in> set ns"
  shows "\<exists>x. slot_of (hs (n_baseURL n)) (cleanup (client_Delete (cluster_http hs rd)) (map (\<lambda>n. (n_baseURL n, i)) ns) s (n_baseURL n)) i =
      Stored x None \<and> bStatus x = Deleted"
  using assms
proof (induction ns arbitrary: s)
  case (Cons m ms)
  let ?b = "n_baseURL m"
  have hu: "\<forall>n\<in>set (m # ms). host_url (n_baseURL n)" using Cons.prems(1) by (auto simp: cluster_holds_def)
  obtain e w where d: "client_Delete (node_http (hs ?b) ?b rd) ?b i (s ?b) = (e, w)" by fastforce
  then have c: "client_Delete (cluster_http hs rd) ?b i s = (e, s(?b := w))" using cluster_Delete [of ?b hs rd i s] hu by simp
  show ?case
  proof (cases "n = m")
    case True
    have "?b \<notin> n_baseURL ` set ms" using Cons.prems(2) by simp
    then show ?thesis
      using client_Delete_done [of hs ?b i "arch m" s rd e w] d Cons.prems(1) cleanup_other [of ms ?b hs rd i "s(?b := w)"] hu c True by auto
  next
    case False
    have "?b \<noteq> n_baseURL n" if "n \<in> set ms" for n using Cons.prems(2) that by auto
    then have "\<forall>n\<in>set ms. cluster_holds hs (n_baseURL n) i (arch n) (s(?b := w))"
      using Cons.prems(1) cluster_holds_other by (metis list.set_intros(2))
    then show ?thesis using Cons.IH [of "s(?b := w)"] Cons.prems(2,3) False c by (simp del: fun_upd_apply)
  qed
qed simp

section \<open>The whole bundle\<close>

text \<open>The nodes are ready to be collected: each holds its archive, and the coordinator can write the downloads.\<close>

definition cluster_ready ::
  "(string \<Rightarrow> BundleHandler) \<Rightarrow> (string \<Rightarrow> world) \<Rightarrow> (node \<Rightarrow> (string \<times> blob) list) \<Rightarrow> string \<Rightarrow> node list \<Rightarrow> string \<Rightarrow> world \<Rightarrow> bool" where
  "cluster_ready hs s arch i nodes wd w =
     (distinct (map n_IP nodes) \<and> distinct (map n_baseURL nodes) \<and> is_dir w (clean wd) \<and>
      (\<forall>n\<in>set nodes. good_node n \<and> cluster_holds hs (n_baseURL n) i (arch n) s \<and> plain_names (arch n) \<and>
         fs_get w (download_path wd n) \<noteq> Some Dir))"

lemma download_writable: "good_node n \<Longrightarrow> is_dir w (clean wd) \<Longrightarrow> fs_get w (download_path wd n) \<noteq> Some Dir \<Longrightarrow> writable w (download_path wd n)"
  using parent_join1 [OF node_name_real(1), of n wd] by (simp add: writable_def download_path_def del: join.simps)

lemma downloads_distinct:
  assumes "distinct (map n_IP ns)" and "\<forall>n\<in>set ns. good_node n"
  shows "distinct (map (download_path wd) ns)"
  using assms by (induction ns) (auto dest: download_path_IP)

lemma finished_nodes:
  assumes "coord_reach i nodes k" and "coord_finished nodes k"
  defines "ns \<equiv> map s_node (filter s_done (k_seen k))"
  shows "mset ns = mset nodes" and "length (filter s_done (k_seen k)) = length nodes" and "set ns = set nodes"
    and "map target (filter s_done (k_seen k)) = map (\<lambda>n. (n_baseURL n, i)) ns"
proof -
  show m: "mset ns = mset nodes" using assms(2) by (simp add: coord_finished_def ns_def)
  show "length (filter s_done (k_seen k)) = length nodes" using arg_cong [OF m, of size] unfolding ns_def size_mset length_map .
  show "set ns = set nodes" using m by (rule mset_eq_setD)
  show "map target (filter s_done (k_seen k)) = map (\<lambda>n. (n_baseURL n, i)) ns"
    using coord_reach_ids [OF assms(1)] by (auto simp: ns_def target_def all_statuses_def)
qed

lemma merged_archive_oracle: "enc w' = enc w \<Longrightarrow> merged_archive w' = merged_archive w"
  using summary_from_oracle [of w' w] by (simp add: merged_archive_def fun_eq_iff)

lemma collect_all:
  assumes "coord_reach i nodes k" and "coord_finished nodes k" and "\<forall>st\<in>set (k_seen k). s_done st \<longrightarrow> s_err st = None"
    and "cluster_ready hs s arch i nodes wd w" and "calm w" and "valid_id j" and "fs_get w (merged_path wd j) \<noteq> Some Dir"
  defines "ns \<equiv> map s_node (filter s_done (k_seen k))"
  defines "r \<equiv> foldl mark_done \<lparr>rep_id = j, rep_nodes = []\<rparr> ns"
  shows "\<exists>s' w'. CollectBundle (client_GetFile (cluster_http hs rd)) wd j (length nodes) (k_seen k) s w =
      Some (Inr (merged_path wd j), map (\<lambda>n. (n_baseURL n, i)) ns, s', w') \<and>
    fs_get w' (merged_path wd j) = Some (File (Zip (merged_archive w r (map (\<lambda>n. (download_path wd n, arch n)) ns)))) \<and>
    same_except (insert (merged_path wd j) (download_path wd ` set nodes)) w w' \<and>
    (\<forall>n\<in>set nodes. cluster_holds hs (n_baseURL n) i (arch n) s')"
proof -
  let ?d = "filter s_done (k_seen k)" and ?g = "client_GetFile (cluster_http hs rd)" and ?c = "collect_start j (length nodes)"
  let ?P = "\<lambda>st. download_path wd (s_node st)" and ?m = "merged_path wd j"
  note fin = finished_nodes [OF assms(1,2), folded ns_def] and R = assms(4) [unfolded cluster_ready_def]
  have dn: "distinct (map n_IP ns)" using R fin(1) by (metis distinct_map mset_eq_imp_distinct_iff fin(3))
  have ready: "\<forall>st\<in>set ?d. node_ready (\<lambda>s b i es. cluster_holds hs b i es s) arch wd s w st"
  proof
    fix st
    assume st: "st \<in> set ?d"
    then have n: "s_node st \<in> set nodes" using fin(3) by (auto simp: ns_def)
    moreover have "s_id st = i" "s_err st = None" using coord_reach_ids [OF assms(1)] assms(3) st by (auto simp: all_statuses_def)
    ultimately show "node_ready (\<lambda>s b i es. cluster_holds hs b i es s) arch wd s w st"
      using R download_writable by (auto simp: node_ready_def)
  qed
  have gn: "\<forall>n\<in>set ns. good_node n" using R fin(3) by blast
  have "distinct (map ?P ?d)" using downloads_distinct [OF dn gn, of wd] by (simp add: ns_def comp_def)
  from cluster_client.receive_all [OF _ ready this assms(5), of "length nodes" ?c rd] fin(2) obtain c s1 w1 where
    l: "receive_loop ?g wd (length nodes) (k_seen k) ?c s w = Some (c, s1, w1)"
    and p: "c_paths c = map (download_path wd) ns" and rep: "c_report c = r"
    and fr: "same_except (download_path wd ` set nodes) w w1"
    and got: "\<forall>n\<in>set ns. fs_get w1 (download_path wd n) = Some (File (Zip (arch n)))"
    and keep: "\<forall>b i es. cluster_holds hs b i es s \<longrightarrow> cluster_holds hs b i es s1"
    by (auto simp: collect_start_def ns_def r_def comp_def image_comp simp flip: fin(3))
  let ?as = "map (\<lambda>n. (download_path wd n, arch n)) ns"
  have len: "length ns = length nodes" using fin(2) by (simp add: ns_def)
  have id: "rep_id r = j" by (simp add: r_def marked_done)
  have nm: "?m \<notin> download_path wd ` set nodes" using R download_not_merged [OF _ assms(6)] by (metis imageE)
  have "writable w1 ?m"
    using R assms(7) nm parent_join1 [OF merged_name_real [OF assms(6)], of wd] download_writable
    by (intro writable_frame [OF fr]) (auto simp: writable_def merged_path_def simp del: join.simps)
  moreover have "\<forall>(p, es)\<in>set ?as. fs_get w1 p = Some (File (Zip es)) \<and> real_comp (archive_name p) \<and> plain_names es \<and> p \<noteq> ?m"
    using got R gn fin(3) download_not_merged [OF _ assms(6), of _ wd] node_name_real(2,3) by auto
  moreover have "calm w1" using calm_same [OF fr] assms(5) by simp
  ultimately obtain w2 where mz: "mergeZips r (map fst ?as) wd w1 = (Inr ?m, w2)"
      "fs_get w2 ?m = Some (File (Zip (merged_archive w1 r ?as)))" "same_except {?m} w1 w2"
    using mergeZips_calm [of w1 ?as wd r] id by (auto simp: writable_def)
  have "merged_archive w1 r ?as = merged_archive w r ?as" using fr merged_archive_oracle [of w1 w] by (simp add: same_except_def)
  moreover have "CollectBundle ?g wd j (length nodes) (k_seen k) s w = Some (Inr ?m, map (\<lambda>n. (n_baseURL n, i)) ns, s1, w2)"
    using l mz(1) p rep receive_loop_delete [OF l] fin(2,4) len by (simp add: CollectBundle_def collect_start_def comp_def)
  ultimately show ?thesis using mz(2,3) same_except_trans [OF fr mz(3)] keep R by auto
qed

text \<open>Downloads and the merged file lie beside the bundles, not in them.\<close>

lemma bundle_beside:
  assumes "same_except P w w'" and "\<forall>p\<in>P. fs_get w p \<noteq> Some Dir \<and> (\<exists>f. real_comp f \<and> p = join [bh_workDir h, f])"
    and "slot_of h w j = Stored b d" and "valid_id j"
  shows "slot_of h w' j = Stored b d"
proof -
  have in2: "join [bh_workDir h, j, f] \<notin> P" if "real_comp f" for f
    using assms(2,4) that join_real_inject [of "bh_workDir h" "[j, f]" "[_]"] by (fastforce simp del: join.simps)
  have "bundle_dir (bh_workDir h) j \<notin> P" using slot_Stored_Dir [OF assms(3)] assms(2) by metis
  moreover have "state_path (bh_workDir h) j \<notin> P" "data_path (bh_workDir h) j \<notin> P"
    using in2 [of stateFileName] in2 [of dataFileName]
    by (simp_all add: state_path_def data_path_def stateFileName_def dataFileName_def real_comp_def del: join.simps)
  ultimately have "slot_of h w' j = slot_of h w j" using assms(1) by (intro slot_of_cong) (simp_all add: same_except_def)
  then show ?thesis using assms(3) by simp
qed

text \<open>A run with one node: the bundle is created, and the first check finds it finished.\<close>

definition one_node_seen :: "string \<Rightarrow> node \<Rightarrow> BundleStatus list" where
  "one_node_seen i n = [\<lparr>s_id = i, s_node = n, s_done = False, s_err = None\<rparr>, \<lparr>s_id = i, s_node = n, s_done = True, s_err = None\<rparr>]"

lemma one_node_started:
  "coord_reach i [n] ((coord_init [])\<lparr>k_jobs := [WaitJob n], k_seen := take 1 (one_node_seen i n)\<rparr>)"
proof -
  let ?ws = "replicate 9 Idle" and ?st = "hd (one_node_seen i n)" and ?step = "coord_step (length [n]) i"
  let ?c0 = "coord_init [n]"
  let ?c1 = "?c0\<lparr>k_pending := [], k_jobs := [CreateJob n]\<rparr>"
  let ?c2 = "?c1\<lparr>k_jobs := [], k_workers := [] @ Running (CreateJob n) # ?ws\<rparr>"
  let ?c3 = "?c2\<lparr>k_workers := [] @ Enqueuing (WaitJob n) ?st # ?ws\<rparr>"
  let ?c4 = "?c3\<lparr>k_jobs := [WaitJob n], k_workers := [] @ Sending ?st # ?ws\<rparr>"
  let ?c5 = "?c4\<lparr>k_statuses := [?st], k_workers := [] @ Idle # ?ws\<rparr>"
  let ?c6 = "?c5\<lparr>k_statuses := [], k_seen := [?st]\<rparr>"
  have 1: "?step ?c0 ?c1" using coord_step.submit [of ?c0 n "[]" "length [n]" i] by (simp add: coord_init_def)
  have 2: "?step ?c1 ?c2" using coord_step.take [of ?c1 "CreateJob n" "[]" "[]" ?ws] sample_workers [of "[n]"] by simp
  have 3: "?step ?c2 ?c3"
    using coord_step.run [of ?c2 "[]" "CreateJob n" ?ws "Inr done_bundle" i ?st "Enqueue (WaitJob n)"]
    by (simp add: one_node_seen_def createBundle_def coord_init_def)
  have 4: "?step ?c3 ?c4" using coord_step.enqueue [of ?c3 "[]" "WaitJob n" ?st ?ws "length [n]" i] by (simp add: coord_init_def)
  have 5: "?step ?c4 ?c5" using coord_step.send [of ?c4 "[]" ?st ?ws "length [n]" i] by (simp add: coord_init_def)
  have "?step ?c5 ?c6" using coord_step.receive [of ?c5 ?st "[]" "length [n]" i] by (simp add: coord_init_def)
  moreover have "?c6 = (coord_init [])\<lparr>k_jobs := [WaitJob n], k_seen := take 1 (one_node_seen i n)\<rparr>"
    using sample_workers [of "[]"] by (simp add: coord_init_def one_node_seen_def)
  ultimately have 6: "?step ?c5 ((coord_init [])\<lparr>k_jobs := [WaitJob n], k_seen := take 1 (one_node_seen i n)\<rparr>)" by simp
  show ?thesis
    by (rule coord_reach.step [OF coord_reach.step [OF coord_reach.step [OF coord_reach.step [OF
          coord_reach.step [OF coord_reach.step [OF coord_reach.init 1] 2] 3] 4] 5] 6])
qed

lemma one_node_run: "coord_reach i [n] ((coord_init [])\<lparr>k_seen := one_node_seen i n\<rparr>)"
proof -
  let ?ws = "replicate 9 Idle" and ?st = "last (one_node_seen i n)" and ?step = "coord_step (length [n]) i"
  let ?c0 = "(coord_init [])\<lparr>k_jobs := [WaitJob n], k_seen := take 1 (one_node_seen i n)\<rparr>"
  let ?c1 = "?c0\<lparr>k_jobs := [], k_workers := [] @ Running (WaitJob n) # ?ws\<rparr>"
  let ?c2 = "?c1\<lparr>k_workers := [] @ Sending ?st # ?ws\<rparr>"
  let ?c3 = "?c2\<lparr>k_statuses := [?st], k_workers := [] @ Idle # ?ws\<rparr>"
  let ?c4 = "?c3\<lparr>k_statuses := [], k_seen := one_node_seen i n\<rparr>"
  have 1: "?step ?c0 ?c1" using coord_step.take [of ?c0 "WaitJob n" "[]" "[]" ?ws] sample_workers [of "[]"] by simp
  have 2: "?step ?c1 ?c2"
    using coord_step.run [of ?c1 "[]" "WaitJob n" ?ws "Inr done_bundle" i ?st NoEffect]
    by (simp add: one_node_seen_def waitForDone_def coord_init_def IsFinished_def done_bundle_def)
  have 3: "?step ?c2 ?c3" using coord_step.send [of ?c2 "[]" ?st ?ws "length [n]" i] by (simp add: coord_init_def)
  have "?step ?c3 ?c4" using coord_step.receive [of ?c3 ?st "[]" "length [n]" i] by (simp add: coord_init_def one_node_seen_def)
  moreover have "?c4 = (coord_init [])\<lparr>k_seen := one_node_seen i n\<rparr>"
    using sample_workers [of "[]"] by (simp add: coord_init_def)
  ultimately have 4: "?step ?c3 ((coord_init [])\<lparr>k_seen := one_node_seen i n\<rparr>)" by simp
  show ?thesis
    by (rule coord_reach.step [OF coord_reach.step [OF coord_reach.step [OF coord_reach.step [OF one_node_started 1] 2] 3] 4])
qed

section \<open>Properties\<close>

text \<open>
  C7. A cluster bundle is complete. Let the coordination of a cluster bundle have come to its end without an error from any
  node, let every node hold its archive, and let no call fail. Then \<^verbatim>\<open>CollectBundle\<close> returns the merged file; the waiting
  goroutine leaves the cluster bundle \<^const>\<open>Done\<close>, and its data file is the reference merge: a report that says
  \<^const>\<open>Done\<close> for every node, every node's entries in its own directory, and the nodes' error summaries; and the cleanup
  leaves every node's local bundle \<^const>\<open>Deleted\<close>, without data file.
\<close>

theorem cluster_bundle_complete:
  assumes "coord_reach i nodes k" and "coord_finished nodes k" and "\<forall>st\<in>set (k_seen k). s_done st \<longrightarrow> s_err st = None"
    and "cluster_ready hs s arch i nodes (cb_workDir c) w" and "calm w"
    and "slot_of (cb_handler c) w (bID b) = Stored b0 (Some (File d))" and "valid_id (bID b)"
    and "fs_get w (merged_path (cb_workDir c) (bID b)) \<noteq> Some Dir"
  shows "\<exists>ns r s' w' b'. mset ns = mset nodes \<and>
    CollectBundle (client_GetFile (cluster_http hs rd)) (cb_workDir c) (bID b) (length nodes) (k_seen k) s w =
      Some (Inr (merged_path (cb_workDir c) (bID b)), map (\<lambda>n. (n_baseURL n, i)) ns, s', w') \<and>
    slot_of (cb_handler c) (waitAndCollectRemoteBundle c b (Inr (merged_path (cb_workDir c) (bID b))) w') (bID b) =
      Stored b' (Some (File (Zip (merged_archive w r (map (\<lambda>n. (download_path (cb_workDir c) n, arch n)) ns))))) \<and>
    bStatus b' = Done \<and> rep_id r = bID b \<and>
    (\<forall>n\<in>set nodes. map_of (rep_nodes r) (n_IP n) = Some \<lparr>nr_status = Done, nr_err = []\<rparr>) \<and>
    (\<forall>n\<in>set nodes. \<exists>x. bStatus x = Deleted \<and> slot_of (hs (n_baseURL n))
      (cleanup (client_Delete (cluster_http hs rd)) (map (\<lambda>n. (n_baseURL n, i)) ns) s' (n_baseURL n)) i = Stored x None)"
proof -
  let ?wd = "cb_workDir c" and ?j = "bID b" and ?m = "merged_path (cb_workDir c) (bID b)"
  define ns where "ns = map s_node (filter s_done (k_seen k))"
  define r where "r = foldl mark_done \<lparr>rep_id = ?j, rep_nodes = []\<rparr> ns"
  note fin = finished_nodes [OF assms(1,2), folded ns_def] and R = assms(4) [unfolded cluster_ready_def]
  from collect_all [OF assms(1-5,7,8), of rd, folded ns_def, folded r_def] obtain s' w' where
    cb: "CollectBundle (client_GetFile (cluster_http hs rd)) ?wd ?j (length nodes) (k_seen k) s w =
      Some (Inr ?m, map (\<lambda>n. (n_baseURL n, i)) ns, s', w')"
    and mg: "fs_get w' ?m = Some (File (Zip (merged_archive w r (map (\<lambda>n. (download_path ?wd n, arch n)) ns))))"
    and fr: "same_except (insert ?m (download_path ?wd ` set nodes)) w w'"
    and hd: "\<forall>n\<in>set nodes. cluster_holds hs (n_baseURL n) i (arch n) s'" by blast
  have "slot_of (cb_handler c) w' ?j = Stored b0 (Some (File d))"
  proof (rule bundle_beside [OF fr _ assms(6,7)], unfold cb_handler_def BundleHandler.simps)
    show "\<forall>p\<in>insert ?m (download_path ?wd ` set nodes). fs_get w p \<noteq> Some Dir \<and> (\<exists>f. real_comp f \<and> p = join [?wd, f])"
      using assms(8) R merged_name_real [OF assms(7)] node_name_real(1) unfolding merged_path_def download_path_def by blast
  qed
  then obtain b' where b': "bStatus b' = Done" "slot_of (cb_handler c) (waitAndCollectRemoteBundle c b (Inr ?m) w') ?j =
      Stored b' (Some (File (Zip (merged_archive w r (map (\<lambda>n. (download_path ?wd n, arch n)) ns)))))"
    using cluster_collects [of w' b c b0 d ?m] calm_same [OF fr] assms(5,7) mg by blast
  have "distinct (map n_baseURL ns)" using R fin(1,3) by (metis distinct_map mset_eq_imp_distinct_iff)
  then have "\<forall>n\<in>set nodes. \<exists>x. bStatus x = Deleted \<and> slot_of (hs (n_baseURL n))
      (cleanup (client_Delete (cluster_http hs rd)) (map (\<lambda>n. (n_baseURL n, i)) ns) s' (n_baseURL n)) i = Stored x None"
    using cleanup_deletes [of ns hs i arch s'] hd fin(3) by metis
  moreover have "rep_id r = ?j" "\<forall>n\<in>set nodes. map_of (rep_nodes r) (n_IP n) = Some \<lparr>nr_status = Done, nr_err = []\<rparr>"
    using fin(3) by (auto simp: r_def marked_done)
  ultimately show ?thesis using fin(1) cb b' by blast
qed

text \<open>One node with one file, collected by a master that has just created the cluster bundle \<^verbatim>\<open>c\<close>.\<close>

definition sample_node_files :: "(string \<times> inode) list" where
  "sample_node_files = [(''/w'', Dir), (''/w/a'', Dir), (''/w/a/state.json'', File (StateDoc (marshal_bundle done_bundle))),
     (''/w/a/file.zip'', File (Zip [(''ps.output'', Bytes ''p'')]))]"

definition sample_cluster_bundle :: Bundle where
  "sample_cluster_bundle = zero_bundle\<lparr>bID := ''c'', bType := Cluster, bStatus := Started\<rparr>"

definition sample_master_files :: "(string \<times> inode) list" where
  "sample_master_files = [(''/w'', Dir), (''/w/c'', Dir), (''/w/c/state.json'', File (StateDoc (marshal_bundle sample_cluster_bundle))),
     (''/w/c/file.zip'', File (Bytes []))]"

lemma sample_ready:
  "cluster_ready (\<lambda>_. sample_handler) (\<lambda>_. sample_world sample_node_files) (\<lambda>_. [(''ps.output'', Bytes ''p'')]) ''a'' sample_nodes ''/w''
     (sample_world sample_master_files)"
proof -
  have c: "calm (sample_world fs)" for fs by (simp add: calm_def sample_world_def)
  have g: "host_url (n_baseURL (hd sample_nodes))" "valid_id ''a''" "regular sample_handler (sample_world sample_node_files) ''a''"
    "slot_of sample_handler (sample_world sample_node_files) ''a'' = Stored done_bundle (Some (File (Zip [(''ps.output'', Bytes ''p'')])))"
    "bID done_bundle = ''a''" "bStatus done_bundle = Done" by code_simp+
  have "distinct (map n_IP sample_nodes)" "distinct (map n_baseURL sample_nodes)" "is_dir (sample_world sample_master_files) (clean ''/w'')"
    "good_node (hd sample_nodes)" "plain_names [(''ps.output'', Bytes ''p'')]"
    "fs_get (sample_world sample_master_files) (download_path ''/w'' (hd sample_nodes)) \<noteq> Some Dir" by code_simp+
  then show ?thesis using c g by (simp add: cluster_ready_def cluster_holds_def sample_nodes_def)
qed

theorem cluster_bundle_complete_witness:
  "\<exists>r w' b'. slot_of (cb_handler sample_cluster) w' ''c'' = Stored b' (Some (File (Zip [(''report.json'', ReportDoc r),
       (''10.0.0.1_master/ps.output'', Bytes ''p'')]))) \<and> bStatus b' = Done"
proof -
  let ?n = "hd sample_nodes" and ?b = sample_cluster_bundle and ?w = "sample_world sample_master_files"
  let ?k = "(coord_init [])\<lparr>k_seen := one_node_seen ''a'' ?n\<rparr>"
  have sn: "sample_nodes = [?n]" by (simp add: sample_nodes_def)
  have 1: "coord_reach ''a'' sample_nodes ?k" using one_node_run [of "''a''" ?n] sn by metis
  have 2: "coord_finished sample_nodes ?k" by (subst sn) (simp add: coord_finished_def one_node_seen_def)
  have 3: "\<forall>st\<in>set (k_seen ?k). s_done st \<longrightarrow> s_err st = None" by (simp add: one_node_seen_def)
  have 5: "calm ?w" by (simp add: calm_def sample_world_def)
  have 6: "slot_of (cb_handler sample_cluster) ?w (bID ?b) = Stored ?b (Some (File (Bytes [])))" "valid_id (bID ?b)"
    "fs_get ?w (merged_path (cb_workDir sample_cluster) (bID ?b)) \<noteq> Some Dir" "bID ?b = ''c''" "cb_workDir sample_cluster = ''/w''" by code_simp+
  have m: "merged_archive ?w r [(download_path ''/w'' ?n, [(''ps.output'', Bytes ''p'')])] =
      [(''report.json'', ReportDoc r), (''10.0.0.1_master/ps.output'', Bytes ''p'')]" for r
  proof -
    have "archive_name (download_path ''/w'' ?n) = ''10.0.0.1_master''" by code_simp
    then show ?thesis
      by (simp add: merged_archive_def node_entries_def summary_from_def summaryErrorsReportFileName_def reportFileName_def)
  qed
  note complete = cluster_bundle_complete [OF 1 2 3 sample_ready [folded 6(5)] 5 6(1-3), of "\<lambda>_. []"]
  obtain ns r w' b' where ns: "mset ns = mset sample_nodes" and d: "bStatus b' = Done" and sl: "slot_of (cb_handler sample_cluster) w' (bID ?b) =
      Stored b' (Some (File (Zip (merged_archive ?w r (map (\<lambda>n. (download_path (cb_workDir sample_cluster) n, [(''ps.output'', Bytes ''p'')])) ns)))))"
    using complete by blast
  have "ns = [?n]" using ns sn by (metis mset_single_iff_right mset.simps(1,2))
  then have "slot_of (cb_handler sample_cluster) w' ''c'' = Stored b' (Some (File (Zip [(''report.json'', ReportDoc r),
       (''10.0.0.1_master/ps.output'', Bytes ''p'')])))" using sl m 6(4,5) by simp
  then show ?thesis using d by blast
qed

text \<open>
  C36. Two cluster bundles that are collected at the same time by one master get mixed. The downloads of a node are written to
  a file named after the node alone. If a second collection downloads its archive of a node between the download and the
  merge of a first one, the first bundle, whose report says \<^const>\<open>Done\<close>, is merged from the archive of the second.
\<close>

theorem concurrent_downloads_mix:
  assumes "cluster_holds hs (n_baseURL n) i1 es1 s" and "cluster_holds hs (n_baseURL n) i2 es2 s" and "plain_names es2"
    and "good_node n" and "writable w (download_path wd n)" and "writable w (merged_path wd j1)" and "calm w" and "valid_id j1"
  shows "\<exists>c1 s1 w1 c2 s2 w2 w3.
    on_status (client_GetFile (cluster_http hs rd)) wd \<lparr>s_id = i1, s_node = n, s_done = True, s_err = None\<rparr> (collect_start j1 1) s w = (c1, s1, w1) \<and>
    on_status (client_GetFile (cluster_http hs rd)) wd \<lparr>s_id = i2, s_node = n, s_done = True, s_err = None\<rparr> (collect_start j2 1) s1 w1 = (c2, s2, w2) \<and>
    mergeZips (c_report c1) (c_paths c1) wd w2 = (Inr (merged_path wd j1), w3) \<and>
    map_of (rep_nodes (c_report c1)) (n_IP n) = Some \<lparr>nr_status = Done, nr_err = []\<rparr> \<and>
    fs_get w3 (merged_path wd j1) = Some (File (Zip (merged_archive w (c_report c1) [(download_path wd n, es2)])))"
proof -
  let ?g = "client_GetFile (cluster_http hs rd)" and ?P = "download_path wd n" and ?m = "merged_path wd j1"
  let ?st = "\<lambda>i. \<lparr>s_id = i, s_node = n, s_done = True, s_err = None\<rparr>"
  have r1: "node_ready (\<lambda>s b i es. cluster_holds hs b i es s) (\<lambda>_. es1) wd s w (?st i1)" using assms by (simp add: node_ready_def)
  obtain c1 s1 w1 where o1: "on_status ?g wd (?st i1) (collect_start j1 1) s w = (c1, s1, w1)"
    and c1: "c_paths c1 = [?P]" "c_report c1 = mark_done \<lparr>rep_id = j1, rep_nodes = []\<rparr> n"
    and f1: "same_except {?P} w w1" and g1: "fs_get w1 ?P = Some (File (Zip es1))"
    and k: "\<And>b i es. cluster_holds hs b i es s \<Longrightarrow> cluster_holds hs b i es s1"
    by (rule cluster_client.on_status_ready [OF _ r1 assms(7), where c = "collect_start j1 1" and rd = rd]) (auto simp: collect_start_def)
  have cm: "calm w1" using calm_same [OF f1] assms(7) by simp
  have wr: "writable w1 ?P" using assms(5) f1 g1 by (cases "parent ?P = ?P") (auto simp: writable_def is_dir_def same_except_def)
  then have r2: "node_ready (\<lambda>s b i es. cluster_holds hs b i es s) (\<lambda>_. es2) wd s1 w1 (?st i2)"
    using k [OF assms(2)] by (simp add: node_ready_def)
  obtain c2 s2 w2 where o2: "on_status ?g wd (?st i2) (collect_start j2 1) s1 w1 = (c2, s2, w2)"
    and f2: "same_except {?P} w1 w2" and g2: "fs_get w2 ?P = Some (File (Zip es2))"
    by (rule cluster_client.on_status_ready [OF _ r2 cm, where c = "collect_start j2 1" and rd = rd]) auto
  have fr: "same_except {?P} w w2" using same_except_chain [OF f1 f2] .
  have ne: "?P \<noteq> ?m" using download_not_merged [OF assms(4,8)] .
  have "writable w2 ?m" using writable_frame [OF fr assms(6)] assms(5) ne by simp
  moreover have "\<forall>(p, es)\<in>set [(?P, es2)]. fs_get w2 p = Some (File (Zip es)) \<and> real_comp (archive_name p) \<and> plain_names es \<and> p \<noteq> ?m"
    using g2 ne node_name_real(2,3) [OF assms(4)] assms(3) by simp
  moreover have "calm w2" using calm_same [OF fr] assms(7) by simp
  moreover have "rep_id (c_report c1) = j1" using c1(2) by (simp add: mark_done_def)
  ultimately obtain w3 where "mergeZips (c_report c1) (c_paths c1) wd w2 = (Inr ?m, w3)"
      "fs_get w3 ?m = Some (File (Zip (merged_archive w2 (c_report c1) [(?P, es2)])))"
    using mergeZips_calm [of w2 "[(?P, es2)]" wd "c_report c1"] c1(1) by (auto simp: writable_def)
  moreover have "merged_archive w2 = merged_archive w" using fr by (intro merged_archive_oracle) (simp add: same_except_def)
  moreover have "map_of (rep_nodes (c_report c1)) (n_IP n) = Some \<lparr>nr_status = Done, nr_err = []\<rparr>" using c1(2) by (simp add: mark_done_def)
  ultimately show ?thesis using o1 o2 by metis
qed

text \<open>The node holds two local bundles, \<^verbatim>\<open>a\<close> and \<^verbatim>\<open>b\<close>.\<close>

definition sample_two_bundles :: "(string \<times> inode) list" where
  "sample_two_bundles = sample_node_files @ [(''/w/b'', Dir),
     (''/w/b/state.json'', File (StateDoc (marshal_bundle (done_bundle\<lparr>bID := ''b''\<rparr>)))), (''/w/b/file.zip'', File (Zip [(''x'', Bytes ''q'')]))]"

theorem concurrent_downloads_mix_witness:
  "\<exists>r w3. fs_get w3 ''/w/bundle-c.zip'' = Some (File (Zip [(''report.json'', ReportDoc r), (''10.0.0.1_master/x'', Bytes ''q'')]))"
proof -
  let ?n = "hd sample_nodes" and ?hs = "\<lambda>_ :: string. sample_handler" and ?s = "\<lambda>_ :: string. sample_world sample_two_bundles"
  let ?w = "sample_world sample_master_files" and ?es1 = "[(''ps.output'', Bytes ''p'')]" and ?es2 = "[(''x'', Bytes ''q'')]"
  have c: "calm (sample_world fs)" for fs by (simp add: calm_def sample_world_def)
  have g: "host_url (n_baseURL ?n)" "valid_id ''a''" "valid_id ''b''" "regular sample_handler (sample_world sample_two_bundles) ''a''"
    "regular sample_handler (sample_world sample_two_bundles) ''b''"
    "slot_of sample_handler (sample_world sample_two_bundles) ''a'' = Stored done_bundle (Some (File (Zip ?es1)))"
    "slot_of sample_handler (sample_world sample_two_bundles) ''b'' = Stored (done_bundle\<lparr>bID := ''b''\<rparr>) (Some (File (Zip ?es2)))"
    "bID done_bundle = ''a''" "bStatus done_bundle = Done" by code_simp+
  have h: "cluster_holds ?hs (n_baseURL ?n) ''a'' ?es1 ?s" "cluster_holds ?hs (n_baseURL ?n) ''b'' ?es2 ?s"
    using c g by (simp_all add: cluster_holds_def)
  have q: "plain_names ?es2" "good_node ?n" "writable ?w (download_path ''/w'' ?n)" "writable ?w (merged_path ''/w'' ''c'')"
    "valid_id ''c''" "merged_path ''/w'' ''c'' = ''/w/bundle-c.zip''" by code_simp+
  have "archive_name (download_path ''/w'' ?n) = ''10.0.0.1_master''" by code_simp
  then have m: "merged_archive ?w r [(download_path ''/w'' ?n, ?es2)] = [(''report.json'', ReportDoc r), (''10.0.0.1_master/x'', Bytes ''q'')]" for r
    by (simp add: merged_archive_def node_entries_def summary_from_def summaryErrorsReportFileName_def reportFileName_def)
  from concurrent_downloads_mix [OF h q(1-4) c q(5), of "\<lambda>_. []" "''d''"] show ?thesis unfolding m q(6) by blast
qed

end
