(* ===== verification/Cluster_Proxy.thy ===== *)
theory Cluster_Proxy
  imports Cluster_Run
begin

text \<open>
  The proxied half of the cluster API: \<^verbatim>\<open>List\<close>, \<^verbatim>\<open>Status\<close>, \<^verbatim>\<open>Delete\<close> and \<^verbatim>\<open>Download\<close> of \<^verbatim>\<open>api/rest/cluster_bundle_handler.go\<close> over
  the client of \<^verbatim>\<open>api/rest/client.go\<close> against the node handlers of the masters. What they promise is stated on the slots of the
  masters, in the order in which the masters are asked.
\<close>

section \<open>Specification\<close>

text \<open>
  The search: a master without the bundle is passed over, one whose bundle cannot be read ends the search with 500, and the
  first whose bundle is wanted is chosen; \<open>Inr\<close> gives its position.
\<close>

fun sought :: "(Bundle \<Rightarrow> bool) \<Rightarrow> slot list \<Rightarrow> int + nat" where
  "sought want [] = Inl 404"
| "sought want (Absent # ss) = map_sum id Suc (sought want ss)"
| "sought want (Broken # ss) = Inl 500"
| "sought want (Stored b d # ss) =
     (if \<not> usable b d then Inl 500 else if want b then Inr 0 else map_sum id Suc (sought want ss))"

text \<open>The deletion: every master is asked, until one cannot read its bundle; \<open>vs\<close> is how each master presents a bundle.\<close>

fun deleted :: "bool \<Rightarrow> ((Bundle \<Rightarrow> inode option \<Rightarrow> Bundle) \<times> slot) list \<Rightarrow> int \<times> slot list" where
  "deleted found [] = (if found then 200 else 404, [])"
| "deleted found ((v, sl) # ss) =
     (case spec_serve 0 v (DeleteBundle []) sl of (c, sl') \<Rightarrow>
        if c = 500 then (500, sl' # map snd ss)
        else (case deleted (found \<or> c = 200) ss of (c', ss') \<Rightarrow> (c', sl' # ss')))"

section \<open>The masters\<close>

text \<open>The masters are up: requests reach them, none of their calls fails, and their directories are those of the handlers.\<close>

definition masters_up :: "(string \<Rightarrow> BundleHandler) \<Rightarrow> string \<Rightarrow> node list \<Rightarrow> (string \<Rightarrow> world) \<Rightarrow> bool" where
  "masters_up hs i ns s = (\<forall>n\<in>set ns. host_url (n_baseURL n) \<and> calm (s (n_baseURL n)) \<and>
     regular (hs (n_baseURL n)) (s (n_baseURL n)) i \<and> own_id (hs (n_baseURL n)) (s (n_baseURL n)) i)"

definition slots :: "(string \<Rightarrow> BundleHandler) \<Rightarrow> string \<Rightarrow> node list \<Rightarrow> (string \<Rightarrow> world) \<Rightarrow> slot list" where
  "slots hs i ns s = map (\<lambda>n. slot_of (hs (n_baseURL n)) (s (n_baseURL n)) i) ns"

lemma slots_simps [simp]:
  "slots hs i [] s = []" "slots hs i (n # ns) s = slot_of (hs (n_baseURL n)) (s (n_baseURL n)) i # slots hs i ns s"
  "k < length ns \<Longrightarrow> slots hs i ns s ! k = slot_of (hs (n_baseURL (ns ! k))) (s (n_baseURL (ns ! k))) i"
  by (simp_all add: slots_def)

text \<open>Requests that only read leave every master as it was.\<close>

definition untouched :: "(string \<Rightarrow> world) \<Rightarrow> (string \<Rightarrow> world) \<Rightarrow> bool" where
  "untouched s s' = (\<forall>b. same_except {} (s b) (s' b))"

lemma untouched_refl [simp]: "untouched s s"
  by (simp add: untouched_def)

lemma untouched_trans: "untouched s s1 \<Longrightarrow> untouched s1 s2 \<Longrightarrow> untouched s s2"
  by (auto simp: untouched_def intro: same_except_chain)

lemma untouched_upd: "same_except {} (s b) w \<Longrightarrow> untouched s (s(b := w))"
  by (simp add: untouched_def)

lemma untouched_slots: "untouched s s' \<Longrightarrow> slots hs i ns s' = slots hs i ns s"
  by (simp add: untouched_def slots_def slot_of_same)

lemma same_presented: "same_except P w w' \<Longrightarrow> presented w' = presented w"
proof (intro ext)
  fix b d
  assume "same_except P w w'"
  then have "inode_size w' n = inode_size w n" for n
    using encode_oracle [of w' w] by (cases n) (simp_all add: same_except_def)
  then show "presented w' b d = presented w b d" by (simp add: presented_def split: option.splits)
qed

lemma untouched_presented: "untouched s s' \<Longrightarrow> presented (s' b) = presented (s b)"
  using same_presented by (auto simp: untouched_def)

lemma untouched_up: "untouched s s' \<Longrightarrow> masters_up hs i ns s' = masters_up hs i ns s"
proof -
  assume u: "untouched s s'"
  have "calm (s' b) = calm (s b)" "regular (hs b) (s' b) i = regular (hs b) (s b) i" "own_id (hs b) (s' b) i = own_id (hs b) (s b) i" for b
    using u calm_same [of "{}" "s b" "s' b"] regular_same [of "s b" "s' b"] slot_of_same [of "s b" "s' b" "hs b" i]
    by (auto simp: untouched_def own_id_def)
  then show ?thesis by (simp add: masters_up_def)
qed

lemma masters_up_tl: "masters_up hs i (n # ns) s \<Longrightarrow> masters_up hs i ns s"
  by (simp add: masters_up_def)

section \<open>Asking one master\<close>

lemma cluster_Status:
  assumes "host_url b"
  shows "client_Status (cluster_http hs rd) b i s =
    (case client_Status (node_http (hs b) b rd) b i (s b) of (r, w) \<Rightarrow> (r, s(b := w)))"
  unfolding client_Status_def cluster_call [OF host_of_remote(1) [OF assms]]
  by (auto simp: decode_to_def split: prod.splits sum.splits)

lemma node_Status_frame:
  assumes "client_Status (node_http h base rd) base i w = (r, w')" and "valid_id i"
  shows "same_except {} w w'"
proof -
  obtain o' w1 where g: "bh_Get h i w = (o', w1)" by fastforce
  have rt: "node_route base GET (remoteURL base i) = Some (GetBundle i)" using node_route_bundle(1) [OF assms(2)] .
  have "w' = w1" using assms(1) g
    by (cases o') (auto simp: client_Status_def client_call_def node_http_def node_do_def rt decode_to_def split: option.splits sum.splits)
  then show ?thesis using bh_Get_frame [OF g] by simp
qed

text \<open>What a client learns from a master.\<close>

definition learned :: "(string \<Rightarrow> BundleHandler) \<Rightarrow> string \<Rightarrow> node \<Rightarrow> (string \<Rightarrow> world) \<Rightarrow> client_error + Bundle" where
  "learned hs i n s =
     (case slot_of (hs (n_baseURL n)) (s (n_baseURL n)) i of
        Absent \<Rightarrow> Inl (DiagnosticsBundleNotFoundError i)
      | Broken \<Rightarrow> Inl (DiagnosticsBundleUnreadableError i)
      | Stored b d \<Rightarrow> if usable b d then Inr (presented (s (n_baseURL n)) b d) else Inl (DiagnosticsBundleUnreadableError i))"

lemma master_status:
  assumes "masters_up hs i (n # ns) s" and "valid_id i"
  obtains s' where "untouched s s'" and "client_Status (cluster_http hs rd) (n_baseURL n) i s = (learned hs i n s, s')"
proof -
  let ?b = "n_baseURL n"
  obtain r w where c: "client_Status (node_http (hs ?b) ?b rd) ?b i (s ?b) = (r, w)" by fastforce
  have "r = learned hs i n s" using client_Status_slot [of "s ?b" i "hs ?b" ?b rd] c assms by (simp add: masters_up_def learned_def)
  then show thesis
    using that [of "s(?b := w)"] untouched_upd [of s ?b w] node_Status_frame [OF c assms(2)] cluster_Status [of ?b hs rd i s] c assms(1)
    by (simp add: masters_up_def)
qed

section \<open>Status and Download\<close>

lemma status_sought:
  assumes "masters_up hs i ns s" and "valid_id i"
  shows "\<exists>o' s'. status_masters (cluster_http hs rd) ns i s = (o', s') \<and> untouched s s' \<and>
    (case sought (\<lambda>_. True) (slots hs i ns s) of
       Inl c \<Rightarrow> outcome_code o' = Some c
     | Inr k \<Rightarrow> \<exists>b d. k < length ns \<and> slots hs i ns s ! k = Stored b d \<and>
         o' = respond 200 (JsonBundle (marshal_bundle (presented (s (n_baseURL (ns ! k))) b d))))"
  using assms(1)
proof (induction ns arbitrary: s)
  case (Cons n ns)
  obtain s1 where u: "untouched s s1" and c: "client_Status (cluster_http hs rd) (n_baseURL n) i s = (learned hs i n s, s1)"
    by (rule master_status [OF Cons.prems assms(2)])
  show ?case
  proof (cases "slot_of (hs (n_baseURL n)) (s (n_baseURL n)) i")
    case Absent
    have "masters_up hs i ns s1" using untouched_up [OF u] masters_up_tl [OF Cons.prems] by simp
    from Cons.IH [OF this] obtain o' s' where m: "status_masters (cluster_http hs rd) ns i s1 = (o', s')" "untouched s1 s'"
      "case sought (\<lambda>_. True) (slots hs i ns s) of Inl c \<Rightarrow> outcome_code o' = Some c
       | Inr k \<Rightarrow> \<exists>b d. k < length ns \<and> slots hs i ns s ! k = Stored b d \<and>
           o' = respond 200 (JsonBundle (marshal_bundle (presented (s (n_baseURL (ns ! k))) b d)))"
      unfolding untouched_slots [OF u] untouched_presented [OF u] by blast
    then show ?thesis using Absent c [unfolded learned_def] untouched_trans [OF u m(2)] by (cases "sought (\<lambda>_. True) (slots hs i ns s)") auto
  next
    case (Stored b d)
    then show ?thesis using c u by (auto simp: learned_def writeJSONError_def)
  qed (use c u in \<open>auto simp: learned_def writeJSONError_def\<close>)
qed (simp add: writeJSONError_def)

lemma find_sought:
  assumes "masters_up hs i ns s" and "valid_id i"
  shows "\<exists>r s'. find_done (cluster_http hs rd) ns i s = (r, s') \<and> untouched s s' \<and>
    (case sought (\<lambda>b. bStatus b = Done) (slots hs i ns s) of
       Inl c \<Rightarrow> \<exists>o'. r = Inl o' \<and> outcome_code o' = Some c
     | Inr k \<Rightarrow> \<exists>b d. k < length ns \<and> slots hs i ns s ! k = Stored b d \<and> usable b d \<and> bStatus b = Done \<and> r = Inr (ns ! k))"
  using assms(1)
proof (induction ns arbitrary: s)
  case (Cons n ns)
  let ?w = "\<lambda>b. bStatus b = Done" and ?sl = "slot_of (hs (n_baseURL n)) (s (n_baseURL n)) i"
  obtain s1 where u: "untouched s s1" and c: "client_Status (cluster_http hs rd) (n_baseURL n) i s = (learned hs i n s, s1)"
    by (rule master_status [OF Cons.prems assms(2)])
  have st: "bStatus (presented w b d) = bStatus b" for w b d by (simp add: presented_def split: option.splits)
  have "masters_up hs i ns s1" using untouched_up [OF u] masters_up_tl [OF Cons.prems] by simp
  from Cons.IH [OF this] obtain r s' where m: "find_done (cluster_http hs rd) ns i s1 = (r, s')" "untouched s1 s'"
    "case sought ?w (slots hs i ns s) of Inl c \<Rightarrow> \<exists>o'. r = Inl o' \<and> outcome_code o' = Some c
     | Inr k \<Rightarrow> \<exists>b d. k < length ns \<and> slots hs i ns s ! k = Stored b d \<and> usable b d \<and> bStatus b = Done \<and> r = Inr (ns ! k)"
    unfolding untouched_slots [OF u] by blast
  have go_on: ?case if "find_done (cluster_http hs rd) (n # ns) i s = find_done (cluster_http hs rd) ns i s1"
    "sought ?w (slots hs i (n # ns) s) = map_sum id Suc (sought ?w (slots hs i ns s))"
    unfolding that using m untouched_trans [OF u m(2)] by (cases "sought ?w (slots hs i ns s)") auto
  show ?case
  proof (cases ?sl)
    case Absent
    then show ?thesis using c by (intro go_on) (simp_all add: learned_def)
  next
    case (Stored b d)
    then show ?thesis
    proof (cases "usable b d \<and> bStatus b \<noteq> Done")
      case True
      then show ?thesis using Stored c st by (intro go_on) (simp_all add: learned_def)
    next
      case False
      then show ?thesis using Stored c u st by (auto simp: learned_def writeJSONError_def)
    qed
  qed (use c u in \<open>auto simp: learned_def writeJSONError_def\<close>)
qed (simp add: writeJSONError_def)

text \<open>The archive of the master that was found is served from a temporary directory, which is removed again.\<close>

lemma download_found:
  assumes "masters_up hs i ns s" and "valid_id i" and "n \<in> set ns" and "slot_of (hs (n_baseURL n)) (s (n_baseURL n)) i = Stored b d"
    and "usable b d" and "bStatus b = Done" and "calm w" and "is_dir w (parent p)" and "fs_get w p = None"
  obtains f s' w' where "d = Some (File f)" and "client_GetFile (cluster_http hs rd) (n_baseURL n) i p s w = (None, s', w')"
    and "untouched s s'" and "same_except {p} w w'" and "fs_get w' p = Some (File f)" and "calm w'"
proof -
  let ?b = "n_baseURL n"
  have up: "host_url ?b" "calm (s ?b)" "regular (hs ?b) (s ?b) i" using assms(1,3) by (simp_all add: masters_up_def)
  have "d \<noteq> None" "d \<noteq> Some Dir"
    using assms(5,6) up(3) slot_Stored_state [OF assms(4)] by (auto simp: usable_def settled_def regular_def ready_def)
  then obtain f where f: "d = Some (File f)" by (cases d rule: option.exhaust) (auto intro: inode.exhaust)
  obtain v w' where g: "client_GetFile (node_http (hs ?b) ?b rd) ?b i p (s ?b) w = (None, v, w')" "fs_get w' p = Some (File f)"
    "same_except {p} w w'" "same_except {} (s ?b) v"
    using client_GetFile_delivers [OF up(2) assms(2) assms(4) [unfolded f] assms(6,7) _ assms(8), of ?b rd] assms(9) by auto
  show thesis
    using that [OF f, of "s(?b := v)" w'] g cluster_GetFile [OF up(1), of hs rd i p s w] untouched_upd [of s ?b v]
      calm_same [OF g(3)] assms(7) by simp
qed

lemma download_sought:
  assumes "masters_up hs i (to_nodes c ms) s" and "valid_id i" and "calm w" and "clean tmp = tmp"
    and "fs_get w tmp = None" and "fs_get w (join [tmp, ''bundle.zip'']) = None"
  shows "\<exists>o' s' w'. cb_Download c (cluster_http hs rd) (Inr ms) (Inr tmp) i s w = (o', s', w') \<and> untouched s s' \<and> same_except {} w w' \<and>
    (case sought (\<lambda>b. bStatus b = Done) (slots hs i (to_nodes c ms) s) of
       Inl c \<Rightarrow> outcome_code o' = Some c
     | Inr k \<Rightarrow> \<exists>b f. k < length (to_nodes c ms) \<and> slots hs i (to_nodes c ms) s ! k = Stored b (Some (File f)) \<and> bStatus b = Done \<and>
         o' = Respond \<lparr>rcode = 200, rheaders = download_headers i, rbody = FileBody f\<rparr>)"
proof -
  let ?ns = "to_nodes c ms" and ?ht = "cluster_http hs rd" and ?p = "join [tmp, ''bundle.zip'']" and ?w0 = "fs_put tmp Dir w"
  obtain r s1 where fd: "find_done ?ht ?ns i s = (r, s1)" and u: "untouched s s1"
    and ct: "case sought (\<lambda>b. bStatus b = Done) (slots hs i ?ns s) of Inl c \<Rightarrow> \<exists>o'. r = Inl o' \<and> outcome_code o' = Some c
     | Inr k \<Rightarrow> \<exists>b d. k < length ?ns \<and> slots hs i ?ns s ! k = Stored b d \<and> usable b d \<and> bStatus b = Done \<and> r = Inr (?ns ! k)"
    using find_sought [OF assms(1,2)] by blast
  show ?thesis
  proof (cases "sought (\<lambda>b. bStatus b = Done) (slots hs i ?ns s)")
    case (Inl code)
    then show ?thesis using ct fd u by (auto simp: cb_Download_def cb_getMasterNodes_def)
  next
    case (Inr k)
    then obtain b d where k: "k < length ?ns" "slots hs i ?ns s ! k = Stored b d" "usable b d" "bStatus b = Done" "r = Inr (?ns ! k)"
      using ct by auto
    have rc: "real_comp ''bundle.zip''" by code_simp
    have "tmp \<noteq> ?p" using path_comps_join [of "[''bundle.zip'']" tmp] rc by (auto simp del: join.simps)
    then have d0: "is_dir ?w0 (parent ?p)" "fs_get ?w0 ?p = None" "calm ?w0"
      using parent_join1 [OF rc, of tmp] assms(3,4,6) by (simp_all add: is_dir_def calm_def del: join.simps)
    have sl: "slot_of (hs (n_baseURL (?ns ! k))) (s1 (n_baseURL (?ns ! k))) i = Stored b d"
      using k(1,2) untouched_slots [OF u, of hs i ?ns] by (metis slots_simps(3))
    have up1: "masters_up hs i ?ns s1" using untouched_up [OF u] assms(1) by simp
    obtain f s2 w1 where g: "d = Some (File f)" "client_GetFile ?ht (n_baseURL (?ns ! k)) i ?p s1 ?w0 = (None, s2, w1)" "untouched s1 s2"
        "same_except {?p} ?w0 w1" "fs_get w1 ?p = Some (File f)" "calm w1"
      by (rule download_found [OF up1 assms(2) nth_mem [OF k(1)] sl k(3,4) d0(3,1,2)])
    have sv: "serve_file (download_headers i) ?p w1 = (Respond \<lparr>rcode = 200, rheaders = download_headers i, rbody = FileBody f\<rparr>, tick w1)"
      using g(5,6) by (simp add: serve_file_def calm_failing del: join.simps)
    have "cb_Download c ?ht (Inr ms) (Inr tmp) i s w =
        (Respond \<lparr>rcode = 200, rheaders = download_headers i, rbody = FileBody f\<rparr>, s2, fs_del tmp (fs_del ?p (tick w1)))"
      using fd k(5) g(2) sv by (simp add: cb_Download_def cb_getMasterNodes_def Let_def del: join.simps)
    moreover have "same_except {} w (fs_del tmp (fs_del ?p (tick w1)))"
      using g(4) assms(5,6) by (auto simp: same_except_def simp del: join.simps)
    ultimately show ?thesis using Inr k g(1) untouched_trans [OF u g(3)] by auto
  qed
qed

section \<open>Delete\<close>

lemma master_delete:
  assumes "masters_up hs i (n # ns) s" and "valid_id i"
    and "spec_serve 0 (presented (s (n_baseURL n))) (DeleteBundle []) (slot_of (hs (n_baseURL n)) (s (n_baseURL n)) i) = (c, sl)"
  obtains e w where "client_Delete (cluster_http hs rd) (n_baseURL n) i s = (e, s(n_baseURL n := w))" and "error_fits i c e"
    and "slot_of (hs (n_baseURL n)) w i = sl" and "c \<in> {200, 404, 500}"
proof -
  let ?b = "n_baseURL n"
  have up: "host_url ?b" "calm (s ?b)" "regular (hs ?b) (s ?b) i" "own_id (hs ?b) (s ?b) i" using assms(1) by (simp_all add: masters_up_def)
  obtain e w where d: "client_Delete (node_http (hs ?b) ?b rd) ?b i (s ?b) = (e, w)" by fastforce
  have eq: "spec_serve t v (DeleteBundle j) x = spec_serve 0 v (DeleteBundle []) x" for t v j x by (cases x) simp_all
  have "error_fits i c e \<and> slot_of (hs ?b) w i = sl"
    using client_Delete_spec [OF up(2) assms(2) up(3,4) refl d] assms(3) by (simp only: eq [of "clock (s ?b) (calls (s ?b) + 2)" _ i] fst_conv snd_conv)
  moreover have "c \<in> {200, 404, 500}"
    using assms(3) by (cases "slot_of (hs ?b) (s ?b) i") (auto split: if_splits)
  ultimately show thesis using that [of e w] cluster_Delete [OF up(1), of hs rd i s] d by simp
qed

lemma delete_spec:
  assumes "masters_up hs i ns s" and "valid_id i" and "distinct (map n_baseURL ns)"
  shows "\<exists>o' s'. delete_masters (cluster_http hs rd) ns i found s = (o', s') \<and>
    outcome_code o' = Some (fst (deleted found (zip (map (\<lambda>n. presented (s (n_baseURL n))) ns) (slots hs i ns s)))) \<and>
    slots hs i ns s' = snd (deleted found (zip (map (\<lambda>n. presented (s (n_baseURL n))) ns) (slots hs i ns s))) \<and>
    (\<forall>b. b \<notin> n_baseURL ` set ns \<longrightarrow> s' b = s b)"
  using assms(1,3)
proof (induction ns arbitrary: found s)
  case (Cons n ns)
  let ?b = "n_baseURL n"
  obtain c sl where sp: "spec_serve 0 (presented (s ?b)) (DeleteBundle []) (slot_of (hs ?b) (s ?b) i) = (c, sl)" by fastforce
  obtain e w where d: "client_Delete (cluster_http hs rd) ?b i s = (e, s(?b := w))" "error_fits i c e" "slot_of (hs ?b) w i = sl" "c \<in> {200, 404, 500}"
    by (rule master_delete [OF Cons.prems(1) assms(2) sp])
  let ?s = "s(?b := w)"
  have nb: "n_baseURL m \<noteq> ?b" if "m \<in> set ns" for m using Cons.prems(2) imageI [OF that, of n_baseURL] by auto
  have sm: "slots hs i ns ?s = slots hs i ns s" "map (\<lambda>n. presented (?s (n_baseURL n))) ns = map (\<lambda>n. presented (s (n_baseURL n))) ns"
    using nb by (simp_all add: slots_def)
  show ?case
  proof (cases "c = 500")
    case True
    then show ?thesis using d sp sm(1) by (simp add: error_fits_def writeJSONError_def slots_def)
  next
    case False
    have "masters_up hs i ns ?s" using Cons.prems(1) nb by (simp add: masters_up_def)
    moreover have "distinct (map n_baseURL ns)" using Cons.prems(2) by simp
    ultimately obtain o' s' where m: "delete_masters (cluster_http hs rd) ns i (found \<or> c = 200) ?s = (o', s')"
      "outcome_code o' = Some (fst (deleted (found \<or> c = 200) (zip (map (\<lambda>n. presented (s (n_baseURL n))) ns) (slots hs i ns s))))"
      "slots hs i ns s' = snd (deleted (found \<or> c = 200) (zip (map (\<lambda>n. presented (s (n_baseURL n))) ns) (slots hs i ns s)))"
      "\<forall>b. b \<notin> n_baseURL ` set ns \<longrightarrow> s' b = ?s b" using Cons.IH [of ?s "found \<or> c = 200"] unfolding sm by blast
    have "?b \<notin> n_baseURL ` set ns" using Cons.prems(2) by simp
    then have b: "s' ?b = w" using m(4) by simp
    have "delete_masters (cluster_http hs rd) (n # ns) i found s = (o', s')"
      using d m(1) False by (auto simp: error_fits_def split: if_splits)
    then show ?thesis using m b d(3) sp False by (auto split: prod.splits)
  qed
qed (simp add: writeJSONError_def)

section \<open>List\<close>

text \<open>What the handler of one master lists.\<close>

definition listed :: "BundleHandler \<Rightarrow> world \<Rightarrow> Bundle list" where
  "listed h w = fst (list_states h (dir_entries (bh_workDir h) w) (tick w))"

lemma decode_docs_marshal: "decode_docs (map marshal_bundle bs) = Inr bs"
  by (induction bs) (simp_all add: unmarshal_zero)

lemma master_list:
  assumes "host_url b" and "calm (s b)" and "is_dir (s b) (clean (bh_workDir (hs b)))"
  obtains w where "client_List (cluster_http hs rd) b s = (Inr (listed (hs b) (s b)), s(b := w))" and "same_except {} (s b) w"
proof -
  have "bundlesEndpoint = slash # tl bundlesEndpoint" by (simp add: bundlesEndpoint_def)
  then have ho: "host_of (b @ bundlesEndpoint) = b" using host_of_append [OF assms(1)] by metis
  have rt: "node_route b GET (b @ bundlesEndpoint) = Some ListBundles"
    by (simp add: node_route_def has_prefix_def)
  obtain bs w where l: "list_states (hs b) (dir_entries (bh_workDir (hs b)) (s b)) (tick (s b)) = (bs, w)" by fastforce
  have g: "bh_List (hs b) (s b) = (respond 200 (JsonBundles (map marshal_bundle bs)), w)"
    using assms(2,3) l by (simp add: bh_List_def sys_read_dir_def calm_failing)
  have "client_List (cluster_http hs rd) b s = (Inr bs, s(b := w))"
    unfolding client_List_def cluster_call [OF ho] using g
    by (simp add: client_call_def node_http_def node_do_def rt handleErrorCode_def respond_def decode_to_def decode_docs_marshal)
  then show thesis using that bh_List_frame [OF g] l by (simp add: listed_def)
qed

lemma list_all_masters:
  assumes "\<forall>n\<in>set ns. host_url (n_baseURL n) \<and> calm (s (n_baseURL n)) \<and> is_dir (s (n_baseURL n)) (clean (bh_workDir (hs (n_baseURL n))))"
    and "distinct (map n_baseURL ns)"
  shows "\<exists>s'. list_masters (cluster_http hs rd) ns bs s =
    (Inr (bs @ concat (map (\<lambda>n. listed (hs (n_baseURL n)) (s (n_baseURL n))) ns)), s') \<and> untouched s s'"
  using assms
proof (induction ns arbitrary: bs s)
  case (Cons n ns)
  let ?b = "n_baseURL n"
  obtain w where l: "client_List (cluster_http hs rd) ?b s = (Inr (listed (hs ?b) (s ?b)), s(?b := w))" "same_except {} (s ?b) w"
    by (rule master_list [of ?b s hs rd]) (use Cons.prems(1) in auto)
  let ?s = "s(?b := w)"
  have "\<forall>m\<in>set ns. ?s (n_baseURL m) = s (n_baseURL m)" using Cons.prems(2) by (auto simp: image_iff)
  then have eq: "map (\<lambda>n. listed (hs (n_baseURL n)) (?s (n_baseURL n))) ns = map (\<lambda>n. listed (hs (n_baseURL n)) (s (n_baseURL n))) ns"
    and up: "\<forall>n\<in>set ns. host_url (n_baseURL n) \<and> calm (?s (n_baseURL n)) \<and> is_dir (?s (n_baseURL n)) (clean (bh_workDir (hs (n_baseURL n))))"
    using Cons.prems(1) by (auto simp del: fun_upd_apply)
  have di: "distinct (map n_baseURL ns)" using Cons.prems(2) by simp
  obtain s' where "list_masters (cluster_http hs rd) ns (bs @ listed (hs ?b) (s ?b)) ?s =
      (Inr ((bs @ listed (hs ?b) (s ?b)) @ concat (map (\<lambda>n. listed (hs (n_baseURL n)) (s (n_baseURL n))) ns)), s')" "untouched ?s s'"
    using Cons.IH [OF up di, of "bs @ listed (hs ?b) (s ?b)", unfolded eq] by blast
  then show ?case using l untouched_trans [OF untouched_upd [of s ?b w]] by auto
qed simp

section \<open>The contract\<close>


text \<open>Three masters: the first has no bundle, the second a deleted one, the third the finished one.\<close>

definition sample_cluster_masters :: "Node list" where
  "sample_cluster_masters = [plain_Node False MasterRole ''10.0.0.1'', plain_Node False MasterRole ''10.0.0.2'', plain_Node False MasterRole ''10.0.0.3'']"

definition gone_files :: "(string \<times> inode) list" where
  "gone_files = [(''/w'', Dir), (''/w/a'', Dir), (''/w/a/state.json'', File (StateDoc (marshal_bundle (done_bundle\<lparr>bStatus := Deleted\<rparr>))))]"

definition sample_masters_state :: "string \<Rightarrow> world" where
  "sample_masters_state b = sample_world (if b = ''http://10.0.0.1:1050'' then [(''/w'', Dir)] else if b = ''http://10.0.0.2:1050'' then gone_files else done_files)"

lemma sample_masters_nodes:
  "map n_baseURL (to_nodes sample_cluster sample_cluster_masters) = [''http://10.0.0.1:1050'', ''http://10.0.0.2:1050'', ''http://10.0.0.3:1050'']"
  by code_simp

lemma sample_masters_up: "masters_up (\<lambda>_. sample_handler) ''a'' (to_nodes sample_cluster sample_cluster_masters) sample_masters_state"
proof -
  have c: "calm (sample_masters_state b)" for b by (simp add: calm_def sample_world_def sample_masters_state_def)
  have "list_all (\<lambda>b. host_url b \<and> regular sample_handler (sample_masters_state b) ''a'')
      [''http://10.0.0.1:1050'', ''http://10.0.0.2:1050'', ''http://10.0.0.3:1050'']" by code_simp
  moreover have "slot_of sample_handler (sample_masters_state ''http://10.0.0.1:1050'') ''a'' = Absent"
    "slot_of sample_handler (sample_masters_state ''http://10.0.0.2:1050'') ''a'' = Stored (done_bundle\<lparr>bStatus := Deleted\<rparr>) None"
    "slot_of sample_handler (sample_masters_state ''http://10.0.0.3:1050'') ''a'' = Stored done_bundle (Some (File (Zip [])))"
    "bID done_bundle = ''a''" by code_simp+
  ultimately have "list_all (\<lambda>b. host_url b \<and> calm (sample_masters_state b) \<and> regular sample_handler (sample_masters_state b) ''a'' \<and>
      own_id sample_handler (sample_masters_state b) ''a'') (map n_baseURL (to_nodes sample_cluster sample_cluster_masters))"
    using c unfolding sample_masters_nodes by (simp add: own_id_def)
  then show ?thesis by (simp add: masters_up_def list_all_iff)
qed


end
