(* ===== verification/Spec2Isabelle.thy ===== *)
theory Spec2Isabelle
  imports Http_Api Job_Run Job_Protocol Pull_Limiter Cluster_Proxy
begin

text \<open>
  \<^bold>\<open>A verification development of dcos-diagnostics.\<close>

  \<^bold>\<open>The program.\<close> Every node of a DC/OS cluster runs the daemon. It judges the systemd units of its node and serves the result
  over HTTP; on masters it also pulls the results of all nodes into one status tree. It collects diagnostics bundles: zip
  archives with the outputs of commands, units, files and HTTP endpoints. There are two generations of the bundle
  code. The newer one (\<^verbatim>\<open>api/rest\<close>) has a node-level API that collects the local data in a goroutine, and a cluster-level API
  on the masters whose coordinator makes a local bundle on every node through the HTTP client, waits for them,
  downloads, merges and deletes them. The older one (\<^verbatim>\<open>api/diagnostics.go\<close>) is a single background job of a master that
  fetches the log endpoints of all nodes with a pool of fetchers. A router with middleware leads to all handlers, and
  \<^verbatim>\<open>cmd\<close> builds and starts everything.

  \<^bold>\<open>Style.\<close> Go functions are HOL functions with the names of the source, prefixed where methods of different types share a name
  (\<^verbatim>\<open>bh_\<close> for \<^verbatim>\<open>BundleHandler\<close>, \<^verbatim>\<open>cb_\<close> for \<^verbatim>\<open>ClusterBundleHandler\<close>, \<^verbatim>\<open>dj_\<close> for \<^verbatim>\<open>DiagnosticsJob\<close>, \<^verbatim>\<open>win_\<close> and \<^verbatim>\<open>darwin_\<close> for the
  platforms). A value with an error is a sum whose left side is the error; a panic is an outcome of its own. Structs are records,
  enumerations datatypes, maps association lists with distinct keys, strings byte lists. Everything that touches files
  works on an explicit \<open>world\<close> with an oracle that decides which system call fails, so a theorem about a world holds for
  every pattern of I/O faults; \<open>calm\<close> worlds have none. Goroutines and channels are step relations. Loops are
  structural recursion over what they consume; there is no fuel, except that a receive from a channel that stays empty is the
  value \<open>None\<close> (\<open>receive_loop\<close>), which \<open>coordination_collected\<close> shows not to happen once the coordination has ended.

  \<^bold>\<open>Foundations.\<close>
  \<^item> \<open>Prelude\<close>: strings, \<^verbatim>\<open>strings\<close>, \<^verbatim>\<open>strconv\<close> and \<^verbatim>\<open>fmt\<close>, status codes. \<open>Utf8\<close>: the runes of a string and \<^verbatim>\<open>util.SanitizeString\<close>.
    \<open>Filepath\<close>: \<^verbatim>\<open>path/filepath\<close>, with the injectivity of \<^verbatim>\<open>Join\<close> on real components that every containment result rests on.
  \<^item> \<open>Transitions\<close>: the contracts \<open>invariant_system\<close>, \<open>terminating_system\<close> and \<open>settling_system\<close> of step relations; every
    relation below interprets one of them and gets its results on whole courses of events from there.
  \<^item> \<open>Filesystem\<close>: the system calls and their frames. \<open>Http\<close>: responses and bodies. \<open>Config\<close>: \<^verbatim>\<open>config/config.go\<close>.

  \<^bold>\<open>Node-level bundles\<close> (\<^verbatim>\<open>api/rest/bundle_handler.go\<close>, \<^verbatim>\<open>status.go\<close>, \<^verbatim>\<open>type.go\<close>, \<^verbatim>\<open>collector/\<close>, \<^verbatim>\<open>io/\<close>).
  \<^item> \<open>Bundle\<close>: the data and its JSON form; decoding inverts encoding.
  \<^item> \<open>Collector\<close>, \<open>Providers\<close>: the four kinds of collectors, and which ones a node loads from its units and its configuration.
  \<^item> \<open>Bundle_Handler\<close>: the five handlers and the collecting goroutines. \<open>Bundle_Store\<close>: the abstraction \<open>slot_of\<close> of a directory to
    the bundle stored in it, and the interface \<open>state_writer\<close> of writing a state file; answers are truthful under
    all faults.
  \<^item> \<open>Bundle_Lifecycle\<close>: the interleaving of requests and collections as \<open>node_step\<close>, with its invariants. \<open>Bundle_Contract\<close>: the
    specification \<open>spec_serve\<close> on slots, the refinement, what a finished collection serves, and the interleavings that break a
    bundle.

  \<^bold>\<open>Cluster-level bundles\<close> (\<^verbatim>\<open>api/rest/client.go\<close>, \<^verbatim>\<open>coordinator.go\<close>, \<^verbatim>\<open>cluster_bundle_handler.go\<close>).
  \<^item> \<open>Rest_Client\<close>: the client over an arbitrary transport, the interface \<open>bundle_client\<close> of downloads. \<open>Client_Node\<close>: the client in front
    of the node handlers; its commands do to the node what \<open>spec_serve\<close> says, and a remote collection delivers its archive.
  \<^item> \<open>Zip_Merge\<close>: merging archives; no entry leaves its node's directory, and a merge without faults is \<open>merged_archive\<close>.
  \<^item> \<open>Coordinator\<close>: workers, timers, channels and receiver as \<open>coord_step\<close>, for arbitrary answers of the nodes; no send blocks,
    the coordination ends after the deadline, the report is truthful.
  \<^item> \<open>Cluster_Handler\<close>: the handlers of the cluster API and the waiting goroutine; a second provider of \<open>state_writer\<close>.
  \<^item> \<open>Cluster_Run\<close>: the whole path of a cluster bundle over a transport that brings each request to the node its URL names. The
    interface \<open>ready_client\<close> is interpreted on the client over that transport. The theory also shows how two cluster bundles
    mix when one master collects them at the same time.
  \<^item> \<open>Cluster_Proxy\<close>: the requests that a master passes on to the masters, refined to functions of the masters' slots.

  \<^bold>\<open>The legacy job\<close> (\<^verbatim>\<open>api/diagnostics.go\<close>, \<^verbatim>\<open>fetcher/fetcher.go\<close>).
  \<^item> \<open>Fetcher\<close>: one fetcher as a function, the pool and its receiver as \<open>fetch_step\<close>; without cancellation all results arrive,
    with it the job can hang. \<open>Diagnostics_Job\<close>: starting, cancelling, deleting, the background job. \<open>Job_Run\<close>: the job with its
    fetchers end to end. \<open>Job_Protocol\<close>: the check and the start of \<^verbatim>\<open>run\<close> as separate steps; one job at a time holds for requests that
    do not overlap and fails for requests that do.

  \<^bold>\<open>Health\<close> (\<^verbatim>\<open>dcos/\<close>, \<^verbatim>\<open>units/\<close>, \<^verbatim>\<open>api/health_*.go\<close>, \<^verbatim>\<open>properties_*.go\<close>, \<^verbatim>\<open>monitoring_response.go\<close>, \<^verbatim>\<open>pull.go\<close>).
  \<^item> \<open>Dcos_Nodes\<close>: roles, URLs, and the chains of finders, whose contract is the locale \<open>node_finder\<close>. \<open>Unit_Health\<close>: the judgement of
    a unit and the locked connection to systemd (\<open>unit_controller\<close>, also interpreted in \<open>Platforms\<close> for Windows).
  \<^item> \<open>Monitoring\<close>, \<open>Pull\<close>: the status tree, its queries, and how a pull builds it from the answers of the nodes in any order.
    \<open>Pull_Limiter\<close>: the goroutines of one pull with their tokens as \<open>host_step\<close>; all nodes are asked, never too many at once.
    \<open>Puller_Protocol\<close>: the rendezvous of requests for fresh data with the puller as \<open>pull_step\<close>.

  \<^bold>\<open>HTTP and start\<close> (\<^verbatim>\<open>api/handlers.go\<close>, \<^verbatim>\<open>router.go\<close>, \<^verbatim>\<open>metrics_middleware.go\<close>, \<^verbatim>\<open>cmd/\<close>, \<^verbatim>\<open>util/\<close>).
  \<^item> \<open>Handlers\<close>: the handlers of the tree and of the legacy bundles. \<open>Router\<close>: the table, the matching of the vendored \<^verbatim>\<open>gorilla/mux\<close>
    for its templates, the middleware. \<open>Daemon\<close>: flags, commands, the start on each platform. \<open>Http_Api\<close>: method and path to
    effect and answer, for the node bundles and for the tree.

  This theory adds where the two generations of the bundle code meet: in the directory that both write to.

  \<^bold>\<open>Hypotheses.\<close> Ids of bundles are taken to be single path components (\<open>valid_id\<close>), which the router guarantees for what it
  routes; \<open>no_panic\<close> excludes commands without words, which the configuration loader lets through; \<open>plain_names\<close> says that an
  archive has no entry that the check of \<^verbatim>\<open>sanitizeExtractPath\<close> would refuse. In \<open>Cluster_Run\<close> the files of the nodes are
  apart from those of the coordinator. The outside world (D-Bus, the journal, the Windows service manager, DNS,
  HTTP transports, \<^verbatim>\<open>net/url\<close>, \<^verbatim>\<open>mapstructure\<close>, \<^verbatim>\<open>uuid\<close>, \<^verbatim>\<open>dcos-go\<close>, \<^verbatim>\<open>cobra\<close>, \<^verbatim>\<open>viper\<close>) is a parameter of the definitions that use it.

  \<^bold>\<open>Not modelled.\<close> Logging and the Prometheus metrics, apart from the labels the metrics middleware observes; the progress in percent and
  the disk usage of the legacy job, which are floating-point numbers that nothing else reads; compression of answers and archives;
  the text of JSON documents, whose values are modelled; the locks of the legacy job and of the tree, whose critical sections
  are single steps; time limits of single calls, which are among the errors a call can return; the parsing of the
  command line and of the configuration file; the test doubles in \<^verbatim>\<open>mocks\<close>.
\<close>

section \<open>Two generations in one directory\<close>

text \<open>A file of a directory is among its entries.\<close>

lemma read_dir_entry:
  assumes "failing w = None" and "is_dir w (clean d)" and "fs_get w (join [d, f]) = Some n" and "real_comp f"
  shows "\<exists>es. sys_read_dir d w = (Inr es, tick w) \<and> (f, n) \<in> set es"
proof -
  have m: "(join [d, f], n) \<in> set (files w)" using assms(3) by (auto simp: fs_get_def dest: map_of_SomeD simp del: join.simps)
  have "path_comps (join [d, f]) \<noteq> []" using path_comps_join [of "[f]" d] assms(4) by (simp del: join.simps)
  then have "(f, n) \<in> set (dir_entries d w)"
    using m base_name_join [OF assms(4), of d] parent_join1 [OF assms(4), of d]
    by (force simp: dir_entries_def simp del: join.simps)
  then show ?thesis using assms(1,2) by (simp add: sys_read_dir_def)
qed

lemma merged_is_file:
  assumes "mergeZips report ps wd w = (Inr p, w')"
  shows "p = merged_path wd (rep_id report) \<and> is_file w' p"
proof -
  let ?p = "merged_path wd (rep_id report)"
  obtain w1 where cr: "sys_create ?p w = (None, w1)" and p: "p = ?p"
    using assms by (auto simp: mergeZips_def Let_def split: prod.splits option.splits)
  obtain e z w2 where me: "merge_entries report ps w1 = (e, z, w2)" by (metis prod_cases3)
  have "fs_get w2 ?p = Some (File (Bytes []))"
    using create_ok [OF cr] same_except_get [OF merge_entries_frame [OF me], of ?p] by simp
  then show ?thesis
    using assms cr me p by (auto simp: mergeZips_def close_all_def flush_zip_get is_file_def Let_def split: option.splits prod.splits)
qed

text \<open>
  The merged file of a cluster bundle is never removed, and it shows up among the bundles of the legacy job: the coordinator
  writes it to the directory that both work on, under a name that the listing of the legacy job takes for one of its own.
\<close>

theorem merged_file_listed:
  assumes "mergeZips report ps wd w = (Inr p, w')" and "valid_id (rep_id report)" and "FlagDiagnosticsBundleDir (dj_Cfg j) = wd"
    and "failing w' = None" and "is_dir w' (clean wd)" and "\<not> dj_Running j"
  shows "p \<in> set (fst (findLocalBundle j w'))"
proof -
  let ?f = "msg [''bundle-'', rep_id report, ''.zip'']"
  have f: "real_comp ?f" using merged_name_real [OF assms(2)] .
  have p: "p = join [wd, ?f]" using merged_is_file [OF assms(1)] by (simp add: merged_path_def del: join.simps)
  obtain b where "fs_get w' (join [wd, ?f]) = Some (File b)"
    using merged_is_file [OF assms(1)] p by (auto simp: is_file_def split: option.splits inode.splits simp del: join.simps)
  then obtain es where es: "sys_read_dir wd w' = (Inr es, tick w')" "(?f, File b) \<in> set es"
    using read_dir_entry [OF assms(4,5) _ f] by blast
  have "bundle_pattern ?f" by (simp add: bundle_pattern_def has_prefix_def has_suffix_def msg_def)
  then show ?thesis using es p assms(3,6) by (force simp: findLocalBundle_def simp del: join.simps)
qed

theorem merged_file_listed_witness:
  "\<exists>w'. ''/b/bundle-b.zip'' \<in> set (fst (findLocalBundle sample_job w'))"
proof -
  let ?r = "mergeZips sample_report [] ''/b'' (sample_world [(''/b'', Dir)])"
  have 1: "fst ?r = Inr ''/b/bundle-b.zip''" "failing (snd ?r) = None" "is_dir (snd ?r) (clean ''/b'')" "valid_id (rep_id sample_report)"
    "FlagDiagnosticsBundleDir (dj_Cfg sample_job) = ''/b''" "\<not> dj_Running sample_job" by code_simp+
  have "?r = (Inr ''/b/bundle-b.zip'', snd ?r)" using 1(1) by (metis prod.collapse)
  from merged_file_listed [OF this 1(4,5,2,3,6)] show ?thesis by blast
qed

end
